(* ===== verification/Prelude.thy ===== *)
theory Prelude
  imports Main
begin

section \<open>Shared vocabulary and lemmas\<close>

text \<open>
  The lemmas and collections that every component of the development uses: arrays of the C
  source are lists of a fixed length, scanned by index, so the lemmas here speak of a list
  split at the position the scan has reached.
\<close>

named_theorems arr_simps \<open>rewriting a list at the position a scan has reached\<close>

lemma nth_split [arr_simps]: "i = length xs \<Longrightarrow> (xs @ y # ys) ! i = y"
  by simp

lemma update_split [arr_simps]: "i = length xs \<Longrightarrow> (xs @ y # ys)[i := z] = xs @ z # ys"
  by simp

lemma split_at: "i < length xs \<Longrightarrow> \<exists>us vs. xs = us @ (xs ! i) # vs \<and> length us = i"
  by (metis id_take_nth_drop length_take less_imp_le_nat min.absorb2)

end
