(* ===== verification/Machine.thy ===== *)
theory Machine
  imports Prelude "HOL-Library.Word"
begin

unbundle bit_operations_syntax

section \<open>The 48-bit word, its bytes and its integers\<close>

text \<open>
  A memory cell is a 48-bit word.  Six bytes pack into it, the first in the most significant
  position; an \<open>int\<close> is a 41-bit two's complement value in its low bits.  A character
  pointer (\<open>caddr_t\<close>) is a word address and a byte position: it is modelled by the byte
  address \<open>6 * word + position\<close>, so that \<open>ptrword\<close> is the quotient and \<open>ptrbyte\<close>, which
  counts the position as a right-shift distance, is 5 minus the remainder.  The two
  bit-gathering instructions the page tables are packed with are taken from the simulator.
\<close>

type_synonym w48 = "48 word"

abbreviation (input) NBPW :: int where "NBPW \<equiv> 6"

definition btow :: "int \<Rightarrow> int" where "btow x = (x + 5) div 6"
definition wtob :: "int \<Rightarrow> int" where "wtob x = x * 6"
definition ptrword :: "int \<Rightarrow> int" where "ptrword p = p div 6"
definition ptrbyte :: "int \<Rightarrow> int" where "ptrbyte p = 5 - p mod 6"

text \<open>Byte \<open>j\<close> of a word, \<open>j = 0\<close> the first (most significant).\<close>

definition wbyte :: "w48 \<Rightarrow> nat \<Rightarrow> w48" where
  "wbyte w j = take_bit 8 (drop_bit (8 * (5 - j)) w)"

definition set_wbyte :: "w48 \<Rightarrow> nat \<Rightarrow> w48 \<Rightarrow> w48" where
  "set_wbyte w j c =
     (w AND NOT (push_bit (8 * (5 - j)) (mask 8))) OR push_bit (8 * (5 - j)) (take_bit 8 c)"

text \<open>The \<open>int\<close> a word holds, and the word that holds an \<open>int\<close>.\<close>

definition ival :: "w48 \<Rightarrow> int" where
  "ival w = signed_take_bit 40 (uint w)"

definition wval :: "int \<Rightarrow> w48" where
  "wval i = word_of_int (take_bit 41 i)"

lemma ival_wval: "- (2 ^ 40) \<le> i \<Longrightarrow> i < 2 ^ 40 \<Longrightarrow> ival (wval i) = i"
proof -
  assume "- (2 ^ 40) \<le> i" "i < 2 ^ 40"
  then have "signed_take_bit 40 i = i"
    by (simp add: signed_take_bit_int_eq_self)
  moreover have "uint (wval i) = take_bit 41 i"
    by (simp add: wval_def unsigned_of_int take_bit_take_bit)
  ultimately show ?thesis
    by (simp add: ival_def signed_take_bit_take_bit)
qed

subsection \<open>Bit gather and scatter\<close>

text \<open>\<open>apx\<close> (\<open>besm6_pack\<close>): gather the bits of \<open>val\<close> that \<open>mask\<close> selects, left-aligned.
  \<open>aux\<close> (\<open>besm6_unpack\<close>): scatter the top bits of \<open>val\<close> into the positions of \<open>mask\<close>.\<close>

function pack_loop :: "w48 \<Rightarrow> w48 \<Rightarrow> w48 \<Rightarrow> w48" where
  "pack_loop val msk result =
     (if msk = 0 then result
      else pack_loop (drop_bit 1 val) (drop_bit 1 msk)
        (if bit msk 0 then (if bit val 0 then Bit_Operations.set_bit 47 (drop_bit 1 result) else drop_bit 1 result)
         else result))"
  by pat_completeness auto
termination
proof (relation "measure (\<lambda>(v, m, r). unat m)")
  fix val msk result :: w48
  assume "msk \<noteq> 0"
  then have "unat msk \<noteq> 0" by (simp add: unat_eq_zero)
  then have "unat msk div 2 < unat msk" by simp
  then have "unat (drop_bit 1 msk) < unat msk" by (simp add: drop_bit_eq_div unat_div)
  then show "((drop_bit 1 val, drop_bit 1 msk,
      if bit msk 0 then (if bit val 0 then Bit_Operations.set_bit 47 (drop_bit 1 result) else drop_bit 1 result)
      else result), (val, msk, result)) \<in> measure (\<lambda>(v, m, r). unat m)"
    by simp
qed simp

declare pack_loop.simps [simp del]

definition apx :: "w48 \<Rightarrow> w48 \<Rightarrow> w48" where
  "apx val msk = pack_loop val msk 0"

fun unpack_loop :: "nat \<Rightarrow> w48 \<Rightarrow> w48 \<Rightarrow> w48 \<Rightarrow> w48" where
  "unpack_loop 0 val msk result = result"
| "unpack_loop (Suc i) val msk result =
     (let r = push_bit 1 result in
      if bit msk 47
      then unpack_loop i (push_bit 1 val) (push_bit 1 msk) (if bit val 47 then r OR 1 else r)
      else unpack_loop i val (push_bit 1 msk) r)"

definition aux :: "w48 \<Rightarrow> w48 \<Rightarrow> w48" where
  "aux val msk = unpack_loop 48 val msk 0"

text \<open>The positions a mask selects from the least significant one up, and how many it
  selects at or above a position.\<close>

function sel :: "w48 \<Rightarrow> nat list" where
  "sel m = (if m = 0 then [] else (if bit m 0 then [0] else []) @ map Suc (sel (drop_bit 1 m)))"
  by pat_completeness auto
termination
proof (relation "measure unat")
  fix m :: w48
  assume "m \<noteq> 0"
  then have "unat m \<noteq> 0" by (simp add: unat_eq_zero)
  then have "unat m div 2 < unat m" by simp
  then show "(drop_bit 1 m, m) \<in> measure unat" by (simp add: drop_bit_eq_div unat_div)
qed simp

declare sel.simps [simp del]

definition above :: "w48 \<Rightarrow> nat \<Rightarrow> nat" where
  "above m p = length (filter (bit m) [p ..< 48])"


lemma not_bit_48 [simp]: "\<not> bit (w :: w48) 48"
  using bit_imp_le_length [of w 48] by auto

lemma pack_loop_bit:
  "n < 48 \<Longrightarrow> length (sel m) \<le> 48 \<Longrightarrow>
   bit (pack_loop v m r) n \<longleftrightarrow>
     (if n + length (sel m) < 48 then bit r (n + length (sel m)) else bit v (sel m ! (n + length (sel m) - 48)))"
proof (induction v m r rule: pack_loop.induct)
  case (1 v m r)
  show ?case
  proof (cases "m = 0")
    case True
    with 1 show ?thesis by (simp add: pack_loop.simps [of v 0] sel.simps [of 0])
  next
    case False
    let ?r = "if bit m 0 then (if bit v 0 then Bit_Operations.set_bit 47 (drop_bit 1 r) else drop_bit 1 r) else r"
    let ?c = "length (sel (drop_bit 1 m))"
    have s: "sel m = (if bit m 0 then [0] else []) @ map Suc (sel (drop_bit 1 m))"
      using False by (simp add: sel.simps [of m])
    have p: "pack_loop v m r = pack_loop (drop_bit 1 v) (drop_bit 1 m) ?r"
      using False by (simp add: pack_loop.simps [of v m])
    have c: "?c \<le> 48" using 1(3) s by (auto split: if_splits)
    have IH: "bit (pack_loop v m r) n \<longleftrightarrow>
        (if n + ?c < 48 then bit ?r (n + ?c) else bit v (Suc (sel (drop_bit 1 m) ! (n + ?c - 48))))"
      unfolding p using 1(1) [OF False 1(2) c] by (simp add: bit_drop_bit_eq)
    show ?thesis
    proof (cases "bit m 0")
      case t: True
      consider "n + ?c < 47" | "n + ?c = 47" | "n + ?c \<ge> 48" by linarith
      then show ?thesis
        by cases (use 1(2,3) IH s t in
            \<open>auto simp: bit_set_bit_iff bit_drop_bit_eq nth_Cons' Suc_diff_le split: if_splits\<close>)
    next
      case f: False
      with 1(2,3) IH s show ?thesis by (auto simp: nth_map)
    qed
  qed
qed

lemma bit_twice [simp]: "bit (m * 2 :: w48) n \<longleftrightarrow> n \<noteq> 0 \<and> n < 48 \<and> bit m (n - 1)"
  using bit_push_bit_iff [of 1 m n] bit_imp_le_length [of m "n - 1"]
  by (auto simp: push_bit_eq_mult Suc_le_eq)

lemma above_step:
  assumes "1 \<le> p" "p \<le> 48"
  shows "above m (p - 1) = above (push_bit 1 m) p + (if bit m 47 then 1 else 0)"
proof -
  have "filter (bit (push_bit 1 m)) [p ..< 48] = filter (bit (push_bit 1 m)) (map Suc [p - 1 ..< 47])"
    using assms by (simp add: map_Suc_upt)
  also have "\<dots> = map Suc (filter (bit m) [p - 1 ..< 47])"
    unfolding filter_map by (rule arg_cong [where f = "map Suc"], rule filter_cong) (auto simp: push_bit_eq_mult)
  finally have "above (push_bit 1 m) p = length (filter (bit m) [p - 1 ..< 47])"
    by (simp add: above_def)
  moreover have "[p - 1 ..< 48] = [p - 1 ..< 47] @ [47]"
    using upt_Suc_append [of "p - 1" 47] assms by (simp del: upt.simps)
  ultimately show ?thesis by (simp add: above_def)
qed

lemma above_le: "above m p \<le> 48 - p"
  unfolding above_def by (rule order_trans [OF length_filter_le]) simp

lemma unpack_loop_bit:
  "k \<le> 48 \<Longrightarrow> n < 48 \<Longrightarrow>
   bit (unpack_loop k v m r) n \<longleftrightarrow>
     (if n < k then bit m (n + 48 - k) \<and> bit v (47 - above m (n + 49 - k)) else bit r (n - k))"
proof (induction k arbitrary: v m r)
  case 0
  then show ?case by simp
next
  case (Suc i)
  let ?v = "if bit m 47 then push_bit 1 v else v"
  let ?r = "if bit m 47 \<and> bit v 47 then push_bit 1 r OR 1 else push_bit 1 r"
  have u: "unpack_loop (Suc i) v m r = unpack_loop i ?v (push_bit 1 m) ?r" by (simp add: Let_def)
  have IH: "bit (unpack_loop (Suc i) v m r) n \<longleftrightarrow>
      (if n < i then bit (push_bit 1 m) (n + 48 - i) \<and> bit ?v (47 - above (push_bit 1 m) (n + 49 - i))
       else bit ?r (n - i))"
    unfolding u using Suc by (intro Suc.IH) auto
  consider "n < i" | "n = i" | "i < n" by linarith
  then show ?case
  proof cases
    case 1
    let ?p = "n + 49 - i"
    have a: "above m (n + 49 - Suc i) = above (push_bit 1 m) ?p + (if bit m 47 then 1 else 0)"
      using above_step [of ?p m] 1 Suc.prems by simp
    moreover have "above (push_bit 1 m) ?p \<le> 46"
      using above_le [of "push_bit 1 m" ?p] 1 Suc.prems by simp
    ultimately have "bit ?v (47 - above (push_bit 1 m) ?p) = bit v (47 - above m (n + 49 - Suc i))"
      by (auto simp: push_bit_eq_mult)
    moreover have "bit (push_bit 1 m) (n + 48 - i) = bit m (n + 48 - Suc i)"
      using 1 Suc.prems by (auto simp: push_bit_eq_mult)
    ultimately show ?thesis using IH 1 by simp
  next
    case 2
    with IH show ?thesis by (simp add: above_def push_bit_eq_mult bit_or_iff)
  next
    case 3
    with IH Suc.prems show ?thesis
      by (auto simp: push_bit_eq_mult bit_or_iff bit_1_iff)
  qed
qed

lemma bit_apx:
  "length (sel m) \<le> 48 \<Longrightarrow> n < 48 \<Longrightarrow>
   bit (apx v m) n \<longleftrightarrow> 48 \<le> n + length (sel m) \<and> bit v (sel m ! (n + length (sel m) - 48))"
  by (simp add: apx_def pack_loop_bit)

lemma bit_aux: "n < 48 \<Longrightarrow> bit (aux v m) n \<longleftrightarrow> bit m n \<and> bit v (47 - above m (Suc n))"
  by (simp add: aux_def unpack_loop_bit del: unpack_loop.simps)

subsection \<open>Bytes\<close>

lemma bit_wbyte: "j < 6 \<Longrightarrow> bit (wbyte w j) n \<longleftrightarrow> n < 8 \<and> bit w (8 * (5 - j) + n)"
  by (auto simp: wbyte_def bit_take_bit_iff bit_drop_bit_eq)

lemma bit_set_wbyte:
  "j < 6 \<Longrightarrow> n < 48 \<Longrightarrow> bit (set_wbyte w j c) n \<longleftrightarrow>
     (if 8 * (5 - j) \<le> n \<and> n < 8 * (5 - j) + 8 then bit c (n - 8 * (5 - j)) else bit w n)"
  unfolding set_wbyte_def bit_or_iff bit_and_iff bit_not_iff bit_push_bit_iff bit_mask_iff
    bit_take_bit_iff possible_bit_word
  by auto

lemma wbyte_set: "j < 6 \<Longrightarrow> wbyte (set_wbyte w j c) j = take_bit 8 c"
  by (rule bit_word_eqI) (auto simp: bit_wbyte bit_set_wbyte bit_take_bit_iff)

lemma wbyte_set_other:
  assumes "j < 6" "i < 6" "i \<noteq> j"
  shows "wbyte (set_wbyte w j c) i = wbyte w i"
proof (rule bit_word_eqI)
  fix n assume "n < LENGTH(48)"
  consider "5 - i < 5 - j" | "5 - j < 5 - i" using assms by linarith
  then show "bit (wbyte (set_wbyte w j c) i) n = bit (wbyte w i) n"
    by cases (use assms in \<open>auto simp: bit_wbyte bit_set_wbyte\<close>)
qed

lemma word_eq_bytes:
  assumes "\<And>j. j < 6 \<Longrightarrow> wbyte v j = wbyte w j"
  shows "v = w"
proof (rule bit_word_eqI)
  fix n assume n: "n < LENGTH(48)"
  have "n div 8 < 6" using n by (simp add: less_mult_imp_div_less)
  then obtain j where j: "j < 6" "8 * (5 - j) + n mod 8 = n"
    by (intro that [of "5 - n div 8"]) auto
  from assms [OF j(1)] have "bit (wbyte v j) (n mod 8) = bit (wbyte w j) (n mod 8)" by simp
  with j show "bit v n = bit w n" by (simp add: bit_wbyte)
qed

end
