(* ===== verification/Run.thy ===== *)
theory Run
  imports Prelude
begin

section \<open>Kernel code that may give up the processor\<close>

text \<open>
  A kernel routine runs on the state and ends in one of five ways: it returns a value; it
  panics; it jumps to the label \<open>u_qsav\<close> (the non-local exit of an interrupted sleep); it
  calls \<open>swtch\<close> and stays suspended, with a continuation for the state in which it is
  resumed; or it exceeds the fuel of a loop that has no bound of its own (\<open>Hang\<close>).  What the
  other processes and the interrupt handlers do in between is whatever transforms the
  state of the suspension into that of the resumption; \<open>wp\<close> below lets a theorem say what it
  relies on.
\<close>

datatype (dead 's, 'a) run =
    Ret 'a 's
  | Panic string 's
  | Jump 's
  | Swtch 's "'s \<Rightarrow> ('s, 'a) run"
  | Hang

primrec bindr :: "('s, 'a) run \<Rightarrow> ('a \<Rightarrow> 's \<Rightarrow> ('s, 'b) run) \<Rightarrow> ('s, 'b) run" where
  "bindr (Ret a s) f = f a s"
| "bindr (Panic m s) f = Panic m s"
| "bindr (Jump s) f = Jump s"
| "bindr (Swtch s k) f = Swtch s (\<lambda>s'. bindr (k s') f)"
| "bindr Hang f = Hang"

definition bind :: "('s \<Rightarrow> ('s, 'a) run) \<Rightarrow> ('a \<Rightarrow> 's \<Rightarrow> ('s, 'b) run) \<Rightarrow> 's \<Rightarrow> ('s, 'b) run" where
  "bind m f s = bindr (m s) f"

definition andthen :: "('s \<Rightarrow> ('s, 'a) run) \<Rightarrow> ('s \<Rightarrow> ('s, 'b) run) \<Rightarrow> 's \<Rightarrow> ('s, 'b) run" where
  "andthen m n s = bindr (m s) (\<lambda>_. n)"

definition ret :: "'a \<Rightarrow> 's \<Rightarrow> ('s, 'a) run" where
  "ret a s = Ret a s"

definition modify :: "('s \<Rightarrow> 's) \<Rightarrow> 's \<Rightarrow> ('s, unit) run" where
  "modify f s = Ret () (f s)"

definition gets :: "('s \<Rightarrow> 'a) \<Rightarrow> 's \<Rightarrow> ('s, 'a) run" where
  "gets f s = Ret (f s) s"

definition lift :: "('s \<Rightarrow> 'a \<times> 's) \<Rightarrow> 's \<Rightarrow> ('s, 'a) run" where
  "lift f s = Ret (fst (f s)) (snd (f s))"

definition panic :: "string \<Rightarrow> 's \<Rightarrow> ('s, 'a) run" where
  "panic m s = Panic m s"

definition guard :: "bool \<Rightarrow> ('s \<Rightarrow> ('s, unit) run) \<Rightarrow> 's \<Rightarrow> ('s, unit) run" where
  "guard b m = (if b then m else ret ())"

text \<open>A C pointer dereference or array access out of range: the model stops.\<close>

definition need :: "('s \<Rightarrow> 'a option) \<Rightarrow> 's \<Rightarrow> ('s, 'a) run" where
  "need f s = (case f s of Some a \<Rightarrow> Ret a s | None \<Rightarrow> Panic ''bad address'' s)"

text \<open>The statement forms of C: a sequence, and a conditional and a loop whose tests read the
  state; the loop has the fuel of its first argument.\<close>

primrec seq :: "('s \<Rightarrow> ('s, unit) run) list \<Rightarrow> 's \<Rightarrow> ('s, unit) run" where
  "seq [] s = Ret () s"
| "seq (m # ms) s = bindr (m s) (\<lambda>_. seq ms)"

definition ifs :: "('s \<Rightarrow> bool) \<Rightarrow> ('s \<Rightarrow> ('s, 'a) run) \<Rightarrow> ('s \<Rightarrow> ('s, 'a) run) \<Rightarrow> 's \<Rightarrow> ('s, 'a) run" where
  "ifs c m n s = (if c s then m s else n s)"

definition hang :: "'s \<Rightarrow> ('s, 'a) run" where
  "hang s = Hang"

primrec whiles :: "nat \<Rightarrow> ('s \<Rightarrow> bool) \<Rightarrow> ('s \<Rightarrow> ('s, unit) run) \<Rightarrow> 's \<Rightarrow> ('s, unit) run" where
  "whiles 0 c m s = Hang"
| "whiles (Suc n) c m s = (if c s then bindr (m s) (\<lambda>_. whiles n c m) else Ret () s)"

lemmas run_defs = bind_def andthen_def ret_def modify_def gets_def lift_def panic_def guard_def need_def
  ifs_def hang_def

lemma bindr_assoc: "bindr (bindr r f) g = bindr r (\<lambda>a s. bindr (f a s) g)"
  by (induction r) auto

lemma bindr_Ret [simp]: "bindr r Ret = r"
  by (induction r) auto

lemma bindr_seq_Nil [simp]: "bindr r (\<lambda>_. seq []) = r" for r :: "('s, unit) run"
  by (induction r) auto

subsection \<open>Partial correctness with suspension points\<close>

text \<open>
  \<open>wp R I Q r\<close>: wherever the run is suspended or jumps out the invariant \<open>I\<close> holds, and if
  each resumption is related by \<open>R\<close> to the suspension and again satisfies \<open>I\<close>, then the run
  does not panic, and when it returns, \<open>Q\<close> holds of the value and the state.
\<close>

primrec wp :: "('s \<Rightarrow> 's \<Rightarrow> bool) \<Rightarrow> ('s \<Rightarrow> bool) \<Rightarrow> ('a \<Rightarrow> 's \<Rightarrow> bool) \<Rightarrow> ('s, 'a) run \<Rightarrow> bool" where
  "wp R I Q (Ret a s) = Q a s"
| "wp R I Q (Panic m s) = False"
| "wp R I Q (Jump s) = I s"
| "wp R I Q (Swtch s k) = (I s \<and> (\<forall>s'. R s s' \<longrightarrow> I s' \<longrightarrow> wp R I Q (k s')))"
| "wp R I Q Hang = True"

lemma wp_bindr: "wp R I Q (bindr r f) = wp R I (\<lambda>a s. wp R I Q (f a s)) r"
  by (induction r) auto

lemma wp_mono: "wp R I Q r \<Longrightarrow> (\<And>a s. Q a s \<Longrightarrow> Q' a s) \<Longrightarrow> wp R I Q' r"
  by (induction r) auto

named_theorems wp_simps \<open>the rules of the weakest precondition calculus\<close>

lemma wp_ops [wp_simps]:
  "wp R I Q (bind m f s) = wp R I (\<lambda>a s. wp R I Q (f a s)) (m s)"
  "wp R I Q (andthen m n s) = wp R I (\<lambda>_ s. wp R I Q (n s)) (m s)"
  "wp R I Q (ret a s) = Q a s"
  "wp R I Q (modify g s) = Q () (g s)"
  "wp R I Q (gets h s) = Q (h s) s"
  "wp R I Q (lift p s) = Q (fst (p s)) (snd (p s))"
  "wp R I Q (panic msg s) = False"
  "wp R I Q (hang s) = True"
  "wp R I Q (ifs c m1 m2 s) = (if c s then wp R I Q (m1 s) else wp R I Q (m2 s))"
  by (simp_all add: run_defs wp_bindr)

lemma wp_seq [wp_simps]:
  "wp R I Q (seq [] s) = Q () s"
  "wp R I Q (seq (l # ls) s) = wp R I (\<lambda>_ s. wp R I Q (seq ls s)) (l s)"
  by (simp_all add: wp_bindr)

lemma wp_guard [wp_simps]: "wp R I Q (guard b m s) = (if b then wp R I Q (m s) else Q () s)"
  by (simp add: guard_def ret_def)

lemma wp_need [wp_simps]: "wp R I Q (need f s) = (case f s of Some a \<Rightarrow> Q a s | None \<Rightarrow> False)"
  by (auto simp: need_def split: option.splits)

text \<open>A loop keeps an invariant from turn to turn.\<close>

lemma wp_whiles:
  assumes "J s" and "\<And>s. J s \<Longrightarrow> c s \<Longrightarrow> wp R I (\<lambda>_. J) (m s)" and "\<And>s. J s \<Longrightarrow> \<not> c s \<Longrightarrow> Q () s"
  shows "wp R I Q (whiles n c m s)"
  using assms(1)
proof (induction n arbitrary: s)
  case (Suc n)
  show ?case
  proof (cases "c s")
    case True
    then show ?thesis using wp_mono[OF assms(2)[OF Suc.prems True]] Suc.IH by (simp add: wp_bindr)
  qed (simp add: assms(3)[OF Suc.prems])
qed simp

end
