(* ===== verification/Rmap.thy ===== *)
theory Rmap
  imports Prelude
begin

section \<open>Resource maps (kernel/malloc.c)\<close>

text \<open>
  The kernel hands out core (words) and swap space (blocks) from resource maps: an array of
  (size, address) pairs in increasing address order, ended by an entry of size 0.  A C array
  is a list of its declared length; a step that would touch a cell past the end is \<open>None\<close>,
  so that every theorem that a result is \<open>Some\<close> is also a theorem that the code stays
  inside the array.
\<close>

record mapent =
  m_size :: int
  m_addr :: int

text \<open>The inner \<open>do ... while\<close> of \<open>malloc\<close>: \<open>j\<close> is \<open>bp\<close> after its increment.\<close>

function squeeze :: "mapent list \<Rightarrow> nat \<Rightarrow> mapent list option" where
  "squeeze mp j =
     (if j \<ge> length mp then None
      else if m_size (mp ! j) \<noteq> 0 then squeeze (mp[j - 1 := mp ! j]) (Suc j)
      else Some (mp[j - 1 := mp ! j]))"
  by pat_completeness auto
termination by (relation "measure (\<lambda>(mp, j). length mp - j)") auto

declare squeeze.simps [simp del]

text \<open>The loop of \<open>malloc\<close> from entry \<open>i\<close>; the result is the address and the new map.\<close>

function malloc_from :: "mapent list \<Rightarrow> int \<Rightarrow> nat \<Rightarrow> (int \<times> mapent list) option" where
  "malloc_from mp sz i =
     (if i \<ge> length mp then None
      else if m_size (mp ! i) = 0 then Some (0, mp)
      else if m_size (mp ! i) \<ge> sz then
        (let a = m_addr (mp ! i);
             e = \<lparr>m_size = m_size (mp ! i) - sz, m_addr = m_addr (mp ! i) + sz\<rparr>;
             mp1 = mp[i := e]
         in if m_size e = 0 then map_option (\<lambda>mp2. (a, mp2)) (squeeze mp1 (Suc i))
            else Some (a, mp1))
      else malloc_from mp sz (Suc i))"
  by pat_completeness auto
termination by (relation "measure (\<lambda>(mp, sz, i). length mp - i)") auto

declare malloc_from.simps [simp del]

definition malloc :: "mapent list \<Rightarrow> int \<Rightarrow> (int \<times> mapent list) option" where
  "malloc mp sz = malloc_from mp sz 0"

text \<open>\<open>mfree\<close>: the scan for the insertion point, the loop that closes a gap up, and the loop
  that opens one.\<close>

function mfree_scan :: "mapent list \<Rightarrow> int \<Rightarrow> nat \<Rightarrow> nat option" where
  "mfree_scan mp a i =
     (if i \<ge> length mp then None
      else if m_addr (mp ! i) \<le> a \<and> m_size (mp ! i) \<noteq> 0 then mfree_scan mp a (Suc i)
      else Some i)"
  by pat_completeness auto
termination by (relation "measure (\<lambda>(mp, a, i). length mp - i)") auto

declare mfree_scan.simps [simp del]

function close_up :: "mapent list \<Rightarrow> nat \<Rightarrow> mapent list option" where
  "close_up mp j =
     (if j \<ge> length mp then None
      else if m_size (mp ! j) = 0 then Some mp
      else if Suc j \<ge> length mp then None
      else close_up (mp[j := mp ! Suc j]) (Suc j))"
  by pat_completeness auto
termination by (relation "measure (\<lambda>(mp, j). length mp - j)") auto

declare close_up.simps [simp del]

function shift_in :: "mapent list \<Rightarrow> nat \<Rightarrow> int \<Rightarrow> int \<Rightarrow> mapent list option" where
  "shift_in mp j sz a =
     (if j \<ge> length mp then None
      else let e = mp ! j; mp' = mp[j := \<lparr>m_size = sz, m_addr = a\<rparr>]
           in if m_size e \<noteq> 0 then shift_in mp' (Suc j) (m_size e) (m_addr e) else Some mp')"
  by pat_completeness auto
termination by (relation "measure (\<lambda>(mp, j, sz, a). length mp - j)") auto

declare shift_in.simps [simp del]

definition mfree_map :: "mapent list \<Rightarrow> int \<Rightarrow> int \<Rightarrow> mapent list option" where
  "mfree_map mp sz a =
     (case mfree_scan mp a 0 of
        None \<Rightarrow> None
      | Some i \<Rightarrow>
          if i > 0 \<and> m_addr (mp ! (i - 1)) + m_size (mp ! (i - 1)) = a then
            (let p = mp ! (i - 1); p1 = p\<lparr>m_size := m_size p + sz\<rparr>
             in if a + sz = m_addr (mp ! i)
                then close_up (mp[i - 1 := p1\<lparr>m_size := m_size p1 + m_size (mp ! i)\<rparr>]) i
                else Some (mp[i - 1 := p1]))
          else if a + sz = m_addr (mp ! i) \<and> m_size (mp ! i) \<noteq> 0 then
            Some (mp[i := \<lparr>m_size = m_size (mp ! i) + sz, m_addr = m_addr (mp ! i) - sz\<rparr>])
          else if sz \<noteq> 0 then shift_in mp i sz a
          else Some mp)"


subsection \<open>The list of free runs a map stands for\<close>

text \<open>
  \<open>live\<close> is the part of the array before its terminator.  \<open>chain\<close> says it is sorted,
  that no run is empty or starts at 0 (0 is the failure value of \<open>malloc\<close>), and that two
  neighbours never touch: freed space is always merged.  \<open>wf_map\<close> adds that a terminator
  exists and that every cell behind it has size 0, which \<open>shift_in\<close> relies on, since it
  overwrites the terminator and leaves the next cell to play its part.
\<close>

definition live :: "mapent list \<Rightarrow> mapent list" where
  "live mp = takeWhile (\<lambda>e. m_size e \<noteq> 0) mp"

fun chain :: "mapent list \<Rightarrow> bool" where
  "chain [] = True"
| "chain (e # es) =
     (0 < m_size e \<and> 0 < m_addr e \<and> (\<forall>f\<in>set es. m_addr e + m_size e < m_addr f) \<and> chain es)"

definition wf_map :: "mapent list \<Rightarrow> bool" where
  "wf_map mp \<longleftrightarrow> chain (live mp) \<and> length (live mp) < length mp \<and>
     (\<forall>e\<in>set (drop (length (live mp)) mp). m_size e = 0)"

definition units :: "mapent \<Rightarrow> int set" where
  "units e = {m_addr e ..< m_addr e + m_size e}"

definition space :: "mapent list \<Rightarrow> int set" where
  "space mp = (\<Union>e\<in>set (live mp). units e)"

text \<open>The abstract operations on the list of runs.\<close>

fun alloc_run :: "int \<Rightarrow> mapent list \<Rightarrow> int \<times> mapent list" where
  "alloc_run sz [] = (0, [])"
| "alloc_run sz (e # es) =
     (if sz \<le> m_size e
      then (m_addr e, if m_size e = sz then es
                      else \<lparr>m_size = m_size e - sz, m_addr = m_addr e + sz\<rparr> # es)
      else (fst (alloc_run sz es), e # snd (alloc_run sz es)))"

fun free_run :: "int \<Rightarrow> int \<Rightarrow> mapent list \<Rightarrow> mapent list" where
  "free_run sz a [] = [\<lparr>m_size = sz, m_addr = a\<rparr>]"
| "free_run sz a (e # es) =
     (if m_addr e \<le> a then
        if m_addr e + m_size e = a then
          (case es of
             [] \<Rightarrow> [e\<lparr>m_size := m_size e + sz\<rparr>]
           | f # fs \<Rightarrow> if a + sz = m_addr f then e\<lparr>m_size := m_size e + sz + m_size f\<rparr> # fs
                       else e\<lparr>m_size := m_size e + sz\<rparr> # es)
        else e # free_run sz a es
      else if a + sz = m_addr e
        then \<lparr>m_size = m_size e + sz, m_addr = m_addr e - sz\<rparr> # es
      else \<lparr>m_size = sz, m_addr = a\<rparr> # e # es)"

abbreviation nz :: "mapent list \<Rightarrow> bool" where
  "nz es \<equiv> \<forall>e\<in>set es. m_size e \<noteq> 0"

abbreviation allz :: "mapent list \<Rightarrow> bool" where
  "allz zs \<equiv> \<forall>z\<in>set zs. m_size z = 0"

lemma chain_pos: "chain es \<Longrightarrow> e \<in> set es \<Longrightarrow> 0 < m_size e \<and> 0 < m_addr e"
  by (induction es) auto

lemma chain_nz: "chain es \<Longrightarrow> nz es"
  using chain_pos by fastforce

lemma chain_append:
  "chain (es @ fs) \<longleftrightarrow> chain es \<and> chain fs \<and>
     (\<forall>e\<in>set es. \<forall>f\<in>set fs. m_addr e + m_size e < m_addr f)"
  by (induction es) auto

lemma live_append: "nz es \<Longrightarrow> allz zs \<Longrightarrow> live (es @ zs) = es"
  unfolding live_def by (induction es) (auto simp: takeWhile_eq_Nil_iff intro: ccontr)

lemma wf_map_iff:
  "wf_map mp \<longleftrightarrow> (\<exists>es z zs. mp = es @ z # zs \<and> chain es \<and> m_size z = 0 \<and> allz zs)"
proof
  assume w: "wf_map mp"
  have m: "mp = live mp @ drop (length (live mp)) mp"
    unfolding live_def by (metis takeWhile_eq_take append_take_drop_id)
  from w obtain z zs where "drop (length (live mp)) mp = z # zs"
    by (cases "drop (length (live mp)) mp") (auto simp: wf_map_def)
  with w m show "\<exists>es z zs. mp = es @ z # zs \<and> chain es \<and> m_size z = 0 \<and> allz zs"
    by (metis wf_map_def list.set_intros)
next
  assume "\<exists>es z zs. mp = es @ z # zs \<and> chain es \<and> m_size z = 0 \<and> allz zs"
  then show "wf_map mp"
    by (auto simp: wf_map_def live_append chain_nz)
qed

subsection \<open>The array loops compute the abstract operations\<close>

lemma squeeze_list:
  "nz es \<Longrightarrow> m_size z = 0 \<Longrightarrow>
   squeeze (us @ x # es @ z # zs) (Suc (length us)) = Some (us @ es @ z # z # zs)"
proof (induction es arbitrary: us x)
  case Nil
  then show ?case by (subst squeeze.simps) (simp add: nth_append)
next
  case (Cons e es)
  have "squeeze ((us @ [e]) @ e # es @ z # zs) (Suc (length (us @ [e])))
      = Some ((us @ [e]) @ es @ z # z # zs)"
    by (rule Cons.IH) (use Cons.prems in auto)
  with Cons.prems show ?case
    by (subst squeeze.simps) (simp add: nth_append)
qed

lemma malloc_from_list:
  "nz es \<Longrightarrow> m_size z = 0 \<Longrightarrow>
   malloc_from (us @ es @ z # zs) sz (length us) =
     Some (fst (alloc_run sz es),
           us @ snd (alloc_run sz es) @
             (if length (snd (alloc_run sz es)) = length es then z # zs else z # z # zs))"
proof (induction es arbitrary: us)
  case Nil
  then show ?case by (subst malloc_from.simps) simp
next
  case (Cons e es)
  show ?case
  proof (cases "sz \<le> m_size e")
    case True
    with Cons.prems show ?thesis
      using squeeze_list [of es z us "\<lparr>m_size = 0, m_addr = m_addr e + sz\<rparr>" zs]
      by (subst malloc_from.simps) (auto simp: Let_def)
  next
    case False
    have "malloc_from ((us @ [e]) @ es @ z # zs) sz (length (us @ [e])) =
      Some (fst (alloc_run sz es), (us @ [e]) @ snd (alloc_run sz es) @
        (if length (snd (alloc_run sz es)) = length es then z # zs else z # z # zs))"
      by (rule Cons.IH) (use Cons.prems in auto)
    with False Cons.prems show ?thesis
      by (subst malloc_from.simps) simp
  qed
qed

lemma mfree_scan_list:
  "nz es \<Longrightarrow> m_size z = 0 \<Longrightarrow>
   mfree_scan (us @ es @ z # zs) a (length us) =
     Some (length us + length (takeWhile (\<lambda>e. m_addr e \<le> a) es))"
proof (induction es arbitrary: us)
  case Nil
  then show ?case by (subst mfree_scan.simps) simp
next
  case (Cons e es)
  have "mfree_scan ((us @ [e]) @ es @ z # zs) a (length (us @ [e])) =
     Some (length (us @ [e]) + length (takeWhile (\<lambda>e. m_addr e \<le> a) es))"
    by (rule Cons.IH) (use Cons.prems in auto)
  with Cons.prems show ?case by (subst mfree_scan.simps) simp
qed

lemma close_up_list:
  "nz es \<Longrightarrow> m_size z = 0 \<Longrightarrow>
   close_up (us @ e # es @ z # zs) (length us) =
     Some (if m_size e = 0 then us @ e # es @ z # zs else us @ es @ z # z # zs)"
proof (induction es arbitrary: us e)
  case Nil
  then show ?case
    by (subst close_up.simps, subst close_up.simps) (simp add: nth_append)
next
  case (Cons f es)
  have "close_up ((us @ [f]) @ f # es @ z # zs) (length (us @ [f])) =
     Some (if m_size f = 0 then (us @ [f]) @ f # es @ z # zs else (us @ [f]) @ es @ z # z # zs)"
    by (rule Cons.IH) (use Cons.prems in auto)
  with Cons.prems show ?case
    by (subst close_up.simps) (simp add: nth_append)
qed

lemma shift_in_list:
  "nz es \<Longrightarrow> m_size z = 0 \<Longrightarrow>
   shift_in (us @ es @ z # zs) (length us) sz a =
     Some (us @ \<lparr>m_size = sz, m_addr = a\<rparr> # es @ zs)"
proof (induction es arbitrary: us sz a)
  case Nil
  then show ?case by (subst shift_in.simps) simp
next
  case (Cons e es)
  have "shift_in ((us @ [\<lparr>m_size = sz, m_addr = a\<rparr>]) @ es @ z # zs)
          (length (us @ [\<lparr>m_size = sz, m_addr = a\<rparr>])) (m_size e) (m_addr e) =
     Some ((us @ [\<lparr>m_size = sz, m_addr = a\<rparr>]) @ \<lparr>m_size = m_size e, m_addr = m_addr e\<rparr> # es @ zs)"
    by (rule Cons.IH) (use Cons.prems in auto)
  with Cons.prems show ?case
    by (subst shift_in.simps) (simp add: Let_def)
qed


lemma free_run_skip:
  "\<forall>e\<in>set us. m_addr e \<le> a \<and> m_addr e + m_size e \<noteq> a \<Longrightarrow>
   free_run sz a (us @ es) = us @ free_run sz a es"
  by (induction us) auto

lemma mfree_map_list:
  assumes c: "chain es" and z: "m_size z = 0" "allz zs" and sz: "0 < sz"
  shows "\<exists>ws. mfree_map (es @ z # zs) sz a = Some (free_run sz a es @ ws) \<and> allz ws \<and>
           length (free_run sz a es @ ws) = length (es @ z # zs)"
proof -
  obtain ps qs where es: "es = ps @ qs" and tw: "takeWhile (\<lambda>e. m_addr e \<le> a) es = ps"
    and qsa: "qs \<noteq> [] \<Longrightarrow> \<not> m_addr (hd qs) \<le> a"
    by (metis takeWhile_dropWhile_id hd_dropWhile)
  have nzq: "nz ps" "nz qs" using chain_nz [OF c] es by auto
  have scan: "mfree_scan (ps @ qs @ z # zs) a 0 = Some (length ps)"
    using mfree_scan_list [OF chain_nz [OF c] z(1), of "[]" zs a] tw by (simp add: es)
  have psa: "\<forall>e\<in>set ps. m_addr e \<le> a" unfolding tw [symmetric] by (auto dest: set_takeWhileD)
  show ?thesis
  proof (cases ps rule: rev_cases)
    case Nil
    show ?thesis
    proof (cases qs)
      case Nil
      then show ?thesis
        using scan \<open>ps = []\<close> es z sz shift_in_list [of "[]" z "[]" zs sz a]
        by (auto simp: mfree_map_def)
    next
      case (Cons q qs')
      then show ?thesis
        using scan \<open>ps = []\<close> es z sz qsa nzq shift_in_list [of qs z "[]" zs sz a]
        by (auto simp: mfree_map_def intro: exI [of _ "z # zs"])
    qed
  next
    case (snoc us p)
    have skip: "free_run sz a (us @ p # qs) = us @ free_run sz a (p # qs)"
      using c es snoc psa by (intro free_run_skip) (fastforce simp: chain_append)
    have scan': "mfree_scan (us @ p # qs @ z # zs) a 0 = Some (Suc (length us))"
      using scan snoc by simp
    have pa: "m_addr p \<le> a" using psa snoc by simp
    show ?thesis
    proof (cases "m_addr p + m_size p = a")
      case True
      define p1 where "p1 = p\<lparr>m_size := m_size p + sz\<rparr>"
      show ?thesis
      proof (cases qs)
        case Nil
        have "close_up (us @ p1\<lparr>m_size := m_size p1 + m_size z\<rparr> # z # zs) (Suc (length us))
           = Some (us @ p1 # z # zs)"
          using close_up_list [of "[]" z "us @ [p1]"  z zs] z
          by (subst close_up.simps) (simp add: nth_append p1_def)
        then show ?thesis
          using scan' True Nil es snoc z pa skip
          by (auto simp: mfree_map_def Let_def nth_append p1_def intro: exI [of _ "z # zs"])
      next
        case (Cons q qs')
        have "close_up (us @ p1\<lparr>m_size := m_size p1 + m_size q\<rparr> # q # qs' @ z # zs) (Suc (length us))
           = Some (us @ p1\<lparr>m_size := m_size p1 + m_size q\<rparr> # qs' @ z # z # zs)"
          using close_up_list [of qs' z "us @ [p1\<lparr>m_size := m_size p1 + m_size q\<rparr>]" q zs] z nzq Cons
          by simp
        then show ?thesis
          using scan' True Cons es snoc z pa skip
          by (auto simp: mfree_map_def Let_def nth_append p1_def
              intro: exI [of _ "z # zs"] exI [of _ "z # z # zs"])
      qed
    next
      case False
      show ?thesis
      proof (cases qs)
        case Nil
        then show ?thesis
          using scan' False es snoc z sz pa skip shift_in_list [of "[]" z "us @ [p]" zs sz a]
          by (auto simp: mfree_map_def Let_def nth_append)
      next
        case (Cons q qs')
        then show ?thesis
          using scan' False es snoc z sz pa skip nzq qsa shift_in_list [of qs z "us @ [p]" zs sz a]
          by (auto simp: mfree_map_def Let_def nth_append list_update_append intro: exI [of _ "z # zs"])
      qed
    qed
  qed
qed


subsection \<open>The space a list of runs stands for\<close>

abbreviation runs_space :: "mapent list \<Rightarrow> int set" where
  "runs_space es \<equiv> (\<Union>e\<in>set es. units e)"

lemma alloc_run_chain:
  assumes "chain es" "0 < sz"
  shows "chain (snd (alloc_run sz es)) \<and>
     (\<forall>f\<in>set (snd (alloc_run sz es)). \<exists>e\<in>set es. m_addr e \<le> m_addr f)"
  using assms
proof (induction es)
  case (Cons e es)
  then show ?case by (auto; fastforce)
qed simp

lemma alloc_run_space:
  assumes "chain es" "0 < sz" "fst (alloc_run sz es) \<noteq> 0"
  shows "{fst (alloc_run sz es) ..< fst (alloc_run sz es) + sz} \<subseteq> runs_space es \<and>
     runs_space (snd (alloc_run sz es))
       = runs_space es - {fst (alloc_run sz es) ..< fst (alloc_run sz es) + sz}"
  using assms
proof (induction es)
  case (Cons e es)
  have later: "\<And>x. x \<in> runs_space es \<Longrightarrow> m_addr e + m_size e < x"
    using Cons.prems(1) by (fastforce simp: units_def)
  show ?case
  proof (cases "sz \<le> m_size e")
    case True
    with Cons.prems later show ?thesis
      by (auto simp: units_def; fastforce)
  next
    case False
    let ?a = "fst (alloc_run sz es)"
    have ih: "{?a ..< ?a + sz} \<subseteq> runs_space es"
      "runs_space (snd (alloc_run sz es)) = runs_space es - {?a ..< ?a + sz}"
      using Cons False by auto
    have "units e \<inter> {?a ..< ?a + sz} = {}"
      using ih(1) later by (fastforce simp: units_def)
    with False ih show ?thesis by auto
  qed
qed simp

lemma interval_in_one_run:
  assumes "chain es" "0 < sz" "{b ..< b + sz} \<subseteq> runs_space es"
  shows "\<exists>e\<in>set es. m_addr e \<le> b \<and> b + sz \<le> m_addr e + m_size e"
  using assms
proof (induction es)
  case (Cons e es)
  have later: "\<And>x. x \<in> runs_space es \<Longrightarrow> m_addr e + m_size e < x"
    using Cons.prems(1) by (fastforce simp: units_def)
  show ?case
  proof (cases "b \<in> units e")
    case True
    have "b + sz \<le> m_addr e + m_size e"
    proof (rule ccontr)
      assume n: "\<not> b + sz \<le> m_addr e + m_size e"
      with True have "m_addr e + m_size e \<in> {b ..< b + sz}" by (auto simp: units_def)
      then have "m_addr e + m_size e \<in> runs_space (e # es)" using Cons.prems(3) by blast
      then have "m_addr e + m_size e \<in> runs_space es" by (simp add: units_def)
      with later show False by blast
    qed
    with True show ?thesis by (auto simp: units_def)
  next
    case False
    have bin: "b \<in> runs_space es" using False Cons.prems(2,3) by fastforce
    have "{b ..< b + sz} \<subseteq> runs_space es"
    proof
      fix x assume x: "x \<in> {b ..< b + sz}"
      then have "x \<notin> units e" using later [OF bin] by (auto simp: units_def)
      then show "x \<in> runs_space es" using x Cons.prems(3) by auto
    qed
    with Cons show ?thesis by auto
  qed
qed simp

lemma alloc_run_first:
  assumes "chain es" "0 < sz" "f \<in> set es" "sz \<le> m_size f"
  shows "fst (alloc_run sz es) \<noteq> 0 \<and> fst (alloc_run sz es) \<le> m_addr f"
  using assms
proof (induction es)
  case (Cons e es)
  have "f \<in> set es \<Longrightarrow> m_addr e < m_addr f" using Cons.prems(1) by fastforce
  with Cons show ?case by (cases "sz \<le> m_size e") auto
qed simp

lemma alloc_run_fail:
  "chain es \<Longrightarrow> 0 < sz \<Longrightarrow> fst (alloc_run sz es) = 0 \<Longrightarrow>
   snd (alloc_run sz es) = es \<and> (\<forall>e\<in>set es. m_size e < sz)"
  by (induction es) (auto split: if_splits)

lemma alloc_run_length: "length (snd (alloc_run sz es)) \<le> length es"
  by (induction es) auto

lemma free_run_chain:
  assumes "chain es" "0 < sz" "0 < a" "{a ..< a + sz} \<inter> runs_space es = {}"
  shows "chain (free_run sz a es) \<and>
     (\<forall>f\<in>set (free_run sz a es). a \<le> m_addr f \<or> (\<exists>e\<in>set es. m_addr e \<le> m_addr f)) \<and>
     runs_space (free_run sz a es) = runs_space es \<union> {a ..< a + sz}"
  using assms
proof (induction es)
  case Nil
  then show ?case by (simp add: units_def)
next
  case (Cons e es)
  have ih: "chain (free_run sz a es)"
     "\<forall>f\<in>set (free_run sz a es). a \<le> m_addr f \<or> (\<exists>e\<in>set es. m_addr e \<le> m_addr f)"
     "runs_space (free_run sz a es) = runs_space es \<union> {a ..< a + sz}"
    using Cons by auto
  have e: "0 < m_size e" "0 < m_addr e" "\<forall>f\<in>set es. m_addr e + m_size e < m_addr f" "chain es"
    using Cons.prems(1) by auto
  have disj: "m_addr e + m_size e \<le> a \<or> a + sz \<le> m_addr e"
  proof (rule ccontr)
    assume "\<not> ?thesis"
    then have "max a (m_addr e) \<in> {a ..< a + sz}" "max a (m_addr e) \<in> units e"
      using e(1) Cons.prems(2) by (auto simp: units_def max_def)
    then show False using Cons.prems(4) by (simp only: list.set UN_insert) blast
  qed
  have disjf: "m_addr f + m_size f \<le> a \<or> a + sz \<le> m_addr f" if f: "f \<in> set es" for f
  proof (rule ccontr)
    assume "\<not> ?thesis"
    moreover have "0 < m_size f" using chain_pos [OF e(4) f] by simp
    ultimately have "max a (m_addr f) \<in> {a ..< a + sz}" "max a (m_addr f) \<in> units f"
      using Cons.prems(2) by (auto simp: units_def max_def)
    then show False using Cons.prems(4) f by (simp only: list.set UN_insert) blast
  qed
  consider (glue) "m_addr e + m_size e = a" | (after) "m_addr e + m_size e < a"
    | (before) "a + sz \<le> m_addr e" using disj by linarith
  then show ?case
  proof cases
    case glue
    then have ge: "m_addr e \<le> a" using e by linarith
    show ?thesis
    proof (cases es)
      case Nil
      then show ?thesis using glue ge e Cons.prems by (auto simp: units_def)
    next
      case (Cons f fs)
      have f: "m_addr e + m_size e < m_addr f" "0 < m_size f" "chain fs"
        "\<forall>g\<in>set fs. m_addr f + m_size f < m_addr g"
        using e Cons by auto
      have fa: "a + sz \<le> m_addr f" using disjf [of f] Cons f glue by auto
      have later: "\<forall>g\<in>set fs. a + sz < m_addr g" using f fa by fastforce
      show ?thesis
      proof (cases "a + sz = m_addr f")
        case True
        then show ?thesis using Cons glue ge e f later Cons.prems by (auto simp: units_def)
      next
        case False
        then show ?thesis using Cons glue ge e f fa later Cons.prems by (auto simp: units_def)
      qed
    qed
  next
    case after
    then have "free_run sz a (e # es) = e # free_run sz a es" using e by auto
    moreover have "\<forall>f\<in>set (free_run sz a es). m_addr e + m_size e < m_addr f"
      using ih(2) after e(3) by fastforce
    ultimately show ?thesis using ih e by auto
  next
    case before
    show ?thesis using before e Cons.prems by (auto simp: units_def; fastforce)
  qed
qed


lemma first_run:
  assumes "chain (e # es)" "chain (f # fs)" "runs_space (e # es) \<subseteq> runs_space (f # fs)"
  shows "m_addr f \<le> m_addr e \<and> (m_addr e < m_addr f + m_size f \<longrightarrow> m_addr e + m_size e \<le> m_addr f + m_size f)"
proof -
  have lf: "\<And>x. x \<in> runs_space fs \<Longrightarrow> m_addr f + m_size f < x"
    using assms(2) by (fastforce simp: units_def)
  have "m_addr e \<in> runs_space (e # es)" using assms(1) by (simp add: units_def)
  then have "m_addr e \<in> runs_space (f # fs)" using assms(3) by blast
  then have 1: "m_addr f \<le> m_addr e"
    using lf [of "m_addr e"] assms(2) by (auto simp: units_def)
  have "m_addr e + m_size e \<le> m_addr f + m_size f" if "m_addr e < m_addr f + m_size f"
  proof (rule ccontr)
    assume "\<not> ?thesis"
    with that have "m_addr f + m_size f \<in> runs_space (e # es)" by (simp add: units_def)
    then have "m_addr f + m_size f \<in> runs_space (f # fs)" using assms(3) by blast
    then show False using lf [of "m_addr f + m_size f"] by (auto simp: units_def)
  qed
  with 1 show ?thesis by blast
qed

lemma chain_unique:
  "chain es \<Longrightarrow> chain fs \<Longrightarrow> runs_space es = runs_space fs \<Longrightarrow> es = fs"
proof (induction es arbitrary: fs)
  case Nil
  then show ?case by (cases fs) (auto simp: units_def)
next
  case (Cons e es)
  then obtain f fs' where fs: "fs = f # fs'" by (cases fs) (auto simp: units_def)
  have pos: "0 < m_size e" "0 < m_size f" using Cons.prems fs by auto
  have "m_addr e = m_addr f \<and> m_size e = m_size f"
    using first_run [of e es f fs'] first_run [of f fs' e es] Cons.prems(1-3) fs pos
    by (metis add_le_cancel_left add_less_cancel_left less_add_same_cancel1 order_antisym order_refl)
  then have ef: "e = f" by simp
  have "units e \<inter> runs_space es = {}" "units f \<inter> runs_space fs' = {}"
    using Cons.prems(1,2) fs by (fastforce simp: units_def)+
  moreover have "units e \<union> runs_space es = units f \<union> runs_space fs'"
    using Cons.prems(3) fs by simp
  ultimately have "runs_space es = runs_space fs'" using ef by blast
  then have "es = fs'" using Cons fs by auto
  with ef fs show ?case by simp
qed

subsection \<open>What the two operations promise\<close>

lemma malloc_list:
  assumes "chain es" "m_size z = 0" "allz zs"
  shows "\<exists>ws. malloc (es @ z # zs) sz = Some (fst (alloc_run sz es), snd (alloc_run sz es) @ ws)
           \<and> allz ws \<and> ws \<noteq> [] \<and> (fst (alloc_run sz es) = 0 \<and> 0 < sz \<longrightarrow> ws = z # zs)
           \<and> length (snd (alloc_run sz es) @ ws) = length (es @ z # zs)"
proof -
  let ?r = "snd (alloc_run sz es)"
  have len: "length ?r = length es \<or> Suc (length ?r) = length es"
    by (induction es) auto
  show ?thesis
    using malloc_from_list [OF chain_nz [OF assms(1)] assms(2), of "[]" zs sz] assms len
      alloc_run_fail [OF assms(1), of sz]
    by (auto simp: malloc_def)
qed

lemma live_wf: "chain es \<Longrightarrow> allz zs \<Longrightarrow> zs \<noteq> [] \<Longrightarrow> wf_map (es @ zs) \<and> live (es @ zs) = es"
  by (cases zs) (auto simp: wf_map_iff live_append chain_nz)

lemma wf_map_cases:
  assumes "wf_map mp"
  obtains es z zs where "mp = es @ z # zs" "chain es" "m_size z = 0" "allz zs" "live mp = es"
  using assms unfolding wf_map_iff by (metis chain_nz live_append set_ConsD)

lemma malloc_ok:
  assumes w: "wf_map mp" and sz: "0 < sz"
  shows "\<exists>a mp'. malloc mp sz = Some (a, mp') \<and> wf_map mp' \<and> length mp' = length mp \<and>
    length (live mp') \<le> length (live mp) \<and>
    (if a = 0 then mp' = mp \<and> (\<forall>b. \<not> {b ..< b + sz} \<subseteq> space mp)
     else {a ..< a + sz} \<subseteq> space mp \<and> space mp' = space mp - {a ..< a + sz} \<and>
          (\<forall>b. {b ..< b + sz} \<subseteq> space mp \<longrightarrow> a \<le> b))"
proof -
  obtain es z zs where mp: "mp = es @ z # zs" and c: "chain es" and z: "m_size z = 0" "allz zs"
    and lv: "live mp = es" using w by (rule wf_map_cases)
  let ?a = "fst (alloc_run sz es)" and ?r = "snd (alloc_run sz es)"
  obtain ws where m: "malloc mp sz = Some (?a, ?r @ ws)" and ws: "allz ws" "ws \<noteq> []"
      "?a = 0 \<longrightarrow> ws = z # zs" "length (?r @ ws) = length mp"
    using malloc_list [OF c z, of sz] mp sz by auto
  have r: "wf_map (?r @ ws)" "live (?r @ ws) = ?r"
    using live_wf [OF _ ws(1,2)] alloc_run_chain [OF c sz] by auto
  have fits: "?a \<noteq> 0 \<and> ?a \<le> b" if b: "{b ..< b + sz} \<subseteq> space mp" for b
  proof -
    obtain e where "e \<in> set es" "m_addr e \<le> b" "b + sz \<le> m_addr e + m_size e"
      using interval_in_one_run [OF c sz, of b] b lv by (auto simp: space_def)
    then show ?thesis using alloc_run_first [OF c sz, of e] by force
  qed
  have "if ?a = 0 then ?r @ ws = mp \<and> (\<forall>b. \<not> {b ..< b + sz} \<subseteq> space mp)
     else {?a ..< ?a + sz} \<subseteq> space mp \<and> space (?r @ ws) = space mp - {?a ..< ?a + sz} \<and>
          (\<forall>b. {b ..< b + sz} \<subseteq> space mp \<longrightarrow> ?a \<le> b)"
    using alloc_run_fail [OF c sz] alloc_run_space [OF c sz] fits ws mp r lv
    by (auto simp: space_def)
  then show ?thesis
    using m r ws(4) alloc_run_length [of sz es] lv by auto
qed

lemma mfree_ok:
  assumes w: "wf_map mp" and sz: "0 < sz" "0 < a"
    and disj: "{a ..< a + sz} \<inter> space mp = {}"
    and room: "length (free_run sz a (live mp)) < length mp"
  shows "\<exists>mp'. mfree_map mp sz a = Some mp' \<and> wf_map mp' \<and> length mp' = length mp \<and>
    live mp' = free_run sz a (live mp) \<and> space mp' = space mp \<union> {a ..< a + sz}"
proof -
  obtain es z zs where mp: "mp = es @ z # zs" and c: "chain es" and z: "m_size z = 0" "allz zs"
    and lv: "live mp = es" using w by (rule wf_map_cases)
  obtain ws where m: "mfree_map mp sz a = Some (free_run sz a es @ ws)" "allz ws"
      "length (free_run sz a es @ ws) = length mp"
    using mfree_map_list [OF c z sz(1), of a] mp by auto
  have ws: "ws \<noteq> []" using m(3) room lv by auto
  have fr: "chain (free_run sz a es)"
      "runs_space (free_run sz a es) = runs_space es \<union> {a ..< a + sz}"
    using free_run_chain [OF c sz] disj lv by (auto simp: space_def)
  show ?thesis using m live_wf [OF fr(1) m(2) ws] fr(2) lv by (auto simp: space_def)
qed

lemma free_run_length: "length (free_run sz a es) \<le> Suc (length es)"
  by (induction es) (auto split: list.splits)

lemma undo_ok:
  assumes w: "wf_map mp" and sz: "0 < sz" and m: "malloc mp sz = Some (a, mp')" and a: "a \<noteq> 0"
  shows "\<exists>mp''. mfree_map mp' sz a = Some mp'' \<and> wf_map mp'' \<and> length mp'' = length mp \<and>
           live mp'' = live mp \<and> space mp'' = space mp"
proof -
  have ok: "wf_map mp'" "length mp' = length mp" "{a ..< a + sz} \<subseteq> space mp"
    "space mp' = space mp - {a ..< a + sz}"
    using malloc_ok [OF w sz] m a by auto
  have c: "chain (live mp)" "chain (live mp')" using w ok(1) by (auto simp: wf_map_def)
  have pos: "0 < a"
    using ok(3) sz chain_pos [OF c(1)] by (fastforce simp: space_def units_def)
  have disj: "{a ..< a + sz} \<inter> runs_space (live mp') = {}" using ok(4) by (auto simp: space_def)
  have fr: "chain (free_run sz a (live mp'))"
     "runs_space (free_run sz a (live mp')) = runs_space (live mp)"
    using free_run_chain [OF c(2) sz pos disj] ok(3,4) by (auto simp: space_def)
  then have same: "free_run sz a (live mp') = live mp"
    using chain_unique [OF fr(1) c(1)] by simp
  moreover have "length (live mp) < length mp'" using w ok(2) by (simp add: wf_map_def)
  ultimately obtain mp'' where r: "mfree_map mp' sz a = Some mp''" "wf_map mp''"
      "length mp'' = length mp'" "live mp'' = live mp"
    using mfree_ok [OF ok(1) sz pos] disj by (auto simp: space_def)
  then show ?thesis using ok(2) by (auto simp: space_def)
qed


text \<open>
  The contract the rest of the kernel relies on.  \<open>free m\<close> is the set of units the map may
  still hand out.
\<close>

locale resource_map =
  fixes alloc :: "'m \<Rightarrow> int \<Rightarrow> (int \<times> 'm) option"
    and dealloc :: "'m \<Rightarrow> int \<Rightarrow> int \<Rightarrow> 'm option"
    and inv :: "'m \<Rightarrow> bool"
    and free :: "'m \<Rightarrow> int set"
  assumes alloc_returns: "inv m \<Longrightarrow> 0 < n \<Longrightarrow> \<exists>a m'. alloc m n = Some (a, m')"
    and alloc_inv: "inv m \<Longrightarrow> 0 < n \<Longrightarrow> alloc m n = Some (a, m') \<Longrightarrow> inv m'"
    and alloc_takes: "inv m \<Longrightarrow> 0 < n \<Longrightarrow> alloc m n = Some (a, m') \<Longrightarrow> a \<noteq> 0 \<Longrightarrow>
          {a ..< a + n} \<subseteq> free m \<and> free m' = free m - {a ..< a + n}"
    and alloc_fails: "inv m \<Longrightarrow> 0 < n \<Longrightarrow> alloc m n = Some (0, m') \<Longrightarrow> m' = m"
    and undo: "inv m \<Longrightarrow> 0 < n \<Longrightarrow> alloc m n = Some (a, m') \<Longrightarrow> a \<noteq> 0 \<Longrightarrow>
          \<exists>m''. dealloc m' n a = Some m'' \<and> inv m'' \<and> free m'' = free m"
begin

text \<open>Two grants in a row never overlap: what \<open>swapin\<close> needs when it allocates the image of
  a process and then its text.\<close>

lemma grants_disjoint:
  assumes "inv m" "0 < n" "0 < k" "alloc m n = Some (a, m')" "a \<noteq> 0"
    "alloc m' k = Some (b, m'')" "b \<noteq> 0"
  shows "{a ..< a + n} \<inter> {b ..< b + k} = {}"
  using alloc_takes [OF assms(1,2,4,5)] alloc_takes [OF alloc_inv [OF assms(1,2,4)] assms(3,6,7)]
  by blast

text \<open>Failing to get the second of two grants and returning the first restores the map.\<close>

lemma back_out:
  assumes "inv m" "0 < n" "0 < k" "alloc m n = Some (a, m')" "a \<noteq> 0"
    "alloc m' k = Some (0, m'')"
  shows "\<exists>m3. dealloc m'' n a = Some m3 \<and> inv m3 \<and> free m3 = free m"
  using undo [OF assms(1,2,4,5)] alloc_fails [OF alloc_inv [OF assms(1,2,4)] assms(3,6)] by simp

end

interpretation rm: resource_map malloc mfree_map wf_map space
proof
  fix m :: "mapent list" and n :: int assume "wf_map m" "0 < n"
  then show "\<exists>a m'. malloc m n = Some (a, m')" using malloc_ok by blast
next
  fix m m' :: "mapent list" and n a :: int assume "wf_map m" "0 < n" "malloc m n = Some (a, m')"
  then show "wf_map m'" using malloc_ok [of m n] by simp
next
  fix m m' :: "mapent list" and n a :: int assume "wf_map m" "0 < n" "malloc m n = Some (a, m')" "a \<noteq> 0"
  then show "{a ..< a + n} \<subseteq> space m \<and> space m' = space m - {a ..< a + n}"
    using malloc_ok [of m n] by simp
next
  fix m m' :: "mapent list" and n :: int assume "wf_map m" "0 < n" "malloc m n = Some (0, m')"
  then show "m' = m" using malloc_ok [of m n] by simp
next
  fix m m' :: "mapent list" and n a :: int assume "wf_map m" "0 < n" "malloc m n = Some (a, m')" "a \<noteq> 0"
  then show "\<exists>m''. mfree_map m' n a = Some m'' \<and> wf_map m'' \<and> space m'' = space m"
    using undo_ok by blast
qed

subsection \<open>Properties\<close>

text \<open>C9: on a well-formed map, \<open>malloc\<close> never runs off the array and keeps the map
  well-formed.  If it returns 0 the map is unchanged and no run of the requested size exists
  anywhere in the free space; otherwise the range it returns was free, exactly that range
  leaves the free space, and no lower address would have fitted (first fit).\<close>

theorem malloc_correct:
  assumes "wf_map mp" and "0 < sz"
  shows "\<exists>a mp'. malloc mp sz = Some (a, mp') \<and> wf_map mp' \<and> length mp' = length mp \<and>
    (if a = 0 then mp' = mp \<and> (\<forall>b. \<not> {b ..< b + sz} \<subseteq> space mp)
     else {a ..< a + sz} \<subseteq> space mp \<and> space mp' = space mp - {a ..< a + sz} \<and>
          (\<forall>b. {b ..< b + sz} \<subseteq> space mp \<longrightarrow> a \<le> b))"
  using malloc_ok [OF assms] by blast

definition demo_map :: "mapent list" where
  "demo_map = [\<lparr>m_size = 2, m_addr = 10\<rparr>, \<lparr>m_size = 8, m_addr = 20\<rparr>,
     \<lparr>m_size = 0, m_addr = 0\<rparr>, \<lparr>m_size = 0, m_addr = 0\<rparr>]"

lemma demo_wf: "wf_map demo_map"
  by (simp add: demo_map_def wf_map_def live_def)

lemma demo_space: "space demo_map = {10 ..< 12} \<union> {20 ..< 28}"
  by (simp add: demo_map_def space_def live_def units_def)

lemma demo_malloc: "malloc demo_map 8 =
  Some (20, [\<lparr>m_size = 2, m_addr = 10\<rparr>, \<lparr>m_size = 0, m_addr = 0\<rparr>,
     \<lparr>m_size = 0, m_addr = 0\<rparr>, \<lparr>m_size = 0, m_addr = 0\<rparr>])"
  by (simp add: demo_map_def malloc_def malloc_from.simps squeeze.simps)

theorem malloc_correct_witness:
  "wf_map demo_map \<and> (\<exists>mp'. malloc demo_map 8 = Some (20, mp') \<and> wf_map mp' \<and>
     space mp' = space demo_map - {20 ..< 28})"
  using malloc_correct [OF demo_wf, of 8] demo_wf by (auto simp: demo_malloc)

text \<open>C10: giving back a range that is not free and for which the array still has room never
  runs off the array, keeps the map well-formed (sorted, fully merged) and adds exactly that
  range to the free space.\<close>

theorem mfree_correct:
  assumes "wf_map mp" and "0 < sz" and "0 < a"
    and "{a ..< a + sz} \<inter> space mp = {}" and "Suc (length (live mp)) < length mp"
  shows "\<exists>mp'. mfree_map mp sz a = Some mp' \<and> wf_map mp' \<and> length mp' = length mp \<and>
    space mp' = space mp \<union> {a ..< a + sz}"
  using mfree_ok [OF assms(1-4)] free_run_length [of sz a "live mp"] assms(5) by fastforce

theorem mfree_correct_witness:
  "\<exists>mp'. mfree_map demo_map 8 12 = Some mp' \<and> wf_map mp' \<and>
     space mp' = space demo_map \<union> {12 ..< 20}"
proof -
  have "{12 ..< 12 + 8} \<inter> space demo_map = {}" by (auto simp: demo_space)
  moreover have "Suc (length (live demo_map)) < length demo_map"
    by (simp add: demo_map_def live_def)
  ultimately show ?thesis using mfree_correct [OF demo_wf, of 8 12] by auto
qed

text \<open>C14: freeing a range just allocated restores the very same list of free runs, whatever
  the state of the map (even with no cell to spare in the array).\<close>

theorem mfree_undoes_malloc:
  assumes "wf_map mp" and "0 < sz" and "malloc mp sz = Some (a, mp')" and "a \<noteq> 0"
  shows "\<exists>mp''. mfree_map mp' sz a = Some mp'' \<and> wf_map mp'' \<and> live mp'' = live mp"
  using undo_ok [OF assms] by blast

theorem mfree_undoes_malloc_witness:
  "\<exists>a mp' mp''. malloc demo_map 8 = Some (a, mp') \<and> mfree_map mp' 8 a = Some mp'' \<and>
     live mp'' = live demo_map"
  using mfree_undoes_malloc [OF demo_wf _ demo_malloc] demo_malloc by auto

text \<open>C15: the array has no overflow check.  When every cell but the terminator is in use and
  the freed range touches no neighbour, \<open>mfree\<close> returns, within the array, having overwritten the terminator
  with the last run.  The array has no terminator left, and it is the next operations that run past its
  end: a \<open>malloc\<close> that no run satisfies, and an \<open>mfree\<close> at or above the last run.\<close>

theorem mfree_overflow:
  assumes "wf_map mp" and "0 < sz" and "Suc (length (live mp)) = length mp"
    and "length (free_run sz a (live mp)) = length mp"
    and "\<forall>e\<in>set (free_run sz a (live mp)). m_size e < big \<and> m_size e \<noteq> 0"
  shows "\<exists>mp'. mfree_map mp sz a = Some mp' \<and> length mp' = length mp \<and> \<not> wf_map mp' \<and> malloc mp' big = None \<and>
    (\<forall>b sz'. (\<forall>e \<in> set mp'. m_addr e \<le> b) \<longrightarrow> mfree_map mp' sz' b = None)"
proof -
  obtain es z zs where mp: "mp = es @ z # zs" and c: "chain es" and z: "m_size z = 0" "allz zs"
    and lv: "live mp = es" using assms(1) by (rule wf_map_cases)
  obtain ws where m: "mfree_map mp sz a = Some (free_run sz a es @ ws)"
      "length (free_run sz a es @ ws) = length mp"
    using mfree_map_list [OF c z assms(2), of a] mp by auto
  then have r: "mfree_map mp sz a = Some (free_run sz a es)" using assms(4) lv by simp
  have full: "live (free_run sz a es) = free_run sz a es"
    using assms(5) lv by (simp add: live_def)
  have none: "malloc_from (us @ fs) big (length us) = None"
    if "\<forall>e\<in>set fs. m_size e < big \<and> m_size e \<noteq> 0" for us fs
    using that
  proof (induction fs arbitrary: us)
    case Nil
    then show ?case by (subst malloc_from.simps) simp
  next
    case (Cons f fs)
    have "malloc_from ((us @ [f]) @ fs) big (length (us @ [f])) = None"
      by (rule Cons.IH) (use Cons.prems in auto)
    with Cons.prems show ?case by (subst malloc_from.simps) simp
  qed
  have off: "mfree_scan (us @ fs) b (length us) = None" if "\<forall>e\<in>set fs. m_addr e \<le> b \<and> m_size e \<noteq> 0" for us fs b
    using that
  proof (induction fs arbitrary: us)
    case Nil
    then show ?case by (subst mfree_scan.simps) simp
  next
    case (Cons f fs)
    have "mfree_scan ((us @ [f]) @ fs) b (length (us @ [f])) = None"
      by (rule Cons.IH) (use Cons.prems in auto)
    with Cons.prems show ?case by (subst mfree_scan.simps) simp
  qed
  let ?mp = "free_run sz a es"
  have nz: "\<forall>e\<in>set ?mp. m_size e < big \<and> m_size e \<noteq> 0" using assms(5) lv by simp
  have "mfree_map ?mp sz' b = None" if "\<forall>e\<in>set ?mp. m_addr e \<le> b" for b sz'
    using off [of ?mp b "[]"] that nz by (simp add: mfree_map_def)
  moreover have "malloc ?mp big = None" using none [OF nz, of "[]"] by (simp add: malloc_def)
  moreover have "\<not> wf_map ?mp" using full by (auto simp: wf_map_def)
  moreover have "length ?mp = length mp" using assms(4) lv by simp
  ultimately show ?thesis using r by blast
qed

theorem mfree_overflow_witness:
  "\<exists>mp'. mfree_map [\<lparr>m_size = 2, m_addr = 10\<rparr>, \<lparr>m_size = 0, m_addr = 0\<rparr>] 3 20 = Some mp' \<and>
     \<not> wf_map mp' \<and> malloc mp' 5 = None"
proof -
  let ?mp = "[\<lparr>m_size = 2, m_addr = 10\<rparr>, \<lparr>m_size = 0, m_addr = 0\<rparr>]"
  have "wf_map ?mp" "Suc (length (live ?mp)) = length ?mp" "length (free_run 3 20 (live ?mp)) = length ?mp"
    "\<forall>e\<in>set (free_run 3 20 (live ?mp)). m_size e < 5 \<and> m_size e \<noteq> 0"
    by (simp_all add: wf_map_def live_def)
  from mfree_overflow [OF this(1) _ this(2-4)] show ?thesis by auto
qed

end
