(* ===== verification/Clist.thy ===== *)
theory Clist
  imports Prelude
begin

section \<open>Character queues (kernel/prim.c)\<close>

text \<open>
  A clist is a chain of blocks of \<open>CBSIZE\<close> characters drawn from one pool shared by all the
  terminals.  Pointers to blocks are indices into the array \<open>cfree\<close>, \<open>NULL\<close> is \<open>None\<close>; the
  two cursors of a queue are a block and an index into it, as in the source.  Following a
  null pointer or indexing a block out of range is a failure of the model (\<open>None\<close>), so a theorem that a result is \<open>Some\<close>
  includes that the code never does.  Characters are unsigned bytes: storing one reduces it
  modulo 256.
\<close>

abbreviation (input) CBSIZE :: nat where "CBSIZE \<equiv> 30"
abbreviation (input) NCLIST :: nat where "NCLIST \<equiv> 100"

record cblock =
  c_next :: "nat option"
  c_info :: "nat \<Rightarrow> int"

record clist =
  c_cc :: int
  c_hd :: "nat option"
  c_tl :: "nat option"
  c_hix :: nat
  c_tix :: nat

record cpool =
  cfree :: "nat \<Rightarrow> cblock"
  cfreelist :: "nat option"

definition set_next :: "nat \<Rightarrow> nat option \<Rightarrow> cpool \<Rightarrow> cpool" where
  "set_next b n P = P\<lparr>cfree := (cfree P)(b := (cfree P b)\<lparr>c_next := n\<rparr>)\<rparr>"

definition set_info :: "nat \<Rightarrow> nat \<Rightarrow> int \<Rightarrow> cpool \<Rightarrow> cpool" where
  "set_info b i c P =
     P\<lparr>cfree := (cfree P)(b := (cfree P b)\<lparr>c_info := (c_info (cfree P b))(i := c mod 256)\<rparr>)\<rparr>"

text \<open>\<open>bp->c_next = cfreelist; cfreelist = bp;\<close>\<close>

definition free_block :: "nat \<Rightarrow> cpool \<Rightarrow> cpool" where
  "free_block b P = (set_next b (cfreelist P) P)\<lparr>cfreelist := Some b\<rparr>"

definition getc :: "clist \<Rightarrow> cpool \<Rightarrow> (int \<times> clist \<times> cpool) option" where
  "getc p P =
     (if c_cc p \<le> 0 then Some (-1, p\<lparr>c_cc := 0, c_hd := None, c_tl := None\<rparr>, P)
      else case c_hd p of
        None \<Rightarrow> None
      | Some bp \<Rightarrow>
          if CBSIZE \<le> c_hix p then None else
          let c = c_info (cfree P bp) (c_hix p) mod 256;
              p1 = p\<lparr>c_hix := Suc (c_hix p), c_cc := c_cc p - 1\<rparr>
          in if c_cc p1 = 0 then Some (c, p1\<lparr>c_hd := None, c_tl := None\<rparr>, free_block bp P)
             else if c_hix p1 = CBSIZE
               then Some (c, p1\<lparr>c_hd := c_next (cfree P bp), c_hix := 0\<rparr>, free_block bp P)
             else Some (c, p1, P))"

text \<open>The tail of \<open>putc\<close>: \<open>p->c_tl->c_info[p->c_tix++] = c; p->c_cc++\<close>.\<close>

definition put_tail :: "int \<Rightarrow> clist \<Rightarrow> cpool \<Rightarrow> (int \<times> clist \<times> cpool) option" where
  "put_tail c p P =
     (case c_tl p of
        None \<Rightarrow> None
      | Some b \<Rightarrow>
          if CBSIZE \<le> c_tix p then None
          else Some (0, p\<lparr>c_tix := Suc (c_tix p), c_cc := c_cc p + 1\<rparr>, set_info b (c_tix p) c P))"

definition putc :: "int \<Rightarrow> clist \<Rightarrow> cpool \<Rightarrow> (int \<times> clist \<times> cpool) option" where
  "putc c p P =
     (if c_tl p = None \<or> c_tix p = CBSIZE then
        (case cfreelist P of
           None \<Rightarrow> Some (-1, p, P)
         | Some bp \<Rightarrow>
             let P1 = set_next bp None (P\<lparr>cfreelist := c_next (cfree P bp)\<rparr>)
             in (case c_tl p of
                   None \<Rightarrow> put_tail c (p\<lparr>c_hd := Some bp, c_hix := 0, c_cc := 0,
                                          c_tl := Some bp, c_tix := 0\<rparr>) P1
                 | Some t \<Rightarrow> put_tail c (p\<lparr>c_tl := Some bp, c_tix := 0\<rparr>) (set_next t (Some bp) P1)))
      else put_tail c p P)"

text \<open>\<open>q_to_b\<close> returns the characters it stored at \<open>cp\<close>, in order; their number is the
  value the C function returns.\<close>

fun q_to_b :: "clist \<Rightarrow> nat \<Rightarrow> cpool \<Rightarrow> (int list \<times> clist \<times> cpool) option" where
  "q_to_b q 0 P = Some ([], q, P)"
| "q_to_b q (Suc cc) P =
     (case getc q P of
        None \<Rightarrow> None
      | Some (c, q1, P1) \<Rightarrow>
          if c < 0 then Some ([], q1, P1)
          else (case q_to_b q1 cc P1 of
                  None \<Rightarrow> None
                | Some (cs, q2, P2) \<Rightarrow> Some (c # cs, q2, P2)))"

text \<open>\<open>b_to_q\<close> puts the characters of a buffer and returns how many were not transferred.\<close>

fun b_to_q :: "int list \<Rightarrow> clist \<Rightarrow> cpool \<Rightarrow> (nat \<times> clist \<times> cpool) option" where
  "b_to_q [] q P = Some (0, q, P)"
| "b_to_q (c # cs) q P =
     (case putc c q P of
        None \<Rightarrow> None
      | Some (r, q1, P1) \<Rightarrow>
          if r < 0 then Some (Suc (length cs), q1, P1) else b_to_q cs q1 P1)"

text \<open>\<open>cinit\<close>: free every block, then count the entries of \<open>cdevsw\<close> before the first with no
  \<open>d_open\<close>.\<close>

definition cinit :: "bool list \<Rightarrow> cpool \<Rightarrow> cpool \<times> nat" where
  "cinit cdevsw_open P =
     (fold free_block [0 ..< NCLIST] P, length (takeWhile (\<lambda>o'. o') cdevsw_open))"

subsection \<open>The queue a chain of blocks stands for\<close>

primrec path :: "cpool \<Rightarrow> nat option \<Rightarrow> nat list \<Rightarrow> bool" where
  "path P s [] = (s = None)"
| "path P s (b # bs) = (s = Some b \<and> path P (c_next (cfree P b)) bs)"

definition binfo :: "cpool \<Rightarrow> nat \<Rightarrow> int list" where
  "binfo P b = map (c_info (cfree P b)) [0 ..< CBSIZE]"

text \<open>\<open>qrep P q bs cs\<close>: in pool \<open>P\<close> the queue \<open>q\<close> owns the blocks \<open>bs\<close> and holds the
  characters \<open>cs\<close>.\<close>

definition qrep :: "cpool \<Rightarrow> clist \<Rightarrow> nat list \<Rightarrow> int list \<Rightarrow> bool" where
  "qrep P q bs cs \<longleftrightarrow>
     c_cc q = int (length cs) \<and> path P (c_hd q) bs \<and> distinct bs \<and>
     (\<forall>c\<in>set cs. 0 \<le> c \<and> c < 256) \<and>
     (if cs = [] then bs = [] \<and> c_tl q = None
      else bs \<noteq> [] \<and> c_tl q = Some (last bs) \<and> c_hix q < CBSIZE \<and> 0 < c_tix q \<and> c_tix q \<le> CBSIZE \<and>
           c_hix q + length cs = (length bs - 1) * CBSIZE + c_tix q \<and>
           cs = take (length cs) (drop (c_hix q) (concat (map (binfo P) bs))))"

text \<open>The whole system: the free list and every queue own disjoint sets of blocks, and
  no block is lost.\<close>

definition sysrep :: "cpool \<Rightarrow> ('q \<Rightarrow> clist) \<Rightarrow> nat list \<Rightarrow> ('q \<Rightarrow> nat list) \<Rightarrow> ('q \<Rightarrow> int list) \<Rightarrow> bool"
  where
  "sysrep P Q F B C \<longleftrightarrow>
     path P (cfreelist P) F \<and> distinct F \<and> (\<forall>i. qrep P (Q i) (B i) (C i)) \<and>
     (\<forall>i. set F \<inter> set (B i) = {}) \<and> (\<forall>i j. i \<noteq> j \<longrightarrow> set (B i) \<inter> set (B j) = {}) \<and>
     set F \<union> (\<Union>i. set (B i)) = {..<NCLIST}"


text \<open>One queue and the free list, in isolation.\<close>

definition hold :: "cpool \<Rightarrow> clist \<Rightarrow> nat list \<Rightarrow> nat list \<Rightarrow> int list \<Rightarrow> bool" where
  "hold P q F bs cs \<longleftrightarrow> path P (cfreelist P) F \<and> distinct (F @ bs) \<and> qrep P q bs cs"

definition same_outside :: "nat set \<Rightarrow> cpool \<Rightarrow> cpool \<Rightarrow> bool" where
  "same_outside X P P' \<longleftrightarrow> (\<forall>b. b \<notin> X \<longrightarrow> cfree P' b = cfree P b)"

lemma cfree_upd [simp]:
  "cfree (set_next b n P) = (cfree P)(b := (cfree P b)\<lparr>c_next := n\<rparr>)"
  "cfree (set_info b i c P) = (cfree P)(b := (cfree P b)\<lparr>c_info := (c_info (cfree P b))(i := c mod 256)\<rparr>)"
  "cfree (free_block b P) = (cfree P)(b := (cfree P b)\<lparr>c_next := cfreelist P\<rparr>)"
  "cfreelist (set_next b n P) = cfreelist P"
  "cfreelist (set_info b i c P) = cfreelist P"
  "cfreelist (free_block b P) = Some b"
  by (simp_all add: set_next_def set_info_def free_block_def)

lemma path_frame: "\<forall>b\<in>set bs. c_next (cfree P' b) = c_next (cfree P b) \<Longrightarrow> path P' s bs = path P s bs"
  by (induction bs arbitrary: s) auto

lemma binfo_frame: "c_info (cfree P' b) = c_info (cfree P b) \<Longrightarrow> binfo P' b = binfo P b"
  by (simp add: binfo_def)

lemma length_binfo [simp]: "length (binfo P b) = CBSIZE"
  by (simp add: binfo_def)

lemma length_concat_binfo [simp]: "length (concat (map (binfo P) bs)) = length bs * CBSIZE"
  by (induction bs) (auto simp: binfo_def)

lemma concat_binfo_frame:
  "\<forall>b\<in>set bs. c_info (cfree P' b) = c_info (cfree P b) \<Longrightarrow>
   concat (map (binfo P') bs) = concat (map (binfo P) bs)"
  by (metis binfo_frame map_eq_conv)

lemma qrep_frame:
  assumes "\<forall>b\<in>set bs. cfree P' b = cfree P b"
  shows "qrep P' q bs cs = qrep P q bs cs"
proof -
  have "path P' s bs = path P s bs" for s using assms by (intro path_frame) simp
  moreover have "concat (map (binfo P') bs) = concat (map (binfo P) bs)"
    using assms by (intro concat_binfo_frame) simp
  ultimately show ?thesis by (simp add: qrep_def)
qed

lemma path_snoc: "path P s (bs @ [b]) \<Longrightarrow> distinct (bs @ [b]) \<Longrightarrow> x \<notin> set (bs @ [b]) \<Longrightarrow>
   c_next (cfree P b) = None \<and> path (set_next b (Some x) (set_next x None P)) s (bs @ [b, x])"
proof (induction bs arbitrary: s)
  case (Cons a bs)
  then show ?case by auto
qed auto

subsection \<open>One operation on one queue\<close>

lemma getc_empty:
  assumes "hold P q F bs []"
  shows "\<exists>q'. getc q P = Some (-1, q', P) \<and> hold P q' F bs []"
  using assms by (auto simp: getc_def hold_def qrep_def)

lemma getc_head:
  assumes "hold P q F bs (c # cs)"
  obtains b bs0 where "bs = b # bs0" "c_hd q = Some b" "c = c_info (cfree P b) (c_hix q)"
    "c_hix q < CBSIZE" "0 \<le> c" "c < 256"
    "cs = take (length cs) (drop (Suc (c_hix q)) (concat (map (binfo P) bs)))"
proof -
  from assms obtain b bs0 where b: "bs = b # bs0" "c_hd q = Some b" "c_hix q < CBSIZE" "0 \<le> c" "c < 256"
    by (cases bs) (auto simp: hold_def qrep_def)
  let ?X = "concat (map (binfo P) bs)"
  have eq: "c # cs = take (Suc (length cs)) (drop (c_hix q) ?X)"
    using assms by (simp add: hold_def qrep_def)
  have lt: "c_hix q < length ?X" using b by simp
  have "drop (c_hix q) ?X = ?X ! c_hix q # drop (Suc (c_hix q)) ?X"
    using lt by (rule Cons_nth_drop_Suc [symmetric])
  with eq have "c = ?X ! c_hix q" "cs = take (length cs) (drop (Suc (c_hix q)) ?X)" by auto
  moreover have "?X ! c_hix q = c_info (cfree P b) (c_hix q)"
    using b by (simp add: nth_append binfo_def)
  ultimately show ?thesis using that b by simp
qed

lemma getc_ok:
  assumes h: "hold P q F bs (c # cs)"
  shows "\<exists>q' P' F' bs'. getc q P = Some (c, q', P') \<and> hold P' q' F' bs' cs \<and>
           same_outside (set F \<union> set bs) P P' \<and> set F' \<union> set bs' = set F \<union> set bs"
proof -
  obtain b bs0 where b: "bs = b # bs0" "c_hd q = Some b" "c = c_info (cfree P b) (c_hix q)"
    "c_hix q < CBSIZE" "0 \<le> c" "c < 256"
    "cs = take (length cs) (drop (Suc (c_hix q)) (concat (map (binfo P) bs)))"
    using h by (rule getc_head)
  have len: "c_hix q + Suc (length cs) = (length bs - 1) * CBSIZE + c_tix q" "0 < c_tix q" "c_tix q \<le> CBSIZE"
    and cc: "c_cc q = int (length cs) + 1" and tl: "c_tl q = Some (last bs)"
    and byt: "\<forall>c\<in>set cs. 0 \<le> c \<and> c < 256" and pth: "path P (c_hd q) bs" and dst: "distinct (F @ bs)"
    and fr: "path P (cfreelist P) F"
    using h by (auto simp: hold_def qrep_def)
  have pF: "path (free_block b P) s F = path P s F" for s
    using dst b by (intro path_frame) auto
  have pB: "path (free_block b P) s bs0 = path P s bs0" for s
    using dst b by (intro path_frame) auto
  have cB: "concat (map (binfo (free_block b P)) bs0) = concat (map (binfo P) bs0)"
    by (intro concat_binfo_frame) simp
  consider "cs = []" | "cs \<noteq> []" "Suc (c_hix q) = CBSIZE" | "cs \<noteq> []" "Suc (c_hix q) < CBSIZE"
    using b by linarith
  then show ?thesis
  proof cases
    case 1
    with len b have "bs0 = []" by (cases bs0) auto
    with 1 b cc pth dst fr pF show ?thesis
      by (auto simp: getc_def hold_def qrep_def same_outside_def intro!: exI [of _ "b # F"])
  next
    case 2
    with len b have bs0: "bs0 \<noteq> []" by (cases bs0) auto
    have "cs = take (length cs) (concat (map (binfo P) bs0))"
      using b 2 by simp
    moreover have "length cs = (length bs0 - 1) * CBSIZE + c_tix q"
      using len b bs0 2 by (cases bs0) auto
    ultimately have "hold (free_block b P) (q\<lparr>c_hix := 0, c_cc := c_cc q - 1, c_hd := c_next (cfree P b)\<rparr>)
        (b # F) bs0 cs"
      using 2 bs0 b cc pth dst fr tl byt len pF pB cB by (simp add: hold_def qrep_def)
    moreover have "getc q P = Some (c, q\<lparr>c_hix := 0, c_cc := c_cc q - 1, c_hd := c_next (cfree P b)\<rparr>,
        free_block b P)"
      using 2 b cc by (simp add: getc_def Let_def)
    moreover have "same_outside (set F \<union> set bs) P (free_block b P)"
      using b by (simp add: same_outside_def)
    ultimately show ?thesis using b by fastforce
  next
    case 3
    let ?q = "q\<lparr>c_hix := Suc (c_hix q), c_cc := c_cc q - 1\<rparr>"
    have "hold P ?q F bs cs"
      unfolding hold_def qrep_def using 3 b(1,4,7) cc pth dst fr tl byt len
      by (intro conjI) simp_all
    moreover have "getc q P = Some (c, ?q, P)"
      using 3 b(2-6) cc by (simp add: getc_def Let_def)
    ultimately show ?thesis by (auto simp: same_outside_def)
  qed
qed

lemma binfo_set_info:
  "i < CBSIZE \<Longrightarrow> binfo (set_info b i c P) b = (binfo P b)[i := c mod 256]"
  by (auto simp: binfo_def intro: nth_equalityI)

lemma concat_set_info:
  assumes "b \<notin> set bs" "i < CBSIZE"
  shows "concat (map (binfo (set_info b i c P)) (bs @ [b])) =
         (concat (map (binfo P) (bs @ [b])))[length bs * CBSIZE + i := c mod 256]"
proof -
  have "concat (map (binfo (set_info b i c P)) bs) = concat (map (binfo P) bs)"
    using assms by (intro concat_binfo_frame) auto
  with assms show ?thesis by (simp add: binfo_set_info list_update_append)
qed

lemma take_snoc_update:
  assumes "h + n < length X"
  shows "take (Suc n) (drop h (X[h + n := v])) = take n (drop h X) @ [v]"
proof -
  have "take (Suc n) (drop h (X[h + n := v])) = take n (drop h (X[h + n := v])) @ [X[h + n := v] ! (h + n)]"
    using assms by (simp add: take_Suc_conv_app_nth)
  then show ?thesis using assms by (simp add: drop_update_swap)
qed

lemma put_tail_ok:
  assumes pth: "path P (c_hd q) (bs @ [b])" and dst: "distinct (bs @ [b])"
    and cc: "c_cc q = int (length cs)" and byt: "\<forall>c\<in>set cs. 0 \<le> c \<and> c < 256"
    and tl: "c_tl q = Some b" and hix: "c_hix q < CBSIZE" and tix: "c_tix q < CBSIZE"
    and len: "c_hix q + length cs = length bs * CBSIZE + c_tix q"
    and con: "cs = take (length cs) (drop (c_hix q) (concat (map (binfo P) (bs @ [b]))))"
  shows "\<exists>q'. put_tail c q P = Some (0, q', set_info b (c_tix q) c P) \<and>
           qrep (set_info b (c_tix q) c P) q' (bs @ [b]) (cs @ [c mod 256])"
proof -
  let ?P = "set_info b (c_tix q) c P"
  have pP: "path ?P s (bs @ [b]) = path P s (bs @ [b])" for s
    by (intro path_frame) simp
  have "concat (map (binfo ?P) (bs @ [b])) =
        (concat (map (binfo P) (bs @ [b])))[c_hix q + length cs := c mod 256]"
    unfolding len using dst tix by (intro concat_set_info) auto
  moreover have "c_hix q + length cs < length (concat (map (binfo P) (bs @ [b])))"
    unfolding len length_concat_binfo using tix by simp
  ultimately have "cs @ [c mod 256] = take (Suc (length cs)) (drop (c_hix q) (concat (map (binfo ?P) (bs @ [b]))))"
    using con by (simp only: take_snoc_update)
  moreover have "\<forall>x\<in>set (cs @ [c mod 256]). 0 \<le> x \<and> x < 256" using byt by auto
  ultimately have "qrep ?P (q\<lparr>c_tix := Suc (c_tix q), c_cc := c_cc q + 1\<rparr>) (bs @ [b]) (cs @ [c mod 256])"
    unfolding qrep_def using pth dst cc tl hix tix len pP
    by (intro conjI) (simp_all del: path.simps map_append set_append)
  with tl tix show ?thesis by (simp add: put_tail_def)
qed

text \<open>\<open>full q\<close>: the next \<open>putc\<close> on the queue needs a block.\<close>

definition full :: "clist \<Rightarrow> bool" where
  "full q \<longleftrightarrow> c_tl q = None \<or> c_tix q = CBSIZE"

lemma putc_exhausted: "hold P q [] bs cs \<Longrightarrow> full q \<Longrightarrow> putc c q P = Some (-1, q, P)"
  by (simp add: hold_def full_def putc_def)

lemma putc_room:
  assumes h: "hold P q F bs cs" and nf: "\<not> full q"
  shows "\<exists>q' P'. putc c q P = Some (0, q', P') \<and> hold P' q' F bs (cs @ [c mod 256]) \<and>
           same_outside (set F \<union> set bs) P P'"
proof -
  have "cs \<noteq> []" using h nf by (auto simp: hold_def full_def qrep_def)
  then obtain as b where bs: "bs = as @ [b]" using h
    by (metis hold_def qrep_def append_butlast_last_id)
  have "\<exists>q'. put_tail c q P = Some (0, q', set_info b (c_tix q) c P) \<and>
           qrep (set_info b (c_tix q) c P) q' (as @ [b]) (cs @ [c mod 256])"
    using h nf \<open>cs \<noteq> []\<close> bs by (intro put_tail_ok) (auto simp: hold_def full_def qrep_def)
  moreover have "path (set_info b (c_tix q) c P) s F = path P s F" for s
    by (intro path_frame) simp
  ultimately show ?thesis using h nf bs
    by (auto simp: hold_def full_def putc_def same_outside_def)
qed

lemma putc_first:
  assumes h: "hold P q (x # F) bs []"
  shows "\<exists>q' P'. putc c q P = Some (0, q', P') \<and> hold P' q' F [x] [c mod 256] \<and>
           same_outside (set (x # F) \<union> set bs) P P'"
proof -
  let ?P = "set_next x None (P\<lparr>cfreelist := c_next (cfree P x)\<rparr>)"
  let ?q = "q\<lparr>c_hd := Some x, c_hix := 0, c_cc := 0, c_tl := Some x, c_tix := 0\<rparr>"
  have "\<exists>q'. put_tail c ?q ?P = Some (0, q', set_info x (c_tix ?q) c ?P) \<and>
           qrep (set_info x (c_tix ?q) c ?P) q' ([] @ [x]) ([] @ [c mod 256])"
    by (intro put_tail_ok) auto
  moreover have "path (set_info x 0 c ?P) s F = path P s F" for s
    using h by (intro path_frame) (auto simp: hold_def)
  ultimately show ?thesis using h
    by (auto simp: hold_def qrep_def putc_def same_outside_def)
qed

lemma putc_grow:
  assumes h: "hold P q (x # F) bs cs" and cs: "cs \<noteq> []" and f: "full q"
  shows "\<exists>q' P'. putc c q P = Some (0, q', P') \<and> hold P' q' F (bs @ [x]) (cs @ [c mod 256]) \<and>
           same_outside (set (x # F) \<union> set bs) P P'"
proof -
  from h cs obtain as t where bs: "bs = as @ [t]"
    by (metis hold_def qrep_def append_butlast_last_id)
  let ?P = "set_next t (Some x) (set_next x None (P\<lparr>cfreelist := c_next (cfree P x)\<rparr>))"
  let ?q = "q\<lparr>c_tl := Some x, c_tix := 0\<rparr>"
  have tix: "c_tix q = CBSIZE" and tl: "c_tl q = Some t"
    using f h cs bs by (auto simp: full_def hold_def qrep_def)
  have "path (set_next t (Some x) (set_next x None P)) (c_hd q) (as @ [t, x])"
    using h bs by (intro conjunct2 [OF path_snoc]) (auto simp: hold_def qrep_def)
  then have p: "path ?P (c_hd q) (as @ [t, x])" by (rule iffD1 [OF path_frame, rotated]) simp
  have con: "concat (map (binfo ?P) bs) = concat (map (binfo P) bs)"
    by (intro concat_binfo_frame) simp
  have "\<exists>q'. put_tail c ?q ?P = Some (0, q', set_info x (c_tix ?q) c ?P) \<and>
           qrep (set_info x (c_tix ?q) c ?P) q' (bs @ [x]) (cs @ [c mod 256])"
    using h cs bs p tix con by (intro put_tail_ok) (auto simp: hold_def qrep_def)
  moreover have "path (set_info x 0 c ?P) s F = path P s F" for s
    using h bs by (intro path_frame) (auto simp: hold_def)
  ultimately show ?thesis using h tix tl bs
    by (auto simp: hold_def qrep_def putc_def same_outside_def)
qed

subsection \<open>All the queues together\<close>

lemma qrep_distinct: "qrep P q bs cs \<Longrightarrow> distinct bs"
  by (simp add: qrep_def)

lemma sysrep_hold: "sysrep P Q F B C \<Longrightarrow> hold P (Q i) F (B i) (C i)"
  unfolding sysrep_def hold_def using qrep_distinct by fastforce

lemma sysrep_upd:
  assumes s: "sysrep P Q F B C" and h: "hold P' q' F' bs' cs'"
    and fr: "same_outside (set F \<union> set (B i)) P P'" and eq: "set F' \<union> set bs' = set F \<union> set (B i)"
  shows "sysrep P' (Q(i := q')) F' (B(i := bs')) (C(i := cs'))"
proof -
  have other: "set F' \<inter> set (B j) = {} \<and> set bs' \<inter> set (B j) = {} \<and> qrep P' (Q j) (B j) (C j)"
    if "j \<noteq> i" for j
  proof -
    have "set F \<inter> set (B j) = {}" "set (B i) \<inter> set (B j) = {}" and q: "qrep P (Q j) (B j) (C j)"
      using s that by (auto simp: sysrep_def)
    then have d: "(set F \<union> set (B i)) \<inter> set (B j) = {}" by auto
    then have "qrep P' (Q j) (B j) (C j) = qrep P (Q j) (B j) (C j)"
      using fr by (intro qrep_frame) (auto simp: same_outside_def)
    moreover have "(set F' \<union> set bs') \<inter> set (B j) = {}" using d eq by simp
    ultimately show ?thesis using q by auto
  qed
  have "set F' \<union> (\<Union>j. set ((B(i := bs')) j)) = set F' \<union> set bs' \<union> (\<Union>j\<in>-{i}. set (B j))"
    by (auto split: if_splits)
  also have "\<dots> = set F \<union> (\<Union>j. set (B j))" using eq by auto
  also have "\<dots> = {..<NCLIST}" using s by (simp add: sysrep_def)
  finally have "set F' \<union> (\<Union>j. set ((B(i := bs')) j)) = {..<NCLIST}" .
  moreover have "path P' (cfreelist P') F'" "distinct F'" "set F' \<inter> set bs' = {}" "qrep P' q' bs' cs'"
    using h by (auto simp: hold_def)
  moreover have "set (B j) \<inter> set (B k) = {}" if "j \<noteq> k" for j k
    using s that by (simp add: sysrep_def)
  ultimately show ?thesis using other unfolding sysrep_def by (auto simp: Int_commute)
qed

text \<open>The contents of every queue, forgetting which blocks hold them.\<close>

definition queues :: "cpool \<Rightarrow> ('q \<Rightarrow> clist) \<Rightarrow> ('q \<Rightarrow> int list) \<Rightarrow> bool" where
  "queues P Q C \<longleftrightarrow> (\<exists>F B. sysrep P Q F B C)"

lemma putc_sys:
  assumes s: "sysrep P Q F B C" and ok: "\<not> full (Q i) \<or> F \<noteq> []"
  shows "\<exists>q' P'. putc c (Q i) P = Some (0, q', P') \<and> queues P' (Q(i := q')) (C(i := C i @ [c mod 256]))"
proof -
  have h: "hold P (Q i) F (B i) (C i)" using s by (rule sysrep_hold)
  consider "\<not> full (Q i)" | x F' where "full (Q i)" "F = x # F'" "C i = []"
    | x F' where "full (Q i)" "F = x # F'" "C i \<noteq> []"
    using ok by (metis list.exhaust)
  then show ?thesis
  proof cases
    case 1
    from putc_room [OF h 1] obtain q' P' where r: "putc c (Q i) P = Some (0, q', P')"
      "hold P' q' F (B i) (C i @ [c mod 256])" "same_outside (set F \<union> set (B i)) P P'" by blast
    have "sysrep P' (Q(i := q')) F (B(i := B i)) (C(i := C i @ [c mod 256]))"
      by (rule sysrep_upd [OF s r(2,3)]) simp
    with r show ?thesis unfolding queues_def by auto
  next
    case 2
    have b: "B i = []" using h 2 by (simp add: hold_def qrep_def)
    from putc_first [of P "Q i" x F' "B i" c] h 2 obtain q' P' where r: "putc c (Q i) P = Some (0, q', P')"
      "hold P' q' F' [x] [c mod 256]" "same_outside (set F \<union> set (B i)) P P'" by auto
    have "sysrep P' (Q(i := q')) F' (B(i := [x])) (C(i := [c mod 256]))"
      by (rule sysrep_upd [OF s r(2,3)]) (use 2 b in auto)
    with r 2 show ?thesis unfolding queues_def by auto
  next
    case 3
    from putc_grow [of P "Q i" x F' "B i" "C i" c] h 3 obtain q' P' where r: "putc c (Q i) P = Some (0, q', P')"
      "hold P' q' F' (B i @ [x]) (C i @ [c mod 256])" "same_outside (set F \<union> set (B i)) P P'" by auto
    have "sysrep P' (Q(i := q')) F' (B(i := B i @ [x])) (C(i := C i @ [c mod 256]))"
      by (rule sysrep_upd [OF s r(2,3)]) (use 3 in auto)
    with r show ?thesis unfolding queues_def by auto
  qed
qed

lemma putc_queues:
  assumes "queues P Q C"
  shows "(\<exists>q' P'. putc c (Q i) P = Some (0, q', P') \<and> queues P' (Q(i := q')) (C(i := C i @ [c mod 256])))
       \<or> putc c (Q i) P = Some (-1, Q i, P) \<and> cfreelist P = None"
proof -
  from assms obtain F B where s: "sysrep P Q F B C" unfolding queues_def by blast
  show ?thesis
  proof (cases "\<not> full (Q i) \<or> F \<noteq> []")
    case True
    with putc_sys [OF s] show ?thesis by blast
  next
    case False
    with sysrep_hold [OF s, of i] s putc_exhausted show ?thesis by (auto simp: sysrep_def)
  qed
qed

lemma getc_queues:
  assumes "queues P Q C"
  shows "case C i of
           [] \<Rightarrow> \<exists>q'. getc (Q i) P = Some (-1, q', P) \<and> queues P (Q(i := q')) C
         | c # cs \<Rightarrow> 0 \<le> c \<and> c < 256 \<and>
             (\<exists>q' P'. getc (Q i) P = Some (c, q', P') \<and> queues P' (Q(i := q')) (C(i := cs)))"
proof -
  from assms obtain F B where s: "sysrep P Q F B C" unfolding queues_def by blast
  note h = sysrep_hold [OF s, of i]
  show ?thesis
  proof (cases "C i")
    case Nil
    with getc_empty h obtain q' where "getc (Q i) P = Some (-1, q', P)" "hold P q' F (B i) []" by metis
    moreover from this have "sysrep P (Q(i := q')) F (B(i := B i)) (C(i := []))"
      by (intro sysrep_upd [OF s]) (auto simp: same_outside_def)
    ultimately show ?thesis using Nil unfolding queues_def by (auto simp: fun_upd_idem)
  next
    case (Cons c cs)
    with getc_ok h obtain q' P' F' bs' where "getc (Q i) P = Some (c, q', P')" "hold P' q' F' bs' cs"
      "same_outside (set F \<union> set (B i)) P P'" "set F' \<union> set bs' = set F \<union> set (B i)" by metis
    moreover from this(2-) have "sysrep P' (Q(i := q')) F' (B(i := bs')) (C(i := cs))"
      by (intro sysrep_upd [OF s])
    moreover have "0 \<le> c \<and> c < 256" using h Cons by (auto simp: hold_def qrep_def)
    ultimately show ?thesis using Cons unfolding queues_def by auto
  qed
qed

subsection \<open>The interface the terminal code relies on\<close>

text \<open>What a family of character queues over one pool promises; \<open>sys P Q C\<close> says that the
  pool \<open>P\<close> and the queue heads \<open>Q\<close> hold the character sequences \<open>C\<close>.\<close>

locale char_queues =
  fixes put :: "int \<Rightarrow> 'q \<Rightarrow> 'p \<Rightarrow> (int \<times> 'q \<times> 'p) option"
    and get :: "'q \<Rightarrow> 'p \<Rightarrow> (int \<times> 'q \<times> 'p) option"
    and sys :: "'p \<Rightarrow> ('i \<Rightarrow> 'q) \<Rightarrow> ('i \<Rightarrow> int list) \<Rightarrow> bool"
  assumes put_law: "sys P Q C \<Longrightarrow>
      (\<exists>q' P'. put c (Q i) P = Some (0, q', P') \<and> sys P' (Q(i := q')) (C(i := C i @ [c mod 256])))
      \<or> put c (Q i) P = Some (-1, Q i, P)"
    and get_nil: "sys P Q C \<Longrightarrow> C i = [] \<Longrightarrow>
      \<exists>q'. get (Q i) P = Some (-1, q', P) \<and> sys P (Q(i := q')) C"
    and get_cons: "sys P Q C \<Longrightarrow> C i = c # cs \<Longrightarrow>
      0 \<le> c \<and> c < 256 \<and> (\<exists>q' P'. get (Q i) P = Some (c, q', P') \<and> sys P' (Q(i := q')) (C(i := cs)))"
begin

lemma get_total: "sys P Q C \<Longrightarrow>
  \<exists>c q' P' C'. get (Q i) P = Some (c, q', P') \<and> sys P' (Q(i := q')) C' \<and>
    (c < 0 \<longleftrightarrow> C i = []) \<and> (c < 0 \<longrightarrow> C' = C) \<and> (0 \<le> c \<longrightarrow> C i = c # C' i \<and> (\<forall>j. j \<noteq> i \<longrightarrow> C' j = C j))"
proof (cases "C i")
  case Nil
  moreover assume "sys P Q C"
  ultimately obtain q' where "get (Q i) P = Some (-1, q', P)" "sys P (Q(i := q')) C"
    using get_nil by blast
  with Nil show ?thesis by auto
next
  case (Cons c cs)
  moreover assume "sys P Q C"
  ultimately obtain q' P' where g: "0 \<le> c" "get (Q i) P = Some (c, q', P')" "sys P' (Q(i := q')) (C(i := cs))"
    using get_cons by blast
  show ?thesis
    by (rule exI [of _ c], rule exI [of _ q'], rule exI [of _ P'], rule exI [of _ "C(i := cs)"])
      (use g Cons in auto)
qed

lemma put_then_get:
  assumes "sys P Q C" "C i = []" "put c (Q i) P = Some (0, q', P')"
  shows "\<exists>q'' P''. get q' P' = Some (c mod 256, q'', P'') \<and> sys P'' (Q(i := q'')) C"
proof -
  have s: "sys P' (Q(i := q')) (C(i := [c mod 256]))"
    using put_law [OF assms(1), of c i] assms(2,3) by auto
  from get_cons [OF s, of i "c mod 256" "[]"] assms(2) show ?thesis
    by (auto simp: fun_upd_idem)
qed

end

interpretation cq: char_queues putc getc queues
proof
  fix P and Q :: "'i \<Rightarrow> clist" and C i c
  assume s: "queues P Q C"
  show "(\<exists>q' P'. putc c (Q i) P = Some (0, q', P') \<and> queues P' (Q(i := q')) (C(i := C i @ [c mod 256])))
      \<or> putc c (Q i) P = Some (-1, Q i, P)"
    using putc_queues [OF s] by blast
  show "C i = [] \<Longrightarrow> \<exists>q'. getc (Q i) P = Some (-1, q', P) \<and> queues P (Q(i := q')) C"
    using getc_queues [OF s, of i] by simp
  show "C i = c # cs \<Longrightarrow> 0 \<le> c \<and> c < 256 \<and>
      (\<exists>q' P'. getc (Q i) P = Some (c, q', P') \<and> queues P' (Q(i := q')) (C(i := cs)))" for cs
    using getc_queues [OF s, of i] by simp
qed

lemma q_to_b_queues:
  assumes "queues P Q C"
  shows "\<exists>q' P'. q_to_b (Q i) n P = Some (take n (C i), q', P') \<and>
           queues P' (Q(i := q')) (C(i := drop n (C i)))"
  using assms
proof (induction n arbitrary: P Q C)
  case 0
  then show ?case by (metis q_to_b.simps(1) take_0 drop_0 fun_upd_triv)
next
  case (Suc n)
  show ?case
  proof (cases "C i")
    case Nil
    with cq.get_nil [OF Suc.prems, of i] obtain q1 where g: "getc (Q i) P = Some (-1, q1, P)"
      "queues P (Q(i := q1)) C" by blast
    have "C(i := drop (Suc n) (C i)) = C" using Nil by (simp add: fun_upd_idem)
    with g have "queues P (Q(i := q1)) (C(i := drop (Suc n) (C i)))" by simp
    moreover have "q_to_b (Q i) (Suc n) P = Some (take (Suc n) (C i), q1, P)" using Nil g by simp
    ultimately show ?thesis by blast
  next
    case (Cons c cs)
    with cq.get_cons [OF Suc.prems] obtain q1 P1 where g: "0 \<le> c" "getc (Q i) P = Some (c, q1, P1)"
      "queues P1 (Q(i := q1)) (C(i := cs))" by blast
    from Suc.IH [OF g(3)] obtain q' P' where r: "q_to_b q1 n P1 = Some (take n cs, q', P')"
      "queues P' (Q(i := q')) (C(i := drop n cs))" unfolding fun_upd_same fun_upd_upd by blast
    then have "q_to_b (Q i) (Suc n) P = Some (take (Suc n) (C i), q', P')" using g(1,2) Cons by simp
    moreover have "queues P' (Q(i := q')) (C(i := drop (Suc n) (C i)))" using r(2) Cons by simp
    ultimately show ?thesis by blast
  qed
qed

lemma b_to_q_queues:
  assumes "queues P Q C"
  shows "\<exists>n q' P'. b_to_q cs (Q i) P = Some (n, q', P') \<and> n \<le> length cs \<and>
           queues P' (Q(i := q')) (C(i := C i @ map (\<lambda>c. c mod 256) (take (length cs - n) cs))) \<and>
           (0 < n \<longrightarrow> cfreelist P' = None)"
  using assms
proof (induction cs arbitrary: P Q C)
  case Nil
  then show ?case
    by (intro exI [of _ 0] exI [of _ "Q i"] exI [of _ P] conjI) (simp_all add: fun_upd_triv)
next
  case (Cons c cs)
  from putc_queues [OF Cons.prems, of c i] show ?case
  proof (elim disjE exE conjE)
    fix q1 P1
    assume g: "putc c (Q i) P = Some (0, q1, P1)" "queues P1 (Q(i := q1)) (C(i := C i @ [c mod 256]))"
    note IH = Cons.IH [OF g(2), unfolded fun_upd_same fun_upd_upd append_assoc append_Cons append_Nil]
    from IH obtain n q' P' where r: "b_to_q cs q1 P1 = Some (n, q', P')" "n \<le> length cs"
      "queues P' (Q(i := q')) (C(i := C i @ c mod 256 # map (\<lambda>c. c mod 256) (take (length cs - n) cs)))"
      "0 < n \<longrightarrow> cfreelist P' = None" by blast
    moreover have "take (length (c # cs) - n) (c # cs) = c # take (length cs - n) cs"
      using r(2) by (simp add: Suc_diff_le)
    ultimately have "b_to_q (c # cs) (Q i) P = Some (n, q', P')" "n \<le> length (c # cs)"
      "queues P' (Q(i := q')) (C(i := C i @ map (\<lambda>c. c mod 256) (take (length (c # cs) - n) (c # cs))))"
      using g(1) by simp_all
    with r(4) show ?thesis by blast
  next
    assume "putc c (Q i) P = Some (-1, Q i, P)" "cfreelist P = None"
    with Cons.prems show ?thesis
      by (intro exI [of _ "length (c # cs)"] exI [of _ "Q i"] exI [of _ P] conjI)
        (simp_all add: fun_upd_triv)
  qed
qed

lemma fold_free_path:
  "path P (cfreelist P) F \<Longrightarrow> distinct xs \<Longrightarrow> set xs \<inter> set F = {} \<Longrightarrow>
   path (fold free_block xs P) (cfreelist (fold free_block xs P)) (rev xs @ F)"
proof (induction xs arbitrary: P F)
  case (Cons x xs)
  have "path (free_block x P) (cfreelist P) F"
    using Cons.prems by (intro iffD2 [OF path_frame [of F "free_block x P" P]]) auto
  with Cons.prems Cons.IH [of "free_block x P" "x # F"] show ?case by simp
qed simp

abbreviation zero_clist :: clist where
  "zero_clist \<equiv> \<lparr>c_cc = 0, c_hd = None, c_tl = None, c_hix = 0, c_tix = 0\<rparr>"

abbreviation zero_cpool :: cpool where
  "zero_cpool \<equiv> \<lparr>cfree = (\<lambda>_. \<lparr>c_next = None, c_info = (\<lambda>_. 0)\<rparr>), cfreelist = None\<rparr>"

lemma cinit_queues: "queues (fst (cinit sw zero_cpool)) (\<lambda>_::'i. zero_clist) (\<lambda>_. [])"
proof -
  let ?P = "fold free_block [0 ..< NCLIST] zero_cpool"
  have "path ?P (cfreelist ?P) (rev [0 ..< NCLIST] @ [])" by (rule fold_free_path) simp_all
  then have "sysrep ?P (\<lambda>_::'i. zero_clist) (rev [0 ..< NCLIST]) (\<lambda>_. []) (\<lambda>_. [])"
    by (auto simp del: upt_rec_numeral simp: sysrep_def qrep_def)
  then show ?thesis unfolding queues_def cinit_def fst_conv by blast
qed

lemma cinit_free: "cfreelist (fst (cinit [] zero_cpool)) \<noteq> None"
proof -
  have "[0 ..< NCLIST] = [0 ..< 99] @ [99]" by (simp only: upt_Suc_append [symmetric]) simp
  then show ?thesis by (simp only: cinit_def fst_conv fold_append) simp
qed

subsection \<open>Properties\<close>

text \<open>
  C11: \<open>putc\<close> on one of any family of queues sharing the pool never follows a null pointer or
  leaves a block; it either appends exactly the character (as a byte) to that queue and
  leaves the contents of every other queue as they were, or returns -1 with nothing changed,
  and the latter only when the free list is empty.
\<close>

theorem putc_appends:
  assumes "queues P Q C"
  shows "(\<exists>q' P'. putc c (Q i) P = Some (0, q', P') \<and> queues P' (Q(i := q')) (C(i := C i @ [c mod 256])))
       \<or> putc c (Q i) P = Some (-1, Q i, P) \<and> cfreelist P = None"
  using assms by (rule putc_queues)

theorem putc_appends_witness:
  "(let P = fst (cinit [] zero_cpool); Q = (\<lambda>_::nat. zero_clist) in
    \<exists>q' P'. putc 300 (Q 0) P = Some (0, q', P') \<and> queues P' (Q(0 := q')) ((\<lambda>_. [])(0 := [44])))"
  using putc_appends [OF cinit_queues [of "[]"], of 300 "0::nat"] cinit_free by (auto simp: Let_def)

text \<open>
  C12: \<open>getc\<close> on one of any family of queues sharing the pool returns -1 exactly when that queue
  is empty, and otherwise removes and returns its oldest character, a value in 0..255; every
  other queue keeps its contents, and every block is still either free or owned by one queue.
\<close>

theorem getc_oldest:
  assumes "queues P Q C"
  shows "\<exists>c q' P' C'. getc (Q i) P = Some (c, q', P') \<and> queues P' (Q(i := q')) C' \<and>
    (c < 0 \<longleftrightarrow> C i = []) \<and> (c < 0 \<longrightarrow> C' = C) \<and>
    (0 \<le> c \<longrightarrow> C i = c # C' i \<and> (\<forall>j. j \<noteq> i \<longrightarrow> C' j = C j))"
  using assms by (rule cq.get_total)

theorem getc_oldest_witness:
  "\<exists>q P q' P'. putc 300 zero_clist (fst (cinit [] zero_cpool)) = Some (0, q, P) \<and> getc q P = Some (44, q', P')"
proof -
  let ?Q = "\<lambda>_::nat. zero_clist"
  obtain q P where q: "putc 300 zero_clist (fst (cinit [] zero_cpool)) = Some (0, q, P)"
    "queues P (?Q(0 := q)) ((\<lambda>_. [])(0 := [44]))"
    using putc_queues [OF cinit_queues [of "[]"], of 300 "0::nat"] cinit_free by auto
  obtain c q' P' where "getc q P = Some (c, q', P')" "c = 44"
    using getc_oldest [OF q(2), of 0] by auto
  with q(1) show ?thesis by blast
qed

text \<open>
  C13: copying a buffer into an empty queue with \<open>b_to_q\<close> and then the queue into a buffer with
  \<open>q_to_b\<close> gives back the characters that \<open>b_to_q\<close> reports as transferred, in order and as
  bytes; characters are refused only when the pool has run dry.
\<close>

theorem b_to_q_q_to_b:
  assumes "queues P Q C" and "C i = []"
  shows "\<exists>n q' P' q'' P''. b_to_q cs (Q i) P = Some (n, q', P') \<and> n \<le> length cs \<and>
           (0 < n \<longrightarrow> cfreelist P' = None) \<and>
           q_to_b q' (length cs) P' = Some (map (\<lambda>c. c mod 256) (take (length cs - n) cs), q'', P'') \<and>
           queues P'' (Q(i := q'')) C"
proof -
  let ?m = "\<lambda>n. map (\<lambda>c. c mod 256) (take (length cs - n) cs)"
  obtain n q' P' where b: "b_to_q cs (Q i) P = Some (n, q', P')" "n \<le> length cs"
    "queues P' (Q(i := q')) (C(i := ?m n))" "0 < n \<longrightarrow> cfreelist P' = None"
    using b_to_q_queues [OF assms(1), of cs i] assms(2) by auto
  obtain q'' P'' where "q_to_b q' (length cs) P' = Some (?m n, q'', P'')" "queues P'' (Q(i := q'')) (C(i := []))"
    using q_to_b_queues [OF b(3), of i "length cs"] by auto
  with b assms(2) show ?thesis by (metis fun_upd_triv)
qed

theorem b_to_q_q_to_b_witness:
  "\<exists>n q' P' q'' P''. b_to_q [1, 2] zero_clist (fst (cinit [] zero_cpool)) = Some (n, q', P') \<and>
     q_to_b q' (length [1, 2::int]) P' =
       Some (map (\<lambda>c. c mod 256) (take (length [1, 2::int] - n) [1, 2]), q'', P'')"
  using b_to_q_q_to_b [OF cinit_queues [of "[]"] refl, of "[1, 2]" "0::nat"] by blast

end
