(* ===== verification/State.thy ===== *)
theory State
  imports Machine Run Rmap Clist
begin

section \<open>The data of the kernel\<close>

text \<open>
  One record per structure of the headers under \<open>include/sys\<close>, and one record, \<open>kst\<close>, for the
  variables of the kernel.  Tables are functions from their index; a pointer into a table is
  the index, and a pointer that may be \<open>NULL\<close> is an option.  The flag words are sets of flags,
  except where a program sees the number (modes, terminal modes), which are integers.
\<close>

subsection \<open>Constants (include/sys/param.h)\<close>

abbreviation (input) NBUF :: nat where "NBUF \<equiv> 16"
abbreviation (input) NINODE :: nat where "NINODE \<equiv> 24"
abbreviation (input) NFILE :: nat where "NFILE \<equiv> 50"
abbreviation (input) NMOUNT :: nat where "NMOUNT \<equiv> 8"
abbreviation (input) NPROC :: nat where "NPROC \<equiv> 150"
abbreviation (input) NTEXT :: nat where "NTEXT \<equiv> 40"
abbreviation (input) NOFILE :: nat where "NOFILE \<equiv> 20"
abbreviation (input) NCALL :: nat where "NCALL \<equiv> 20"
abbreviation (input) MAXUPRC :: nat where "MAXUPRC \<equiv> 25"
abbreviation (input) NSIG :: nat where "NSIG \<equiv> 17"
abbreviation (input) PGSZ :: int where "PGSZ \<equiv> 1024"
abbreviation (input) NPAGE :: int where "NPAGE \<equiv> 32"
abbreviation (input) USTKPAGE :: int where "USTKPAGE \<equiv> 28"
abbreviation (input) USIZE :: int where "USIZE \<equiv> 1024"
abbreviation (input) MAXMEM :: int where "MAXMEM \<equiv> NPAGE * PGSZ"
abbreviation (input) SINCR :: int where "SINCR \<equiv> PGSZ"
abbreviation (input) SSIZE :: int where "SSIZE \<equiv> PGSZ"
abbreviation (input) HZ :: int where "HZ \<equiv> 250"
abbreviation (input) BSIZE :: int where "BSIZE \<equiv> 3072"
abbreviation (input) BSIZEW :: int where "BSIZEW \<equiv> 512"
abbreviation (input) NINDIR :: int where "NINDIR \<equiv> 512"
abbreviation (input) NICINOD :: int where "NICINOD \<equiv> 160"
abbreviation (input) NICFREE :: int where "NICFREE \<equiv> 320"
abbreviation (input) NADDR :: nat where "NADDR \<equiv> 8"
abbreviation (input) INOPB :: int where "INOPB \<equiv> 32"
abbreviation (input) ROOTINO :: int where "ROOTINO \<equiv> 2"
abbreviation (input) SUPERB :: int where "SUPERB \<equiv> 0"
abbreviation (input) NODEV :: int where "NODEV \<equiv> -1"
abbreviation (input) DIRSIZ :: nat where "DIRSIZ \<equiv> 18"
abbreviation (input) DIRENTSZ :: int where "DIRENTSZ \<equiv> 24"

abbreviation (input) PSWP :: int where "PSWP \<equiv> 0"
abbreviation (input) PINOD :: int where "PINOD \<equiv> 10"
abbreviation (input) PRIBIO :: int where "PRIBIO \<equiv> 20"
abbreviation (input) PZERO :: int where "PZERO \<equiv> 25"
abbreviation (input) NZERO :: int where "NZERO \<equiv> 20"
abbreviation (input) PPIPE :: int where "PPIPE \<equiv> 26"
abbreviation (input) PWAIT :: int where "PWAIT \<equiv> 30"
abbreviation (input) PSLEP :: int where "PSLEP \<equiv> 40"
abbreviation (input) PUSER :: int where "PUSER \<equiv> 50"

definition pground :: "int \<Rightarrow> int" where "pground x = (x + PGSZ - 1) AND NOT (PGSZ - 1)"
definition wtodb :: "int \<Rightarrow> int" where "wtodb x = drop_bit 9 x"
definition itod :: "int \<Rightarrow> int" where "itod x = drop_bit 5 (x + INOPB - 1)"
definition itoo :: "int \<Rightarrow> int" where "itoo x = (x + INOPB - 1) AND 31"
definition major :: "int \<Rightarrow> int" where "major x = drop_bit 8 x"
definition minor :: "int \<Rightarrow> int" where "minor x = x AND 255"
definition makedev :: "int \<Rightarrow> int \<Rightarrow> int" where "makedev x y = push_bit 8 x OR y"

subsection \<open>Error numbers\<close>

abbreviation (input) EPERM :: int where "EPERM \<equiv> 1"
abbreviation (input) ENOENT :: int where "ENOENT \<equiv> 2"
abbreviation (input) ESRCH :: int where "ESRCH \<equiv> 3"
abbreviation (input) EINTR :: int where "EINTR \<equiv> 4"
abbreviation (input) EIO :: int where "EIO \<equiv> 5"
abbreviation (input) ENXIO :: int where "ENXIO \<equiv> 6"
abbreviation (input) E2BIG :: int where "E2BIG \<equiv> 7"
abbreviation (input) ENOEXEC :: int where "ENOEXEC \<equiv> 8"
abbreviation (input) EBADF :: int where "EBADF \<equiv> 9"
abbreviation (input) ECHILD :: int where "ECHILD \<equiv> 10"
abbreviation (input) EAGAIN :: int where "EAGAIN \<equiv> 11"
abbreviation (input) ENOMEM :: int where "ENOMEM \<equiv> 12"
abbreviation (input) EACCES :: int where "EACCES \<equiv> 13"
abbreviation (input) EFAULT :: int where "EFAULT \<equiv> 14"
abbreviation (input) ENOTBLK :: int where "ENOTBLK \<equiv> 15"
abbreviation (input) EBUSY :: int where "EBUSY \<equiv> 16"
abbreviation (input) EEXIST :: int where "EEXIST \<equiv> 17"
abbreviation (input) EXDEV :: int where "EXDEV \<equiv> 18"
abbreviation (input) ENODEV :: int where "ENODEV \<equiv> 19"
abbreviation (input) ENOTDIR :: int where "ENOTDIR \<equiv> 20"
abbreviation (input) EISDIR :: int where "EISDIR \<equiv> 21"
abbreviation (input) EINVAL :: int where "EINVAL \<equiv> 22"
abbreviation (input) ENFILE :: int where "ENFILE \<equiv> 23"
abbreviation (input) EMFILE :: int where "EMFILE \<equiv> 24"
abbreviation (input) ENOTTY :: int where "ENOTTY \<equiv> 25"
abbreviation (input) ETXTBSY :: int where "ETXTBSY \<equiv> 26"
abbreviation (input) EFBIG :: int where "EFBIG \<equiv> 27"
abbreviation (input) ENOSPC :: int where "ENOSPC \<equiv> 28"
abbreviation (input) ESPIPE :: int where "ESPIPE \<equiv> 29"
abbreviation (input) EROFS :: int where "EROFS \<equiv> 30"
abbreviation (input) EMLINK :: int where "EMLINK \<equiv> 31"
abbreviation (input) EPIPE :: int where "EPIPE \<equiv> 32"

subsection \<open>Pointers and sleep channels\<close>

text \<open>A pointer to a buffer header: one of the pool, the head of the free list, the head of a
  block device's list (\<open>d_tab\<close>, by major number), a swap header, or a driver's raw header; \<open>Nobuf\<close> is the
  null pointer, which ends a driver's queue of requests.\<close>

datatype bufp = Nobuf | Buf nat | Bfreelist | Dtab nat | Swbuf1 | Swbuf2 | Rawbuf nat

text \<open>The objects whose addresses serve as sleep channels; \<open>Ch_inode i n\<close> is \<open>CHANOF(ip, n)\<close>.\<close>

datatype chan =
    Ch_runin | Ch_runout | Ch_lbolt | Ch_ipc | Ch_u
  | Ch_proc nat | Ch_inode nat nat | Ch_text nat | Ch_buf bufp
  | Ch_flock bufp | Ch_ilock bufp | Ch_rawq nat | Ch_outq nat

text \<open>The kernel objects that I/O moves bytes to and from, each an array of words; a core
  address is a byte address of the user's space or a byte offset into such an object.\<close>

datatype kobj = Kdata bufp | Kdent | Kexdata | Kacct | Kuser

datatype caddr = Uaddr int | Kaddr kobj int

definition ptradd :: "caddr \<Rightarrow> int \<Rightarrow> caddr" where
  "ptradd p n = (case p of Uaddr a \<Rightarrow> Uaddr (a + n) | Kaddr k a \<Rightarrow> Kaddr k (a + n))"

subsection \<open>Processes\<close>

datatype pstat = SNONE | SSLEEP | SWAIT | SRUN | SIDL | SZOMB | SSTOP
datatype pflag = SLOAD | SSYS | SLOCK | SSWAP | STRC | SWTED | SULOCK

record proc =
  p_stat :: pstat
  p_flag :: "pflag set"
  p_pri :: int
  p_time :: int
  p_cpu :: int
  p_nice :: int
  p_sig :: int
  p_uid :: int
  p_pgrp :: int
  p_pid :: int
  p_ppid :: int
  p_addr :: int
  p_size :: int
  p_wchan :: "chan option"
  p_textp :: "nat option"
  p_link :: "nat option"
  p_clktim :: int
  xp_xstat :: int
  xp_utime :: int
  xp_stime :: int

record user =
  u_segflg :: int
  u_error :: int
  u_uid :: int
  u_gid :: int
  u_ruid :: int
  u_rgid :: int
  u_procp :: nat
  u_val1 :: int
  u_val2 :: int
  u_base :: caddr
  u_count :: int
  u_offset :: int
  u_cdir :: nat
  u_rdir :: "nat option"
  u_dbuf :: "int \<Rightarrow> w48"
  u_dirp :: int
  u_dirk :: "int list"
  u_dent :: "int \<Rightarrow> w48"
  u_pdir :: "nat option"
  u_upt :: "nat \<Rightarrow> w48"
  u_ofile :: "nat \<Rightarrow> nat option"
  u_pofile :: "nat \<Rightarrow> bool"
  u_arg :: "nat \<Rightarrow> w48"
  u_tsize :: int
  u_dsize :: int
  u_ssize :: int
  u_signal :: "nat \<Rightarrow> int"
  u_utime :: int
  u_stime :: int
  u_cutime :: int
  u_cstime :: int
  u_ar0 :: "nat \<Rightarrow> w48"
  u_justreturn :: int
  u_ttyp :: "nat option"
  u_ttyd :: int
  u_exdata :: "int \<Rightarrow> w48"
  u_comm :: "int \<Rightarrow> w48"
  u_start :: int
  u_acflag :: int
  u_cmask :: int

text \<open>The traffic cell of \<open>ptrace\<close> (sig.c).\<close>

record ipc =
  ip_lock :: nat
  ip_req :: int
  ip_addr :: int
  ip_data :: int

subsection \<open>Buffers, inodes, files, texts\<close>

datatype bflag = B_READ | B_DONE | B_ERROR | B_BUSY | B_PHYS | B_WANTED | B_AGE | B_ASYNC | B_DELWRI | B_TAPE

record buf =
  b_flags :: "bflag set"
  b_forw :: bufp
  b_back :: bufp
  av_forw :: bufp
  av_back :: bufp
  b_dev :: int
  b_wcount :: int
  b_blkno :: int
  b_error :: int
  b_resid :: int
  b_data :: "int \<Rightarrow> w48"
  b_paddr :: int

record io_info =
  io_nbuf :: int
  io_nread :: int
  io_nreada :: int
  io_ncache :: int
  io_nwrite :: int
  io_bufcount :: "nat \<Rightarrow> int"

datatype iflag = ILOCK | IUPD | IACC | IMOUNT | IWANT | ITEXT | ICHG

record inode =
  i_flag :: "iflag set"
  i_count :: int
  i_dev :: int
  i_number :: int
  i_mode :: int
  i_nlink :: int
  i_uid :: int
  i_gid :: int
  i_size :: int
  i_addr :: "nat \<Rightarrow> int"
  i_lastr :: int

record mount =
  m_dev :: int
  m_bufp :: "bufp option"
  m_inodp :: "nat option"

datatype fflag = FREAD | FWRITE | FPIPE | FKERNEL

record filest =
  f_flag :: "fflag set"
  f_count :: int
  f_inode :: nat
  f_offset :: int

datatype xflag = XTRC | XWRIT | XLOAD | XLOCK | XWANT

record xtext =
  x_daddr :: int
  x_caddr :: int
  x_size :: int
  x_iptr :: "nat option"
  x_count :: int
  x_ccount :: int
  x_flag :: "xflag set"

record callo =
  c_time :: int
  c_arg :: int
  c_func :: "nat option"

subsection \<open>Terminals\<close>

datatype tstate = WOPEN | ISOPEN | FLUSH | CARR_ON | BUSY | ASLEEP | XCLUDE | TTSTOP | HUPCLS | TBLOCK

record tty =
  t_rawq :: clist
  t_canq :: clist
  t_outq :: clist
  t_oproc :: bool
  t_addr :: int
  t_dev :: int
  t_flags :: int
  t_state :: "tstate set"
  t_pgrp :: int
  t_delct :: int
  t_line :: int
  t_col :: int
  t_erase :: int
  t_kill :: int
  t_char :: int
  t_ispeed :: int
  t_ospeed :: int
  t_echoct :: int
  t_intrc :: int
  t_quitc :: int
  t_startc :: int
  t_stopc :: int
  t_eofc :: int
  t_brkc :: int

subsection \<open>The drivers\<close>

text \<open>The instructions 033 (devices) and 002 (interrupt registers), with the accumulator they are
  given.  What such an instruction reads is the hardware's answer to all issued so far.\<close>

datatype iocmd = Ext int w48 | Mod int w48

record mdst =
  mddone :: int
  mdnw :: int
  mdarm :: w48
  mderr :: int
  mdstatus :: int
  mdvol :: "nat \<Rightarrow> w48"
  mdretries :: int

record mbst =
  mbdone :: int
  mbnw :: int
  mbarm :: w48

subsection \<open>The kernel\<close>

text \<open>
  \<open>k_u\<close> is the live u-area, and \<open>k_uhome\<close> the address of the process image it belongs to, whose
  first page holds the copy made at the last switch.  \<open>k_rp\<close> and \<open>k_rz\<close> are the page and protection registers of the
  processor, which the kernel only writes.  \<open>k_log\<close> is what the kernel printed, newest first, and
  \<open>k_trace\<close> the instructions 033 and 002 it issued to the devices and to the interrupt registers.
\<close>

record kst =
  k_u :: user
  k_uhome :: int
  k_mem :: "int \<Rightarrow> w48"
  k_rp :: "nat \<Rightarrow> w48"
  k_rz :: "nat \<Rightarrow> w48"
  k_proc :: "nat \<Rightarrow> proc"
  k_slpque :: "nat \<Rightarrow> nat option"
  k_runq :: "nat option"
  k_mpid :: int
  k_coremap :: "mapent list"
  k_swapmap :: "mapent list"
  k_runin :: int
  k_runout :: int
  k_runrun :: int
  k_curpri :: int
  k_maxmem :: int
  k_nswapin :: int
  k_nswapout :: int
  k_ntextin :: int
  k_ntextout :: int
  k_ntextjoin :: int
  k_nswtch :: int
  k_niobulk :: int
  k_nioedge :: int
  k_nioshift :: int
  k_ipc :: ipc
  k_buf :: "bufp \<Rightarrow> buf"
  k_io :: io_info
  k_rablock :: int
  k_inode :: "nat \<Rightarrow> inode"
  k_mount :: "nat \<Rightarrow> mount"
  k_rootdir :: nat
  k_updlock :: int
  k_file :: "nat \<Rightarrow> filest"
  k_text :: "nat \<Rightarrow> xtext"
  k_callout :: "callo list"
  k_lbolt :: int
  k_time :: int
  k_dk_busy :: int
  k_dk_time :: "nat \<Rightarrow> int"
  k_idling :: int
  k_acctp :: "nat option"
  k_acctbuf :: "int \<Rightarrow> w48"
  k_cpool :: cpool
  k_tty :: "nat \<Rightarrow> tty"
  k_tk_nin :: int
  k_tk_nout :: int
  k_nsyscall :: int
  k_ntrap :: int
  k_nintr :: int
  k_mgrp :: w48
  k_mprp :: w48
  k_dk_numb :: "nat \<Rightarrow> int"
  k_dk_wds :: "nat \<Rightarrow> int"
  k_md :: mdst
  k_mb :: mbst
  k_trace :: "iocmd list"
  k_log :: "string list"

type_synonym 'a km = "kst \<Rightarrow> (kst, 'a) run"

text \<open>
  What the kernel is linked and configured with: the address of every sleep channel (the sleep
  queues hash it), the tables \<open>bdevsw\<close> and \<open>cdevsw\<close> (\<open>kernel/conf.c\<close>) with the entry points of the
  drivers, the words of a u-area as the compiler lays it out (\<open>e_uwords\<close>) with the way back (\<open>e_uread\<close>),
  those of the kernel's variables (\<open>e_kwords\<close>) with the name, word address and size in bytes of the
  ones \<open>kctl\<close> exports (\<open>e_ksym\<close>), the word of the signal trampoline, the index in the u-area
  of the saved registers (\<open>e_frame\<close>), the routines a timeout may call,
  and the number of turns allowed to a loop that waits for somebody else.  A
  strategy routine starts a transfer; its completion (\<open>iodone\<close>) may come at once or from an
  interrupt later.
\<close>

record env =
  e_addr :: "chan \<Rightarrow> int"
  e_fuel :: nat
  e_nblkdev :: int
  e_nchrdev :: int
  e_swapdev :: int
  e_rootdev :: int
  e_pipedev :: int
  e_swplo :: int
  e_nswap :: int
  e_dtab :: "int \<Rightarrow> bufp option"
  e_strategy :: "int \<Rightarrow> bufp \<Rightarrow> unit km"
  e_bopen :: "int \<Rightarrow> int \<Rightarrow> unit km"
  e_bclose :: "int \<Rightarrow> int \<Rightarrow> unit km"
  e_copen :: "int \<Rightarrow> int \<Rightarrow> unit km"
  e_cclose :: "int \<Rightarrow> int \<Rightarrow> unit km"
  e_uwords :: "user \<Rightarrow> int \<Rightarrow> w48"
  e_uread :: "(int \<Rightarrow> w48) \<Rightarrow> user"
  e_kwords :: "kst \<Rightarrow> int \<Rightarrow> w48"
  e_ksym :: "(string \<times> int \<times> int) list"
  e_sigcode :: w48
  e_frame :: int
  e_answer :: "iocmd list \<Rightarrow> w48"
  e_icode :: "w48 list"
  e_icodeaddr :: int
  e_callfn :: "nat \<Rightarrow> int \<Rightarrow> unit km"
  e_cread :: "int \<Rightarrow> unit km"
  e_cwrite :: "int \<Rightarrow> unit km"
  e_cioctl :: "int \<Rightarrow> int \<Rightarrow> int \<Rightarrow> int \<Rightarrow> unit km"

subsection \<open>Access\<close>

definition upd_u :: "(user \<Rightarrow> user) \<Rightarrow> kst \<Rightarrow> kst" where
  "upd_u f s = s\<lparr>k_u := f (k_u s)\<rparr>"

definition upd_proc :: "nat \<Rightarrow> (proc \<Rightarrow> proc) \<Rightarrow> kst \<Rightarrow> kst" where
  "upd_proc p f s = s\<lparr>k_proc := (k_proc s)(p := f (k_proc s p))\<rparr>"

definition upd_buf :: "bufp \<Rightarrow> (buf \<Rightarrow> buf) \<Rightarrow> kst \<Rightarrow> kst" where
  "upd_buf b f s = s\<lparr>k_buf := (k_buf s)(b := f (k_buf s b))\<rparr>"

definition upd_inode :: "nat \<Rightarrow> (inode \<Rightarrow> inode) \<Rightarrow> kst \<Rightarrow> kst" where
  "upd_inode i f s = s\<lparr>k_inode := (k_inode s)(i := f (k_inode s i))\<rparr>"

definition upd_file :: "nat \<Rightarrow> (filest \<Rightarrow> filest) \<Rightarrow> kst \<Rightarrow> kst" where
  "upd_file i f s = s\<lparr>k_file := (k_file s)(i := f (k_file s i))\<rparr>"

definition upd_text :: "nat \<Rightarrow> (xtext \<Rightarrow> xtext) \<Rightarrow> kst \<Rightarrow> kst" where
  "upd_text i f s = s\<lparr>k_text := (k_text s)(i := f (k_text s i))\<rparr>"

definition upd_mount :: "nat \<Rightarrow> (mount \<Rightarrow> mount) \<Rightarrow> kst \<Rightarrow> kst" where
  "upd_mount i f s = s\<lparr>k_mount := (k_mount s)(i := f (k_mount s i))\<rparr>"

definition upd_tty :: "nat \<Rightarrow> (tty \<Rightarrow> tty) \<Rightarrow> kst \<Rightarrow> kst" where
  "upd_tty i f s = s\<lparr>k_tty := (k_tty s)(i := f (k_tty s i))\<rparr>"

definition set_error :: "int \<Rightarrow> kst \<Rightarrow> kst" where
  "set_error e = upd_u (u_error_update (\<lambda>_. e))"

abbreviation uerr :: "kst \<Rightarrow> int" where
  "uerr s \<equiv> u_error (k_u s)"

definition klog :: "string \<Rightarrow> kst \<Rightarrow> kst" where
  "klog m s = s\<lparr>k_log := m # k_log s\<rparr>"

subsection \<open>The state before anything has run\<close>

definition proc0 :: proc where
  "proc0 = \<lparr>p_stat = SNONE, p_flag = {}, p_pri = 0, p_time = 0, p_cpu = 0, p_nice = 0, p_sig = 0, p_uid = 0,
     p_pgrp = 0, p_pid = 0, p_ppid = 0, p_addr = 0, p_size = 0, p_wchan = None, p_textp = None, p_link = None,
     p_clktim = 0, xp_xstat = 0, xp_utime = 0, xp_stime = 0\<rparr>"

definition user0 :: user where
  "user0 = \<lparr>u_segflg = 0, u_error = 0, u_uid = 0, u_gid = 0, u_ruid = 0, u_rgid = 0, u_procp = 0, u_val1 = 0,
     u_val2 = 0, u_base = Uaddr 0, u_count = 0, u_offset = 0, u_cdir = 0, u_rdir = None, u_dbuf = (\<lambda>_. 0),
     u_dirp = 0, u_dirk = [], u_dent = (\<lambda>_. 0), u_pdir = None, u_upt = (\<lambda>_. 0), u_ofile = (\<lambda>_. None),
     u_pofile = (\<lambda>_. False), u_arg = (\<lambda>_. 0), u_tsize = 0, u_dsize = 0, u_ssize = 0, u_signal = (\<lambda>_. 0),
     u_utime = 0, u_stime = 0, u_cutime = 0, u_cstime = 0, u_ar0 = (\<lambda>_. 0), u_justreturn = 0, u_ttyp = None,
     u_ttyd = 0, u_exdata = (\<lambda>_. 0), u_comm = (\<lambda>_. 0), u_start = 0, u_acflag = 0, u_cmask = 0\<rparr>"

definition buf0 :: buf where
  "buf0 = \<lparr>b_flags = {}, b_forw = Bfreelist, b_back = Bfreelist, av_forw = Bfreelist, av_back = Bfreelist,
     b_dev = NODEV, b_wcount = 0, b_blkno = 0, b_error = 0, b_resid = 0, b_data = (\<lambda>_. 0), b_paddr = 0\<rparr>"

definition inode0 :: inode where
  "inode0 = \<lparr>i_flag = {}, i_count = 0, i_dev = 0, i_number = 0, i_mode = 0, i_nlink = 0, i_uid = 0, i_gid = 0,
     i_size = 0, i_addr = (\<lambda>_. 0), i_lastr = 0\<rparr>"

definition tty0 :: tty where
  "tty0 = \<lparr>t_rawq = zero_clist, t_canq = zero_clist, t_outq = zero_clist, t_oproc = False, t_addr = 0, t_dev = 0, t_flags = 0,
     t_state = {}, t_pgrp = 0, t_delct = 0, t_line = 0, t_col = 0, t_erase = 0, t_kill = 0, t_char = 0, t_ispeed = 0,
     t_ospeed = 0, t_echoct = 0, t_intrc = 0, t_quitc = 0, t_startc = 0, t_stopc = 0, t_eofc = 0, t_brkc = 0\<rparr>"

definition kst0 :: kst where
  "kst0 = \<lparr>k_u = user0, k_uhome = 0, k_mem = (\<lambda>_. 0), k_rp = (\<lambda>_. 0), k_rz = (\<lambda>_. 0),
     k_proc = (\<lambda>_. proc0), k_slpque = (\<lambda>_. None), k_runq = None, k_mpid = 0, k_coremap = [], k_swapmap = [],
     k_runin = 0, k_runout = 0, k_runrun = 0, k_curpri = 0, k_maxmem = MAXMEM, k_nswapin = 0, k_nswapout = 0,
     k_ntextin = 0, k_ntextout = 0, k_ntextjoin = 0, k_nswtch = 0, k_niobulk = 0, k_nioedge = 0,
     k_nioshift = 0, k_ipc = \<lparr>ip_lock = 0, ip_req = 0, ip_addr = 0, ip_data = 0\<rparr>, k_buf = (\<lambda>_. buf0),
     k_io = \<lparr>io_nbuf = 0, io_nread = 0, io_nreada = 0, io_ncache = 0, io_nwrite = 0, io_bufcount = (\<lambda>_. 0)\<rparr>,
     k_rablock = 0, k_inode = (\<lambda>_. inode0), k_mount = (\<lambda>_. \<lparr>m_dev = 0, m_bufp = None, m_inodp = None\<rparr>),
     k_rootdir = 0, k_updlock = 0,
     k_file = (\<lambda>_. \<lparr>f_flag = {}, f_count = 0, f_inode = 0, f_offset = 0\<rparr>),
     k_text = (\<lambda>_. \<lparr>x_daddr = 0, x_caddr = 0, x_size = 0, x_iptr = None, x_count = 0, x_ccount = 0, x_flag = {}\<rparr>),
     k_callout = replicate NCALL \<lparr>c_time = 0, c_arg = 0, c_func = None\<rparr>, k_lbolt = 0, k_time = 0,
     k_dk_busy = 0, k_dk_time = (\<lambda>_. 0), k_idling = 0, k_acctp = None, k_acctbuf = (\<lambda>_. 0),
     k_cpool = zero_cpool, k_tty = (\<lambda>_. tty0), k_tk_nin = 0, k_tk_nout = 0, k_nsyscall = 0,
     k_ntrap = 0, k_nintr = 0, k_mgrp = 0, k_mprp = 0, k_dk_numb = (\<lambda>_. 0), k_dk_wds = (\<lambda>_. 0),
     k_md = \<lparr>mddone = 0, mdnw = 0, mdarm = 0, mderr = 0, mdstatus = 0, mdvol = (\<lambda>_. 0), mdretries = 0\<rparr>,
     k_mb = \<lparr>mbdone = 0, mbnw = 0, mbarm = 0\<rparr>, k_trace = [], k_log = []\<rparr>"

definition env0 :: env where
  "env0 = \<lparr>e_addr = (\<lambda>_. 0), e_fuel = 100, e_nblkdev = 2, e_nchrdev = 5, e_swapdev = 256, e_rootdev = 0,
     e_pipedev = 0, e_swplo = 0, e_nswap = 1024, e_dtab = (\<lambda>m. if m = 0 then Some (Dtab 0) else if m = 1 then Some (Dtab 1) else None),
     e_strategy = (\<lambda>_ _. ret ()), e_bopen = (\<lambda>_ _. ret ()), e_bclose = (\<lambda>_ _. ret ()), e_copen = (\<lambda>_ _. ret ()),
     e_cclose = (\<lambda>_ _. ret ()), e_uwords = (\<lambda>_ _. 0), e_uread = (\<lambda>_. user0), e_kwords = (\<lambda>_ _. 0), e_ksym = [], e_sigcode = 0, e_frame = 0,
     e_answer = (\<lambda>_. 0), e_icode = [], e_icodeaddr = 0, e_callfn = (\<lambda>_ _. ret ()), e_cread = (\<lambda>_. ret ()), e_cwrite = (\<lambda>_. ret ()), e_cioctl = (\<lambda>_ _ _ _. ret ())\<rparr>"

lemmas upd_defs = upd_u_def upd_proc_def upd_buf_def upd_inode_def upd_file_def upd_text_def
  upd_mount_def upd_tty_def set_error_def klog_def

end
