(* ===== verification/Mmu.thy ===== *)
theory Mmu
  imports State
begin

section \<open>The address space of a process (kernel/utab.c)\<close>

text \<open>
  Thirty-two virtual pages of 1024 words are described by the eight words \<open>u_upt\<close>: word \<open>i\<close>
  holds the physical page numbers of pages \<open>4 * i\<close> to \<open>4 * i + 3\<close>, scattered over bits by the
  \<open>aux\<close> instruction, and each even word the protection bits of eight pages.  \<open>sureg\<close> builds the
  words from the sizes of text, data and stack; the others read them back.  Storing behind
  the end of the local array \<open>pg\<close> of \<open>sureg\<close> is a failure (\<open>None\<close>).
\<close>

abbreviation (input) PGBITS :: nat where "PGBITS \<equiv> 10"

definition RPBITS :: "nat \<Rightarrow> w48" where
  "RPBITS k = push_bit (44 + k) 1 OR push_bit (40 + k) 1 OR push_bit (36 + k) 1 OR push_bit (32 + k) 1
     OR push_bit (28 + k) 1 OR push_bit (5 * k) 31"

definition rpmask :: "nat \<Rightarrow> w48" where
  "rpmask k = RPBITS k"

definition uptget :: "(nat \<Rightarrow> w48) \<Rightarrow> nat \<Rightarrow> w48" where
  "uptget um v = drop_bit (48 - PGBITS) (apx (um (v div 4)) (rpmask (v mod 4)))"

text \<open>One of the three mapping loops of \<open>sureg\<close>: map the pages from address \<open>a\<close> up to \<open>lim\<close> at
  virtual pages \<open>v\<close>, \<open>v + 1\<close>, ...\<close>

function map_run :: "int \<Rightarrow> int \<Rightarrow> nat \<Rightarrow> w48 list \<Rightarrow> w48 \<Rightarrow> (int \<times> nat \<times> w48 list \<times> w48) option" where
  "map_run a lim v pg prot =
     (if a < lim then
        if v < length pg
        then map_run (a + PGSZ) lim (Suc v) (pg[v := word_of_int (drop_bit 10 a)]) (unset_bit v prot)
        else None
      else Some (a, v, pg, prot))"
  by pat_completeness auto
termination by (relation "measure (\<lambda>(a, lim, v, pg, prot). nat (lim - a))") auto

declare map_run.simps [simp del]

definition sureg_pages :: "int \<Rightarrow> int \<Rightarrow> int \<Rightarrow> int \<Rightarrow> int \<Rightarrow> (w48 list \<times> w48) option" where
  "sureg_pages taddr daddr tsize dsize ssize =
     (case map_run taddr (taddr + tsize) 0 (replicate (nat NPAGE) 0) (NOT 0) of
        None \<Rightarrow> None
      | Some (_, v, pg, prot) \<Rightarrow>
          (case map_run (daddr + USIZE) (daddr + USIZE + dsize) v pg prot of
             None \<Rightarrow> None
           | Some (a, _, pg, prot) \<Rightarrow>
               (case map_run a (daddr + USIZE + dsize + ssize) (nat USTKPAGE) pg prot of
                  None \<Rightarrow> None
                | Some (_, _, pg, prot) \<Rightarrow> Some (pg, prot))))"

definition upt_word :: "w48 list \<Rightarrow> w48 \<Rightarrow> nat \<Rightarrow> w48" where
  "upt_word pg prot i =
     fold (\<lambda>k w. w OR aux (push_bit (48 - PGBITS) (pg ! (4 * i + k))) (rpmask k)) [0, 1, 2, 3] 0
       OR (if even i then push_bit 20 (take_bit 8 (drop_bit (4 * i) prot)) else 0)"

definition sureg :: "kst \<Rightarrow> kst option" where
  "sureg s =
     (let u = k_u s; p = k_proc s (u_procp u); daddr = p_addr p;
          taddr = (case p_textp p of None \<Rightarrow> daddr | Some tp \<Rightarrow> x_caddr (k_text s tp))
      in case sureg_pages taddr daddr (u_tsize u) (u_dsize u) (u_ssize u) of
           None \<Rightarrow> None
         | Some (pg, prot) \<Rightarrow>
             let um = (\<lambda>i. if i < 8 then upt_word pg prot i else u_upt u i)
             in Some (s\<lparr>k_u := u\<lparr>u_upt := um\<rparr>,
                        k_rp := (\<lambda>i. if i < 8 then um i else k_rp s i),
                        k_rz := (\<lambda>i. if i < 4 then um (2 * i) else k_rz s i)\<rparr>))"

definition estabur :: "int \<Rightarrow> int \<Rightarrow> int \<Rightarrow> kst \<Rightarrow> (int \<times> kst) option" where
  "estabur nt nd ns s =
     (if nt + nd + ns > MAXMEM \<or> nt + nd > USTKPAGE * PGSZ \<or> ns > (NPAGE - USTKPAGE) * PGSZ \<or>
         nt + nd + ns + USIZE > k_maxmem s
      then Some (-1, set_error ENOMEM s)
      else map_option (\<lambda>s'. (0, s')) (sureg (upd_u (\<lambda>u. u\<lparr>u_tsize := nt, u_dsize := nd, u_ssize := ns\<rparr>) s)))"

definition physaddr :: "(nat \<Rightarrow> w48) \<Rightarrow> int \<Rightarrow> int" where
  "physaddr um addr =
     (let pgno = uptget um (nat (drop_bit 10 addr))
      in if pgno = 0 then 0 else push_bit 10 (uint pgno) OR (addr AND (PGSZ - 1)))"

definition useracc :: "(nat \<Rightarrow> w48) \<Rightarrow> int \<Rightarrow> int \<Rightarrow> bool" where
  "useracc um addr count =
     (if count = 0 then True
      else if addr + count > NPAGE * PGSZ \<or> addr + count < addr then False
      else list_all (\<lambda>v. uptget um v \<noteq> 0)
             [nat (drop_bit 10 addr) ..< Suc (nat (drop_bit 10 (addr + count - 1)))])"

definition physrange :: "(nat \<Rightarrow> w48) \<Rightarrow> int \<Rightarrow> int \<Rightarrow> int" where
  "physrange um addr count =
     (if count = 0 \<or> \<not> useracc um addr count then 0
      else let first = nat (drop_bit 10 addr); last' = nat (drop_bit 10 (addr + count - 1))
           in if list_all (\<lambda>v. uptget um v = uptget um first + of_nat (v - first)) [Suc first ..< Suc last']
              then physaddr um addr else 0)"

subsection \<open>Packing and unpacking page numbers\<close>

definition pgpos :: "nat \<Rightarrow> nat list" where
  "pgpos k = [5 * k, 5 * k + 1, 5 * k + 2, 5 * k + 3, 5 * k + 4, 28 + k, 32 + k, 36 + k, 40 + k, 44 + k]"

lemma length_pgpos [simp]: "length (pgpos k) = 10"
  by (simp add: pgpos_def)

lemma sel_filter: "sel m = filter (bit m) [0 ..< 48]"
proof (induction m rule: sel.induct)
  case (1 m)
  show ?case
  proof (cases "m = 0")
    case False
    have "map Suc (sel (drop_bit 1 m)) = map Suc (filter (bit m \<circ> Suc) [0 ..< 48])"
      using 1 [OF False] by (simp add: bit_drop_bit_eq comp_def)
    also have "\<dots> = filter (bit m) [1 ..< Suc 48]"
      by (simp only: filter_map [symmetric] map_Suc_upt) simp
    also have "\<dots> = filter (bit m) [1 ..< 48]"
      by (simp only: upt_Suc_append [of 1 48] filter_append) simp
    finally have "sel m = filter (bit m) (0 # [1 ..< 48])"
      using False by (simp add: sel.simps [of m])
    then show ?thesis using upt_conv_Cons [of 0 48] by simp
  qed (simp add: sel.simps [of 0])
qed

lemma bit_rpmask: "k < 4 \<Longrightarrow> bit (rpmask k) n \<longleftrightarrow> n \<in> set (pgpos k)"
proof -
  assume k: "k < 4"
  have "bit (push_bit (5 * k) 31 :: w48) n \<longleftrightarrow> 5 * k \<le> n \<and> n < 5 * k + 5"
    using k bit_mask_iff [of 5 "n - 5 * k", where 'a = "48 word"]
    by (auto simp: bit_push_bit_iff mask_eq_exp_minus_1)
  moreover have "bit (push_bit (c + k) 1 :: w48) n \<longleftrightarrow> n = c + k" if "c < 45" for c
    using k that by (auto simp: bit_exp_iff)
  ultimately show ?thesis
    by (auto simp: rpmask_def RPBITS_def bit_or_iff pgpos_def)
qed

lemma sel_rpmask: "k < 4 \<Longrightarrow> sel (rpmask k) = pgpos k"
proof -
  assume "k < 4"
  then have k: "k = 0 \<or> k = 1 \<or> k = 2 \<or> k = 3" by auto
  have "sel (rpmask k) = filter (\<lambda>n. n \<in> set (pgpos k)) [0 ..< 48]"
    unfolding sel_filter by (rule filter_cong) (auto simp: bit_rpmask [OF \<open>k < 4\<close>])
  moreover have "[0 ..< 48] = (0::nat) # 1 # [2 ..< 48]"
    using upt_conv_Cons [of 0 48] upt_conv_Cons [of 1 48] by (simp add: numeral_2_eq_2)
  ultimately show ?thesis using k by (elim disjE; simp add: pgpos_def)
qed

lemma above_sel: "above m p = length (filter (\<lambda>n. p \<le> n) (sel m))"
proof -
  have "[n \<leftarrow> [0 ..< 48]. p \<le> n] = [p ..< 48]" for p :: nat
  proof (induction p)
    case (Suc p)
    have "[n \<leftarrow> [0 ..< 48]. Suc p \<le> n] = [n \<leftarrow> [n \<leftarrow> [0 ..< 48]. p \<le> n]. n \<noteq> p]"
      by (simp only: filter_filter) (rule filter_cong, auto)
    also have "\<dots> = [n \<leftarrow> [p ..< 48]. n \<noteq> p]" by (simp only: Suc.IH)
    also have "\<dots> = [Suc p ..< 48]"
      by (cases "p < 48") (simp_all add: upt_conv_Cons filter_id_conv del: upt_rec_numeral)
    finally show ?case .
  qed (simp del: upt_rec_numeral)
  then have "[p ..< 48] = [n \<leftarrow> [0 ..< 48]. p \<le> n]" by (rule sym)
  then show ?thesis
    by (simp only: above_def sel_filter filter_filter) (rule arg_cong [where f = length], rule filter_cong, auto)
qed

lemma above_rpmask:
  assumes "k < 4" "j < 10"
  shows "above (rpmask k) (Suc (pgpos k ! j)) = 9 - j"
proof -
  have j: "j = 0 \<or> j = 1 \<or> j = 2 \<or> j = 3 \<or> j = 4 \<or> j = 5 \<or> j = 6 \<or> j = 7 \<or> j = 8 \<or> j = 9"
    using assms by presburger
  have k: "k = 0 \<or> k = 1 \<or> k = 2 \<or> k = 3" using assms by linarith
  have "above (rpmask k) (Suc (pgpos k ! j)) = length (filter (\<lambda>n. Suc (pgpos k ! j) \<le> n) (pgpos k))"
    using assms by (simp add: above_sel sel_rpmask)
  also have "\<dots> = 9 - j" using k j by (elim disjE; simp add: pgpos_def)
  finally show ?thesis .
qed

lemma pgpos_cases:
  assumes "k < 4" "j < 10"
  shows "pgpos k ! j < 48 \<and> \<not> (20 \<le> pgpos k ! j \<and> pgpos k ! j < 28)"
    and "k' < 4 \<Longrightarrow> pgpos k ! j \<in> set (pgpos k') \<longleftrightarrow> k' = k"
proof -
  have j: "j = 0 \<or> j = 1 \<or> j = 2 \<or> j = 3 \<or> j = 4 \<or> j = 5 \<or> j = 6 \<or> j = 7 \<or> j = 8 \<or> j = 9"
    using assms by presburger
  have k: "k = 0 \<or> k = 1 \<or> k = 2 \<or> k = 3" using assms by linarith
  show "pgpos k ! j < 48 \<and> \<not> (20 \<le> pgpos k ! j \<and> pgpos k ! j < 28)"
    using k j by (elim disjE; simp add: pgpos_def)
  assume "k' < 4"
  then have "k' = 0 \<or> k' = 1 \<or> k' = 2 \<or> k' = 3" by linarith
  with k j show "pgpos k ! j \<in> set (pgpos k') \<longleftrightarrow> k' = k"
    by (elim disjE; simp add: pgpos_def)
qed

lemma bit_aux_page:
  assumes "k < 4" "j < 10" "k' < 4"
  shows "bit (aux (push_bit 38 p) (rpmask k')) (pgpos k ! j) \<longleftrightarrow> k' = k \<and> bit p j"
  using assms pgpos_cases [OF assms(1,2)]
  by (auto simp: bit_aux bit_rpmask above_rpmask bit_push_bit_iff)

lemma uptget_word:
  assumes pg: "\<And>k. k < 4 \<Longrightarrow> pg ! (4 * i + k) < 1024" and k: "k < 4"
  shows "drop_bit 38 (apx (upt_word pg prot i) (rpmask k)) = pg ! (4 * i + k)"
proof (rule bit_word_eqI)
  fix n assume "n < LENGTH(48)"
  have b: "bit (upt_word pg prot i) (pgpos k ! j) = bit (pg ! (4 * i + k)) j" if "j < 10" for j
  proof -
    have "\<not> bit (push_bit 20 (take_bit 8 (drop_bit (4 * i) prot)) :: w48) (pgpos k ! j)"
      using pgpos_cases [OF k that] by (auto simp: bit_push_bit_iff bit_take_bit_iff)
    moreover have "bit (aux (push_bit 38 (pg ! (4 * i + k'))) (rpmask k')) (pgpos k ! j) \<longleftrightarrow>
        k' = k \<and> bit (pg ! (4 * i + k')) j" if "k' < 4" for k'
      using k \<open>j < 10\<close> that by (rule bit_aux_page)
    note this [of 0] this [of 1] this [of 2] this [of 3]
    moreover have "k = 0 \<or> k = 1 \<or> k = 2 \<or> k = 3" using k by linarith
    ultimately show ?thesis
      by (elim disjE) (simp_all add: upt_word_def bit_or_iff)
  qed
  have small: "\<not> bit (pg ! (4 * i + k)) n" if "10 \<le> n"
  proof -
    have "uint (pg ! (4 * i + k)) < 2 ^ 10" using pg [OF k] by (simp add: word_less_def)
    then have "take_bit 10 (uint (pg ! (4 * i + k))) = uint (pg ! (4 * i + k))"
      by (simp add: take_bit_int_eq_self)
    then have "\<not> bit (uint (pg ! (4 * i + k))) n"
      using that bit_take_bit_iff [of 10 "uint (pg ! (4 * i + k))" n] by simp
    then show ?thesis using \<open>n < LENGTH(48)\<close> by (simp add: bit_uint_iff)
  qed
  show "bit (drop_bit 38 (apx (upt_word pg prot i) (rpmask k))) n = bit (pg ! (4 * i + k)) n"
  proof (cases "n < 10")
    case True
    then show ?thesis using k b [OF True]
      by (simp add: bit_drop_bit_eq bit_apx sel_rpmask)
  next
    case False
    with small bit_imp_le_length [of "apx (upt_word pg prot i) (rpmask k)" "38 + n"]
    show ?thesis by (auto simp: bit_drop_bit_eq)
  qed
qed

subsection \<open>The map \<open>sureg\<close> builds\<close>

text \<open>\<open>pg'\<close> and \<open>prot'\<close> are \<open>pg\<close> and \<open>prot\<close> with \<open>n\<close> pages from \<open>p\<close> opened at \<open>v\<close>.\<close>

definition fills :: "nat \<Rightarrow> nat \<Rightarrow> int \<Rightarrow> w48 list \<Rightarrow> w48 \<Rightarrow> w48 list \<Rightarrow> w48 \<Rightarrow> bool" where
  "fills v n p pg prot pg' prot' \<longleftrightarrow> length pg' = length pg \<and>
     (\<forall>w. pg' ! w = (if v \<le> w \<and> w < v + n then word_of_int (p + int (w - v)) else pg ! w)) \<and>
     (\<forall>w. bit prot' w \<longleftrightarrow> bit prot w \<and> \<not> (v \<le> w \<and> w < v + n))"

lemma fills_Suc:
  assumes "fills (Suc v) n (p + 1) (pg[v := word_of_int p]) (unset_bit v prot) pg' prot'" "v < length pg"
  shows "fills v (Suc n) p pg prot pg' prot'"
proof -
  have "pg' ! w = (if v \<le> w \<and> w < v + Suc n then word_of_int (p + int (w - v)) else pg ! w)" for w
  proof -
    consider "w = v" | "Suc v \<le> w" | "w < v" by linarith
    then show ?thesis
      by cases (use assms in \<open>auto simp: fills_def of_nat_diff\<close>)
  qed
  moreover have "bit prot' w \<longleftrightarrow> bit prot w \<and> \<not> (v \<le> w \<and> w < v + Suc n)" for w
    using assms by (auto simp: fills_def bit_unset_bit_iff)
  ultimately show ?thesis using assms by (simp add: fills_def)
qed

lemma map_run_aligned:
  "v + n \<le> length pg \<Longrightarrow> lim = PGSZ * p + PGSZ * int n \<Longrightarrow>
   \<exists>pg' prot'. map_run (PGSZ * p) lim v pg prot = Some (lim, v + n, pg', prot') \<and> fills v n p pg prot pg' prot'"
proof (induction n arbitrary: p v pg prot)
  case 0
  then show ?case by (subst map_run.simps) (auto simp: fills_def)
next
  case (Suc n)
  let ?pg = "pg[v := word_of_int p]"
  from Suc.prems obtain pg' prot' where
    r: "map_run (PGSZ * (p + 1)) lim (Suc v) ?pg (unset_bit v prot) = Some (lim, Suc v + n, pg', prot')"
      "fills (Suc v) n (p + 1) ?pg (unset_bit v prot) pg' prot'"
    using Suc.IH [of "Suc v" ?pg "p + 1" "unset_bit v prot"] by auto
  have "drop_bit 10 (PGSZ * p) = p" by (simp add: drop_bit_eq_div)
  then have "map_run (PGSZ * p) lim v pg prot = Some (lim, v + Suc n, pg', prot')"
    using r(1) Suc.prems by (subst map_run.simps) (simp add: algebra_simps)
  with fills_Suc [OF r(2)] Suc.prems show ?case by auto
qed

text \<open>The physical page a virtual page stands for, from the sizes in pages: text at \<open>tp\<close>, data at
  \<open>dp\<close>, then the stack.\<close>

definition page_of :: "int \<Rightarrow> int \<Rightarrow> nat \<Rightarrow> nat \<Rightarrow> nat \<Rightarrow> nat \<Rightarrow> int" where
  "page_of tp dp nt nd ns v =
     (if v < nt then tp + int v
      else if v < nt + nd then dp + int (v - nt)
      else if 28 \<le> v \<and> v < 28 + ns then dp + int nd + int (v - 28)
      else 0)"

lemma sureg_pages_ok:
  assumes "nt + nd \<le> 28" "ns \<le> 4"
  shows "\<exists>pg prot. sureg_pages (PGSZ * tp) (PGSZ * dp) (PGSZ * int nt) (PGSZ * int nd) (PGSZ * int ns) = Some (pg, prot) \<and>
     length pg = 32 \<and> (\<forall>v<32. pg ! v = word_of_int (page_of tp (dp + 1) nt nd ns v)) \<and>
     (\<forall>v<32. bit prot v \<longleftrightarrow> \<not> (v < nt + nd \<or> 28 \<le> v \<and> v < 28 + ns))"
proof -
  let ?d = "PGSZ * (dp + 1)" and ?e = "PGSZ * (dp + 1 + int nd)"
  obtain pg1 pr1 where r1: "map_run (PGSZ * tp) (PGSZ * tp + PGSZ * int nt) 0 (replicate 32 0) (NOT 0) =
      Some (PGSZ * tp + PGSZ * int nt, 0 + nt, pg1, pr1)" and f1: "fills 0 nt tp (replicate 32 0) (NOT 0) pg1 pr1"
    using map_run_aligned [of 0 nt "replicate 32 0" _ tp "NOT 0"] assms by auto
  obtain pg2 pr2 where r2: "map_run ?d (?d + PGSZ * int nd) nt pg1 pr1 =
      Some (?d + PGSZ * int nd, nt + nd, pg2, pr2)" and f2: "fills nt nd (dp + 1) pg1 pr1 pg2 pr2"
    using map_run_aligned [of nt nd pg1 _ "dp + 1" pr1] assms f1 by (auto simp: fills_def)
  obtain pg3 pr3 where r3: "map_run ?e (?e + PGSZ * int ns) 28 pg2 pr2 =
      Some (?e + PGSZ * int ns, 28 + ns, pg3, pr3)" and f3: "fills 28 ns (dp + 1 + int nd) pg2 pr2 pg3 pr3"
    using map_run_aligned [of 28 ns pg2 _ "dp + 1 + int nd" pr2] assms f1 f2 by (auto simp: fills_def)
  have eq: "PGSZ * dp + USIZE = ?d" "?d + PGSZ * int nd = ?e" by (simp_all add: algebra_simps)
  have "sureg_pages (PGSZ * tp) (PGSZ * dp) (PGSZ * int nt) (PGSZ * int nd) (PGSZ * int ns) = Some (pg3, pr3)"
    using r1 r2 r3 unfolding sureg_pages_def eq by simp
  moreover have "\<forall>v<32. pg3 ! v = word_of_int (page_of tp (dp + 1) nt nd ns v)"
    using assms f1 f2 f3 by (auto simp: page_of_def fills_def)
  moreover have "\<forall>v<32. bit pr3 v \<longleftrightarrow> \<not> (v < nt + nd \<or> 28 \<le> v \<and> v < 28 + ns)"
    using assms f1 f2 f3 by (auto simp: fills_def bit_not_iff)
  moreover have "length pg3 = 32" using f1 f2 f3 by (simp add: fills_def)
  ultimately show ?thesis by blast
qed

lemma uptget_pages:
  assumes "length pg = 32" "\<forall>v<32. pg ! v < 1024" "v < 32" "\<And>i. i < 8 \<Longrightarrow> um i = upt_word pg prot i"
  shows "uptget um v = pg ! v"
proof -
  have v: "v div 4 < 8" "4 * (v div 4) + v mod 4 = v" using assms(3) by auto
  have "drop_bit 38 (apx (upt_word pg prot (v div 4)) (rpmask (v mod 4))) = pg ! (4 * (v div 4) + v mod 4)"
    by (rule uptget_word) (use assms(2) v in auto)
  with assms(4) v show ?thesis by (simp add: uptget_def)
qed

lemma bit_protection:
  assumes "j < 4" "b < 8"
  shows "bit (upt_word pg prot (2 * j)) (20 + b) \<longleftrightarrow> bit prot (8 * j + b)"
proof -
  have "\<not> bit (aux w (rpmask k)) (20 + b)" if "k < 4" for k w
  proof -
    have "20 + b \<notin> set (pgpos k)" using that assms by (auto simp: pgpos_def)
    then show ?thesis using assms that by (simp add: bit_aux bit_rpmask)
  qed
  from this [of 0] this [of 1] this [of 2] this [of 3] show ?thesis
    using assms by (simp add: upt_word_def bit_or_iff bit_push_bit_iff bit_take_bit_iff bit_drop_bit_eq)
qed

text \<open>A process image: its head at page \<open>dp\<close>, its text at page \<open>tp\<close> (the image itself when the
  text is not shared).\<close>

definition image_at :: "int \<Rightarrow> int \<Rightarrow> kst \<Rightarrow> bool" where
  "image_at tp dp s \<longleftrightarrow>
     (let p = k_proc s (u_procp (k_u s)) in
      p_addr p = PGSZ * dp \<and>
      PGSZ * tp = (case p_textp p of None \<Rightarrow> p_addr p | Some x \<Rightarrow> x_caddr (k_text s x)))"

text \<open>What the memory map must be for an image of \<open>nt\<close>, \<open>nd\<close> and \<open>ns\<close> pages.\<close>

definition maps_image :: "int \<Rightarrow> int \<Rightarrow> nat \<Rightarrow> nat \<Rightarrow> nat \<Rightarrow> kst \<Rightarrow> bool" where
  "maps_image tp dp nt nd ns s \<longleftrightarrow>
     (\<forall>v<32. uptget (u_upt (k_u s)) v = word_of_int (page_of tp (dp + 1) nt nd ns v)) \<and>
     (\<forall>i<8. k_rp s i = u_upt (k_u s) i) \<and>
     (\<forall>v<32. bit (k_rz s (v div 8)) (20 + v mod 8) \<longleftrightarrow> \<not> (v < nt + nd \<or> 28 \<le> v \<and> v < 28 + ns))"

lemma page_of_bounds:
  assumes "0 \<le> tp" "tp + int nt \<le> 1024" "0 \<le> dp" "dp + int nd + int ns \<le> 1024"
  shows "0 \<le> page_of tp dp nt nd ns v \<and> page_of tp dp nt nd ns v < 1024"
  using assms by (auto simp: page_of_def)

lemma sureg_ok:
  assumes img: "image_at tp dp s" and sz: "nt + nd \<le> 28" "ns \<le> 4"
    and u: "u_tsize (k_u s) = PGSZ * int nt" "u_dsize (k_u s) = PGSZ * int nd" "u_ssize (k_u s) = PGSZ * int ns"
    and lo: "0 \<le> tp" "tp + int nt \<le> 1024" "0 \<le> dp" "dp + 1 + int nd + int ns \<le> 1024"
  shows "\<exists>s'. sureg s = Some s' \<and> maps_image tp dp nt nd ns s' \<and>
           (\<exists>um rp rz. s' = s\<lparr>k_u := (k_u s)\<lparr>u_upt := um\<rparr>, k_rp := rp, k_rz := rz\<rparr>)"
proof -
  obtain pg prot where sp: "sureg_pages (PGSZ * tp) (PGSZ * dp) (PGSZ * int nt) (PGSZ * int nd) (PGSZ * int ns) = Some (pg, prot)"
    "length pg = 32" "\<forall>v<32. pg ! v = word_of_int (page_of tp (dp + 1) nt nd ns v)"
    "\<forall>v<32. bit prot v \<longleftrightarrow> \<not> (v < nt + nd \<or> 28 \<le> v \<and> v < 28 + ns)"
    using sureg_pages_ok [OF sz] by blast
  define um where "um = (\<lambda>i. if i < 8 then upt_word pg prot i else u_upt (k_u s) i)"
  define s' where "s' = s\<lparr>k_u := (k_u s)\<lparr>u_upt := um\<rparr>, k_rp := (\<lambda>i. if i < 8 then um i else k_rp s i),
      k_rz := (\<lambda>i. if i < 4 then um (2 * i) else k_rz s i)\<rparr>"
  have "sureg s = Some s'"
    using img sp(1) u unfolding sureg_def image_at_def Let_def s'_def um_def by (auto split: option.splits)
  moreover have "\<forall>v<32. pg ! v < 1024"
  proof (intro allI impI)
    fix v :: nat assume v: "v < 32"
    have b: "0 \<le> page_of tp (dp + 1) nt nd ns v \<and> page_of tp (dp + 1) nt nd ns v < 1024"
      using lo by (intro page_of_bounds) auto
    then show "pg ! v < 1024"
      using sp(3) v by (simp add: word_less_def uint_word_of_int)
  qed
  then have "\<forall>v<32. uptget um v = pg ! v"
    using sp(2) by (intro allI impI uptget_pages) (auto simp: um_def)
  moreover have "bit (k_rz s' (v div 8)) (20 + v mod 8) \<longleftrightarrow> \<not> (v < nt + nd \<or> 28 \<le> v \<and> v < 28 + ns)"
    if "v < 32" for v
  proof -
    have j: "v div 8 < 4" "v mod 8 < 8" "8 * (v div 8) + v mod 8 = v" using that by auto
    have "k_rz s' (v div 8) = upt_word pg prot (2 * (v div 8))" using j by (simp add: s'_def um_def)
    with bit_protection [OF j(1,2), of pg prot] sp(4) that j(3) show ?thesis by simp
  qed
  ultimately show ?thesis using sp(3) unfolding maps_image_def s'_def by auto
qed

subsection \<open>Translation\<close>

lemma or_low_bits: "push_bit 10 p OR (a AND (PGSZ - 1)) = PGSZ * p + a mod PGSZ" for a p :: int
proof -
  have "a AND (PGSZ - 1) = take_bit 10 a" by (simp add: take_bit_eq_mask mask_eq_exp_minus_1)
  moreover have "push_bit 10 p OR take_bit 10 a = push_bit 10 p + take_bit 10 a"
    by (rule disjunctive_add [symmetric]) (auto simp: bit_push_bit_iff bit_take_bit_iff)
  ultimately show ?thesis by (simp add: push_bit_eq_mult take_bit_eq_mod)
qed

lemma page_unique:
  "PGSZ * p + x mod PGSZ = PGSZ * q + y mod PGSZ \<Longrightarrow> p = q \<and> x mod PGSZ = y mod PGSZ" for p q x y :: int
proof -
  assume e: "PGSZ * p + x mod PGSZ = PGSZ * q + y mod PGSZ"
  have "(PGSZ * p + x mod PGSZ) div PGSZ = p" "(PGSZ * q + y mod PGSZ) div PGSZ = q" by simp_all
  with e have "p = q" by simp
  with e show ?thesis by simp
qed

lemma maps_uint:
  assumes "maps_image tp dp nt nd ns s" "v < 32"
    and "0 \<le> tp" "tp + int nt \<le> 1024" "0 \<le> dp" "dp + 1 + int nd + int ns \<le> 1024"
  shows "uint (uptget (u_upt (k_u s)) v) = page_of tp (dp + 1) nt nd ns v"
    and "uint (uptget (u_upt (k_u s)) v) < 1024"
proof -
  have b: "0 \<le> page_of tp (dp + 1) nt nd ns v" "page_of tp (dp + 1) nt nd ns v < 1024"
    using page_of_bounds [of tp nt "dp + 1" nd ns v] assms(3-6) by auto
  then show "uint (uptget (u_upt (k_u s)) v) = page_of tp (dp + 1) nt nd ns v"
    using assms(1,2) by (simp add: maps_image_def uint_word_of_int mod_pos_pos_trivial)
  with b show "uint (uptget (u_upt (k_u s)) v) < 1024" by simp
qed

lemma page_of_inj:
  assumes "page_of tp dp nt nd ns v = page_of tp dp nt nd ns w" "page_of tp dp nt nd ns v \<noteq> 0"
    and "nt + nd \<le> 28" "tp + int nt < dp \<or> dp + int nd + int ns \<le> tp"
  shows "v = w"
  using assms unfolding page_of_def by (auto split: if_splits)

lemma physaddr_eq:
  "physaddr um a = (if uptget um (nat (a div PGSZ)) = 0 then 0
     else PGSZ * uint (uptget um (nat (a div PGSZ))) + a mod PGSZ)"
  unfolding physaddr_def Let_def or_low_bits by (simp add: drop_bit_eq_div)

lemma useracc_iff:
  assumes "0 \<le> a" "0 < n"
  shows "useracc um a n \<longleftrightarrow> a + n \<le> NPAGE * PGSZ \<and> (\<forall>b. a \<le> b \<and> b < a + n \<longrightarrow> uptget um (nat (b div PGSZ)) \<noteq> 0)"
proof -
  let ?f = "nat (a div PGSZ)" and ?l = "nat ((a + n - 1) div PGSZ)"
  have "(\<forall>v. ?f \<le> v \<and> v \<le> ?l \<longrightarrow> uptget um v \<noteq> 0) \<longleftrightarrow>
        (\<forall>b. a \<le> b \<and> b < a + n \<longrightarrow> uptget um (nat (b div PGSZ)) \<noteq> 0)"
  proof (intro iffI allI impI)
    fix b assume h: "\<forall>v. ?f \<le> v \<and> v \<le> ?l \<longrightarrow> uptget um v \<noteq> 0" and b: "a \<le> b \<and> b < a + n"
    then have "?f \<le> nat (b div PGSZ)" "nat (b div PGSZ) \<le> ?l"
      by (auto intro!: zdiv_mono1 nat_mono)
    with h show "uptget um (nat (b div PGSZ)) \<noteq> 0" by blast
  next
    fix v assume h: "\<forall>b. a \<le> b \<and> b < a + n \<longrightarrow> uptget um (nat (b div PGSZ)) \<noteq> 0" and v: "?f \<le> v \<and> v \<le> ?l"
    define b where "b = max a (PGSZ * int v)"
    have "0 \<le> a div PGSZ" "0 \<le> (a + n - 1) div PGSZ" using assms by (simp_all add: pos_imp_zdiv_nonneg_iff)
    then have "a div PGSZ \<le> int v" "int v \<le> (a + n - 1) div PGSZ" using v by linarith+
    then have "a < PGSZ * int v + PGSZ" "PGSZ * int v \<le> a + n - 1"
      using mult_div_mod_eq [of PGSZ a] mult_div_mod_eq [of PGSZ "a + n - 1"]
        pos_mod_bound [of PGSZ a] pos_mod_sign [of PGSZ "a + n - 1"] by linarith+
    then have "b < a + n \<and> a \<le> b \<and> PGSZ * int v \<le> b \<and> b < PGSZ * int v + PGSZ"
      using assms unfolding b_def by linarith
    moreover from this have "b div PGSZ = int v"
      by (intro int_div_pos_eq [of b PGSZ "int v" "b - PGSZ * int v"]) auto
    ultimately show "uptget um v \<noteq> 0" using h by (metis nat_int)
  qed
  moreover have "list_all (\<lambda>v. uptget um v \<noteq> 0) [?f ..< Suc ?l] \<longleftrightarrow> (\<forall>v. ?f \<le> v \<and> v \<le> ?l \<longrightarrow> uptget um v \<noteq> 0)"
    unfolding list_all_iff by auto
  ultimately show ?thesis
    using assms unfolding useracc_def by (auto simp: drop_bit_eq_div)
qed

lemma uint_add_small:
  assumes "y = x + (of_nat d :: w48)" "uint x < 1024" "d < 32"
  shows "uint y = uint x + int d"
proof -
  have "uint (of_nat d :: w48) = int d" using assms(3) by (simp add: unsigned_of_nat take_bit_nat_eq_self)
  moreover have "0 \<le> uint x" by simp
  ultimately show ?thesis using assms by (simp add: uint_word_ariths mod_pos_pos_trivial)
qed

lemma physrange_contiguous:
  assumes "0 \<le> a" "0 < n" "physrange um a n = r" "r \<noteq> 0" "a \<le> b" "b < a + n"
    and pg: "\<forall>v<32. uint (uptget um v) < 1024"
  shows "physaddr um b = r + (b - a)"
proof -
  define f v l where "f = nat (a div PGSZ)" and "v = nat (b div PGSZ)" and "l = nat ((a + n - 1) div PGSZ)"
  have fl: "f = nat (drop_bit 10 a)" "l = nat (drop_bit 10 (a + n - 1))"
    by (simp_all add: f_def l_def drop_bit_eq_div)
  have acc: "useracc um a n" and r: "r = physaddr um a"
    and run: "list_all (\<lambda>w. uptget um w = uptget um f + of_nat (w - f)) [Suc f ..< Suc l]"
  proof -
    let ?run = "list_all (\<lambda>w. uptget um w = uptget um f + of_nat (w - f)) [Suc f ..< Suc l]"
    have "r = (if n = 0 \<or> \<not> useracc um a n then 0 else if ?run then physaddr um a else 0)"
      unfolding fl using assms(3) by (simp only: physrange_def Let_def)
    with assms(4) show "useracc um a n" "r = physaddr um a" ?run by (metis (full_types))+
  qed
  have all: "a + n \<le> NPAGE * PGSZ" "\<And>c. a \<le> c \<and> c < a + n \<Longrightarrow> uptget um (nat (c div PGSZ)) \<noteq> 0"
    using acc unfolding useracc_iff [OF assms(1,2)] by blast+
  have nz: "uptget um f \<noteq> 0" "uptget um v \<noteq> 0"
    unfolding f_def v_def using assms(2,5,6) by (intro all(2); linarith)+
  have pos: "0 \<le> a div PGSZ" "0 \<le> b div PGSZ" using assms(1,5) by (simp_all add: pos_imp_zdiv_nonneg_iff)
  have le: "a div PGSZ \<le> b div PGSZ" "b div PGSZ \<le> (a + n - 1) div PGSZ" using assms(5,6) by (simp_all add: zdiv_mono1)
  have "b div PGSZ < 32"
    using all(1) assms(6) mult_div_mod_eq [of PGSZ b] pos_mod_sign [of PGSZ b] by linarith
  then have fv: "f \<le> v" "v \<le> l" "v < 32" "int (v - f) = b div PGSZ - a div PGSZ"
    unfolding f_def v_def l_def using pos le by (auto simp: nat_mono of_nat_diff)
  have "uptget um v = uptget um f + of_nat (v - f)"
  proof (cases "v = f")
    case False
    with fv have "v \<in> set [Suc f ..< Suc l]" by auto
    with run show ?thesis unfolding list_all_iff by blast
  qed simp
  moreover have "uint (uptget um f) < 1024" using pg fv(1,3) by auto
  moreover have "v - f < 32" using fv(3) by auto
  ultimately have "uint (uptget um v) = uint (uptget um f) + int (v - f)" by (rule uint_add_small)
  moreover have "physaddr um b = PGSZ * uint (uptget um v) + b mod PGSZ"
    "physaddr um a = PGSZ * uint (uptget um f) + a mod PGSZ" using nz by (simp_all add: physaddr_eq f_def v_def)
  ultimately show ?thesis using r fv(4) mult_div_mod_eq [of PGSZ b] mult_div_mod_eq [of PGSZ a] by linarith
qed

lemma physaddr_inj:
  assumes "maps_image tp dp nt nd ns s" "nt + nd \<le> 28"
    and "0 < tp" "tp + int nt \<le> 1024" "0 \<le> dp" "dp + 1 + int nd + int ns \<le> 1024"
    and "tp + int nt \<le> dp \<or> dp + 1 + int nd + int ns \<le> tp"
    and "0 \<le> a" "a < NPAGE * PGSZ" "0 \<le> b" "b < NPAGE * PGSZ"
    and "physaddr (u_upt (k_u s)) a \<noteq> 0" "a \<noteq> b"
  shows "physaddr (u_upt (k_u s)) a \<noteq> physaddr (u_upt (k_u s)) b"
proof
  assume same: "physaddr (u_upt (k_u s)) a = physaddr (u_upt (k_u s)) b"
  let ?um = "u_upt (k_u s)" and ?pg = "page_of tp (dp + 1) nt nd ns"
  have up: "uint (uptget ?um v) = ?pg v" if "v < 32" for v
    using maps_uint(1) [OF assms(1) that] assms(3-6) by simp
  let ?v = "nat (a div PGSZ)" and ?w = "nat (b div PGSZ)"
  have lt: "?v < 32" "?w < 32" using assms(8-11) by auto
  have nz: "uptget ?um ?v \<noteq> 0" "uptget ?um ?w \<noteq> 0"
    using assms(12) same by (auto simp: physaddr_eq split: if_splits)
  then have pos: "?pg ?v \<noteq> 0" "?pg ?w \<noteq> 0" using up lt by (metis uint_0_iff)+
  have "PGSZ * ?pg ?v + a mod PGSZ = PGSZ * ?pg ?w + b mod PGSZ"
    using same nz up lt by (simp add: physaddr_eq)
  then have eq: "?pg ?v = ?pg ?w" "a mod PGSZ = b mod PGSZ" using page_unique by blast+
  have "?v = ?w" by (rule page_of_inj [OF eq(1) pos(1) assms(2)]) (use assms(7) in auto)
  moreover have "0 \<le> a div PGSZ" "0 \<le> b div PGSZ" using assms(8,10) by (simp_all add: pos_imp_zdiv_nonneg_iff)
  ultimately have "a div PGSZ = b div PGSZ" by (simp only: eq_nat_nat_iff)
  with eq(2) have "a = b" by (metis mult_div_mod_eq)
  with assms(13) show False ..
qed

subsection \<open>Properties\<close>

text \<open>
  C3: for page-aligned sizes, \<open>estabur\<close> refuses exactly the images that are too large (text and data
  beyond the 28 pages below the stack, a stack of more than 4 pages, or an image that with its
  u-area exceeds the core there is): then it returns -1 with \<open>ENOMEM\<close> and changes nothing else.
  Every other image it accepts: it
  returns 0 with the page table, the page registers and the protection registers describing
  exactly the image: text pages from virtual page 0, data behind them, the stack from page 28,
  every other page absent and closed; the local page array is never overrun.
\<close>

theorem estabur_maps:
  assumes "image_at tp dp s"
    and "0 \<le> tp" "tp + int nt \<le> 1024" "0 \<le> dp" "dp + 1 + int nd + int ns \<le> 1024"
  shows "if nt + nd \<le> 28 \<and> ns \<le> 4 \<and> PGSZ * (int nt + int nd + int ns) + USIZE \<le> k_maxmem s
    then \<exists>s'. estabur (PGSZ * int nt) (PGSZ * int nd) (PGSZ * int ns) s = Some (0, s') \<and>
       maps_image tp dp nt nd ns s' \<and> image_at tp dp s' \<and>
       u_tsize (k_u s') = PGSZ * int nt \<and> u_dsize (k_u s') = PGSZ * int nd \<and> u_ssize (k_u s') = PGSZ * int ns
    else estabur (PGSZ * int nt) (PGSZ * int nd) (PGSZ * int ns) s = Some (-1, set_error ENOMEM s)"
proof (cases "nt + nd \<le> 28 \<and> ns \<le> 4 \<and> PGSZ * (int nt + int nd + int ns) + USIZE \<le> k_maxmem s")
  case True
  define t where "t = upd_u (\<lambda>u. u\<lparr>u_tsize := PGSZ * int nt, u_dsize := PGSZ * int nd, u_ssize := PGSZ * int ns\<rparr>) s"
  have t: "image_at tp dp t" "u_tsize (k_u t) = PGSZ * int nt" "u_dsize (k_u t) = PGSZ * int nd"
    "u_ssize (k_u t) = PGSZ * int ns"
    using assms(1) by (auto simp: t_def upd_defs image_at_def Let_def split: option.splits)
  obtain s' um rp rz where s': "sureg t = Some s'" "maps_image tp dp nt nd ns s'"
    "s' = t\<lparr>k_u := (k_u t)\<lparr>u_upt := um\<rparr>, k_rp := rp, k_rz := rz\<rparr>"
    using sureg_ok [OF t(1) _ _ t(2-4) assms(2-5)] True by blast
  have "image_at tp dp s'" using t(1) by (auto simp: s'(3) image_at_def Let_def split: option.splits)
  moreover have "u_tsize (k_u s') = PGSZ * int nt" "u_dsize (k_u s') = PGSZ * int nd" "u_ssize (k_u s') = PGSZ * int ns"
    by (simp_all add: s'(3) t(2-4))
  moreover have "estabur (PGSZ * int nt) (PGSZ * int nd) (PGSZ * int ns) s = Some (0, s')"
    using True s'(1) by (auto simp: estabur_def t_def)
  ultimately show ?thesis using True s'(2) by (simp only: if_True simp_thms) blast
next
  case False
  then have "estabur (PGSZ * int nt) (PGSZ * int nd) (PGSZ * int ns) s = Some (-1, set_error ENOMEM s)"
    by (auto simp: estabur_def)
  with False show ?thesis by (simp only: if_False simp_thms)
qed

definition demo_free :: kst where
  "demo_free = kst0\<lparr>k_proc := (\<lambda>_. proc0\<lparr>p_addr := PGSZ * 40\<rparr>), k_maxmem := PGSZ * 6\<rparr>"

text \<open>With six pages of core, three pages of data and one of stack fit, and four more do not.\<close>

theorem estabur_maps_witness:
  "(\<exists>s'. estabur (PGSZ * int 0) (PGSZ * int 3) (PGSZ * int 1) demo_free = Some (0, s') \<and> maps_image 40 40 0 3 1 s') \<and>
   estabur (PGSZ * int 0) (PGSZ * int 7) (PGSZ * int 1) demo_free = Some (-1, set_error ENOMEM demo_free)"
proof -
  have "image_at 40 40 demo_free" by (simp add: demo_free_def image_at_def proc0_def)
  note w = estabur_maps [OF this]
  show ?thesis using w [of 0 3 1] w [of 0 7 1] by (auto simp: demo_free_def)
qed

text \<open>
  C4: under the map of an image whose shared text lies apart from its data and stack, no two
  user addresses are translated to the same physical word.
\<close>

theorem translation_injective:
  assumes "maps_image tp dp nt nd ns s" "nt + nd \<le> 28"
    and "0 < tp" "tp + int nt \<le> 1024" "0 \<le> dp" "dp + 1 + int nd + int ns \<le> 1024"
    and "tp + int nt \<le> dp \<or> dp + 1 + int nd + int ns \<le> tp"
    and "0 \<le> a" "a < NPAGE * PGSZ" "0 \<le> b" "b < NPAGE * PGSZ"
    and "physaddr (u_upt (k_u s)) a \<noteq> 0" "a \<noteq> b"
  shows "physaddr (u_upt (k_u s)) a \<noteq> physaddr (u_upt (k_u s)) b"
  using assms by (rule physaddr_inj)

definition demo_image :: kst where
  "demo_image = kst0\<lparr>k_u := user0\<lparr>u_tsize := PGSZ * int 2, u_dsize := PGSZ * int 3, u_ssize := PGSZ * int 1\<rparr>,
     k_proc := (\<lambda>_. proc0\<lparr>p_addr := PGSZ * 40, p_textp := Some 0\<rparr>),
     k_text := (k_text kst0)(0 := (k_text kst0 0)\<lparr>x_caddr := PGSZ * 20\<rparr>)\<rparr>"

lemma demo_image_maps: "\<exists>s'. sureg demo_image = Some s' \<and> maps_image 20 40 2 3 1 s'"
proof -
  have "image_at 20 40 demo_image" by (simp add: demo_image_def image_at_def proc0_def)
  then show ?thesis
    using sureg_ok [of 20 40 demo_image 2 3 1] by (auto simp: demo_image_def)
qed

lemma demo_page: "maps_image 20 40 2 3 1 s \<Longrightarrow> v < 32 \<Longrightarrow>
  uptget (u_upt (k_u s)) v = word_of_int (page_of 20 41 2 3 1 v)"
  by (simp add: maps_image_def)

theorem translation_injective_witness:
  "\<exists>s'. sureg demo_image = Some s' \<and> physaddr (u_upt (k_u s')) 5 \<noteq> physaddr (u_upt (k_u s')) 2053"
proof -
  obtain s' where s': "sureg demo_image = Some s'" "maps_image 20 40 2 3 1 s'" using demo_image_maps by blast
  have "physaddr (u_upt (k_u s')) 5 \<noteq> 0"
    using demo_page [OF s'(2), of 0] by (simp add: physaddr_eq page_of_def)
  with translation_injective [OF s'(2), of 5 2053] s'(1) show ?thesis by auto
qed

text \<open>
  C5: whenever \<open>physrange\<close> accepts a user range, every word of the range is mapped and the
  translation is the returned physical address plus the offset, so one physical address and a
  length describe the whole transfer.
\<close>

theorem physrange_linear:
  assumes "maps_image tp dp nt nd ns s"
    and "0 \<le> tp" "tp + int nt \<le> 1024" "0 \<le> dp" "dp + 1 + int nd + int ns \<le> 1024"
    and "0 \<le> a" "0 < n" "physrange (u_upt (k_u s)) a n = r" "r \<noteq> 0" "a \<le> b" "b < a + n"
  shows "physaddr (u_upt (k_u s)) b = r + (b - a)"
proof (rule physrange_contiguous [OF assms(6-11)])
  show "\<forall>v<32. uint (uptget (u_upt (k_u s)) v) < 1024"
    using maps_uint(2) [OF assms(1) _ assms(2-5)] by blast
qed

theorem physrange_linear_witness:
  "\<exists>s'. sureg demo_image = Some s' \<and> physaddr (u_upt (k_u s')) 3000 = PGSZ * 41 + 952"
proof -
  obtain s' where s': "sureg demo_image = Some s'" "maps_image 20 40 2 3 1 s'" using demo_image_maps by blast
  have "uptget (u_upt (k_u s')) 2 = 41" "uptget (u_upt (k_u s')) 3 = 42"
    using demo_page [OF s'(2), of 2] demo_page [OF s'(2), of 3] by (simp_all add: page_of_def)
  then have "physrange (u_upt (k_u s')) 2048 2000 = PGSZ * 41"
    by (simp add: physrange_def useracc_def physaddr_eq drop_bit_eq_div upt_rec)
  with physrange_linear [OF s'(2), of 2048 2000 "PGSZ * 41" 3000] s'(1) show ?thesis by auto
qed

end
