(* ===== verification/Ucopy.thy ===== *)
theory Ucopy
  imports Mmu
begin

section \<open>Copying between the kernel and a user (kernel/usermem.S, kernel/ucopy.c)\<close>

text \<open>
  The user side is the physical memory \<open>M\<close> seen through the page table \<open>um\<close>; the kernel side is
  an array of words \<open>K\<close>.  A pointer on either side is a byte address.  The six primitives of
  \<open>usermem.S\<close> check their range with \<open>useracc\<close> and return -1 if it is not mapped; \<open>copyinb\<close> and
  \<open>copyoutb\<close> copy any number of bytes between any two byte positions by aligning the
  destination, moving whole words in the middle (a straight copy when the two pointers are in
  phase, a funnel shift of neighbouring words when they are not), and finishing by bytes.
\<close>

definition mone :: w48 where "mone = wval (-1)"

text \<open>Bytes of an array of words.\<close>

definition rdb :: "(int \<Rightarrow> w48) \<Rightarrow> int \<Rightarrow> w48" where
  "rdb K a = wbyte (K (a div 6)) (nat (a mod 6))"

definition wrb :: "(int \<Rightarrow> w48) \<Rightarrow> int \<Rightarrow> w48 \<Rightarrow> int \<Rightarrow> w48" where
  "wrb K a c = K(a div 6 := set_wbyte (K (a div 6)) (nat (a mod 6)) c)"

subsection \<open>The primitives\<close>

definition fuword :: "(nat \<Rightarrow> w48) \<Rightarrow> (int \<Rightarrow> w48) \<Rightarrow> int \<Rightarrow> w48" where
  "fuword um M a = (if useracc um (ptrword a) 1 then M (physaddr um (ptrword a)) else mone)"

definition fubyte :: "(nat \<Rightarrow> w48) \<Rightarrow> (int \<Rightarrow> w48) \<Rightarrow> int \<Rightarrow> int" where
  "fubyte um M a =
     (if useracc um (ptrword a) 1
      then uint (take_bit 8 (drop_bit (8 * nat (ptrbyte a)) (M (physaddr um (ptrword a))))) else -1)"

definition suword :: "(nat \<Rightarrow> w48) \<Rightarrow> (int \<Rightarrow> w48) \<Rightarrow> int \<Rightarrow> w48 \<Rightarrow> int \<times> (int \<Rightarrow> w48)" where
  "suword um M a v =
     (if useracc um (ptrword a) 1 then (0, M(physaddr um (ptrword a) := v)) else (-1, M))"

definition subyte :: "(nat \<Rightarrow> w48) \<Rightarrow> (int \<Rightarrow> w48) \<Rightarrow> int \<Rightarrow> w48 \<Rightarrow> int \<times> (int \<Rightarrow> w48)" where
  "subyte um M a v =
     (if useracc um (ptrword a) 1
      then let pa = physaddr um (ptrword a) in (0, M(pa := set_wbyte (M pa) (nat (5 - ptrbyte a)) v))
      else (-1, M))"

text \<open>
  The word count of a copy.  \<open>divword\<close> divides by repeated subtraction in the 15-bit index registers 10
  (what remains) and 12 (the quotient), and takes bit 15 of what remains, the top one, for a borrow.
\<close>

lemma top_bit_clear: "x AND 16384 = 0 \<longleftrightarrow> unat x < 16384" for x :: "15 word"
proof -
  have "x AND 16384 = 0 \<longleftrightarrow> \<not> bit x 14" using and_exp_eq_0_iff_not_bit [of x 14] by simp
  also have "\<dots> \<longleftrightarrow> even (unat x div 16384)" proof -
    have "bit (unat x) 14 = bit x 14" by (simp add: bit_unsigned_iff)
    then show ?thesis by (simp add: bit_iff_odd)
  qed
  also have "\<dots> \<longleftrightarrow> unat x < 16384"
  proof -
    have "unat x < 2 ^ 15" using unsigned_less [of x] by simp
    then have "unat x div 16384 = 0 \<or> unat x div 16384 = 1" by auto
    then show ?thesis by auto
  qed
  finally show ?thesis .
qed

function divword_loop :: "15 word \<Rightarrow> 15 word \<Rightarrow> 15 word" where
  "divword_loop r q =
     (if r = 0 then q
      else let r = r - 6; q = q + 1 in if r AND 16384 = 0 then divword_loop r q else q - 1)"
  by pat_completeness auto

lemma divword_step: "unat (r - 6 :: 15 word) = (if unat r < 6 then unat r + 32762 else unat r - 6)"
  by (simp add: unat_sub_if')

termination divword_loop
  by (relation "measure (\<lambda>(r, q). unat r)") (auto simp: top_bit_clear divword_step)

declare divword_loop.simps [simp del]

definition divword :: "int \<Rightarrow> nat" where
  "divword n = unat (divword_loop (word_of_int n) 0)"

fun words_in :: "(nat \<Rightarrow> w48) \<Rightarrow> (int \<Rightarrow> w48) \<Rightarrow> int \<Rightarrow> int \<Rightarrow> nat \<Rightarrow> (int \<Rightarrow> w48) \<Rightarrow> int \<Rightarrow> w48" where
  "words_in um M fw tw 0 K = K"
| "words_in um M fw tw (Suc n) K = words_in um M (fw + 1) (tw + 1) n (K(tw := M (physaddr um fw)))"

definition copyin :: "(nat \<Rightarrow> w48) \<Rightarrow> (int \<Rightarrow> w48) \<Rightarrow> int \<Rightarrow> int \<Rightarrow> int \<Rightarrow> (int \<Rightarrow> w48) \<Rightarrow> int \<times> (int \<Rightarrow> w48)" where
  "copyin um M from to n K =
     (let nwords = divword n
      in if useracc um (ptrword from) (int nwords)
         then (0, words_in um M (ptrword from) (ptrword to) nwords K) else (-1, K))"

fun words_out :: "(nat \<Rightarrow> w48) \<Rightarrow> (int \<Rightarrow> w48) \<Rightarrow> int \<Rightarrow> int \<Rightarrow> nat \<Rightarrow> (int \<Rightarrow> w48) \<Rightarrow> int \<Rightarrow> w48" where
  "words_out um K fw tw 0 M = M"
| "words_out um K fw tw (Suc n) M = words_out um K (fw + 1) (tw + 1) n (M(physaddr um tw := K fw))"

definition copyout :: "(nat \<Rightarrow> w48) \<Rightarrow> (int \<Rightarrow> w48) \<Rightarrow> int \<Rightarrow> int \<Rightarrow> int \<Rightarrow> (int \<Rightarrow> w48) \<Rightarrow> int \<times> (int \<Rightarrow> w48)" where
  "copyout um K from to n M =
     (let nwords = divword n
      in if useracc um (ptrword to) (int nwords)
         then (0, words_out um K (ptrword from) (ptrword to) nwords M) else (-1, M))"

subsection \<open>Byte copies\<close>

definition uspan :: "(nat \<Rightarrow> w48) \<Rightarrow> int \<Rightarrow> int \<Rightarrow> bool" where
  "uspan um up n =
     (let k = NBPW - 1 - ptrbyte up in useracc um (ptrword up) ((k + n + NBPW - 1) div NBPW))"

text \<open>The number of bytes that square the destination up to a word boundary.\<close>

definition lead_of :: "int \<Rightarrow> int \<Rightarrow> int" where
  "lead_of to n = (let l = ptrbyte to + 1; l = (if l = NBPW then 0 else l) in if l > n then n else l)"

fun in_bytes :: "(nat \<Rightarrow> w48) \<Rightarrow> (int \<Rightarrow> w48) \<Rightarrow> int \<Rightarrow> int \<Rightarrow> nat \<Rightarrow> (int \<Rightarrow> w48) \<Rightarrow> int \<times> (int \<Rightarrow> w48)" where
  "in_bytes um M from to 0 K = (0, K)"
| "in_bytes um M from to (Suc n) K =
     (let c = fubyte um M from
      in if c < 0 then (-1, K) else in_bytes um M (from + 1) (to + 1) n (wrb K to (word_of_int c)))"

fun funnel_in :: "(nat \<Rightarrow> w48) \<Rightarrow> (int \<Rightarrow> w48) \<Rightarrow> int \<Rightarrow> int \<Rightarrow> w48 \<Rightarrow> nat \<Rightarrow> nat \<Rightarrow> nat \<Rightarrow> (int \<Rightarrow> w48) \<Rightarrow> int \<Rightarrow> w48" where
  "funnel_in um M up kp cur sh rsh 0 K = K"
| "funnel_in um M up kp cur sh rsh (Suc n) K =
     (let up = up + NBPW; nxt = fuword um M up
      in funnel_in um M up (kp + 1) nxt sh rsh n (K(kp := push_bit sh cur OR drop_bit rsh nxt)))"

text \<open>The middle of the copy, in or out of phase.\<close>

definition mid_in :: "(nat \<Rightarrow> w48) \<Rightarrow> (int \<Rightarrow> w48) \<Rightarrow> int \<Rightarrow> int \<Rightarrow> int \<Rightarrow> (int \<Rightarrow> w48) \<Rightarrow>
    int \<times> (int \<Rightarrow> w48) \<times> int \<times> int" where
  "mid_in um M from to mid K1 =
     (if mid \<noteq> 0 then
        if ptrbyte from = ptrbyte to then
          let (r, K2) = copyin um M from to mid K1 in (r, K2, if r < 0 then 0 else mid, 0)
        else
          let k = NBPW - 1 - ptrbyte from
          in (0, funnel_in um M from (ptrword to) (fuword um M from) (nat (8 * k))
                   (nat (8 * (NBPW - k))) (nat (mid div NBPW)) K1, 0, mid)
      else (0, K1, 0, 0))"

text \<open>The result is the return code, the kernel array, and the bytes moved in bulk, by edges and
  through the funnel.\<close>

definition copyinb :: "(nat \<Rightarrow> w48) \<Rightarrow> (int \<Rightarrow> w48) \<Rightarrow> int \<Rightarrow> int \<Rightarrow> int \<Rightarrow> (int \<Rightarrow> w48) \<Rightarrow>
    int \<times> (int \<Rightarrow> w48) \<times> int \<times> int \<times> int" where
  "copyinb um M from to n K =
     (if n \<le> 0 then (0, K, 0, 0, 0)
      else if \<not> uspan um from n then (-1, K, 0, 0, 0)
      else
        let lead = lead_of to n; n = n - lead; (r1, K1) = in_bytes um M from to (nat lead) K
        in if r1 < 0 then (-1, K1, 0, lead, 0)
           else
             let from = from + lead; to = to + lead; mid = n - n mod NBPW;
                 (r2, K2, bulk, shift) = mid_in um M from to mid K1
             in if r2 < 0 then (-1, K2, bulk, lead, shift)
                else
                  let (r3, K3) = in_bytes um M (from + mid) (to + mid) (nat (n - mid)) K2
                  in (if r3 < 0 then -1 else 0, K3, bulk, lead + (n - mid), shift))"

fun out_bytes :: "(nat \<Rightarrow> w48) \<Rightarrow> (int \<Rightarrow> w48) \<Rightarrow> int \<Rightarrow> int \<Rightarrow> nat \<Rightarrow> (int \<Rightarrow> w48) \<Rightarrow> int \<times> (int \<Rightarrow> w48)" where
  "out_bytes um K from to 0 M = (0, M)"
| "out_bytes um K from to (Suc n) M =
     (let (r, M1) = subyte um M to (rdb K from)
      in if r < 0 then (-1, M1) else out_bytes um K (from + 1) (to + 1) n M1)"

fun funnel_out :: "(nat \<Rightarrow> w48) \<Rightarrow> (int \<Rightarrow> w48) \<Rightarrow> int \<Rightarrow> int \<Rightarrow> w48 \<Rightarrow> nat \<Rightarrow> nat \<Rightarrow> nat \<Rightarrow> (int \<Rightarrow> w48) \<Rightarrow>
    int \<times> (int \<Rightarrow> w48)" where
  "funnel_out um K kp tp cur sh rsh 0 M = (0, M)"
| "funnel_out um K kp tp cur sh rsh (Suc n) M =
     (let kp = kp + 1; nxt = K kp; (r, M1) = suword um M tp (push_bit sh cur OR drop_bit rsh nxt)
      in if r < 0 then (-1, M1) else funnel_out um K kp (tp + NBPW) nxt sh rsh n M1)"

definition mid_out :: "(nat \<Rightarrow> w48) \<Rightarrow> (int \<Rightarrow> w48) \<Rightarrow> int \<Rightarrow> int \<Rightarrow> int \<Rightarrow> (int \<Rightarrow> w48) \<Rightarrow>
    int \<times> (int \<Rightarrow> w48) \<times> int \<times> int" where
  "mid_out um K from to mid M1 =
     (if mid \<noteq> 0 then
        if ptrbyte from = ptrbyte to then
          let (r, M2) = copyout um K from to mid M1 in (r, M2, if r < 0 then 0 else mid, 0)
        else
          let k = NBPW - 1 - ptrbyte from;
              (r, M2) = funnel_out um K (ptrword from) to (K (ptrword from)) (nat (8 * k))
                          (nat (8 * (NBPW - k))) (nat (mid div NBPW)) M1
          in (r, M2, 0, if r < 0 then 0 else mid)
      else (0, M1, 0, 0))"

definition copyoutb :: "(nat \<Rightarrow> w48) \<Rightarrow> (int \<Rightarrow> w48) \<Rightarrow> int \<Rightarrow> int \<Rightarrow> int \<Rightarrow> (int \<Rightarrow> w48) \<Rightarrow>
    int \<times> (int \<Rightarrow> w48) \<times> int \<times> int \<times> int" where
  "copyoutb um K from to n M =
     (if n \<le> 0 then (0, M, 0, 0, 0)
      else if \<not> uspan um to n then (-1, M, 0, 0, 0)
      else
        let lead = lead_of to n; n = n - lead; (r1, M1) = out_bytes um K from to (nat lead) M
        in if r1 < 0 then (-1, M1, 0, lead, 0)
           else
             let from = from + lead; to = to + lead; mid = n - n mod NBPW;
                 (r2, M2, bulk, shift) = mid_out um K from to mid M1
             in if r2 < 0 then (-1, M2, bulk, lead, shift)
                else
                  let (r3, M3) = out_bytes um K (from + mid) (to + mid) (nat (n - mid)) M2
                  in (if r3 < 0 then -1 else 0, M3, bulk, lead + (n - mid), shift))"

subsection \<open>The division\<close>

lemma divword_loop_floor: "unat r < 16390 \<Longrightarrow> divword_loop r q = q + of_nat (unat r div 6)"
proof (induction r q rule: divword_loop.induct)
  case (1 r q)
  consider "unat r = 0" | "0 < unat r" "unat r < 6" | "6 \<le> unat r" by linarith
  then show ?case
  proof cases
    case 1
    then show ?thesis by (subst divword_loop.simps) (simp add: unat_eq_0)
  next
    case 2
    then have "\<not> (r - 6) AND 16384 = 0" "r \<noteq> 0" by (auto simp: top_bit_clear divword_step)
    then show ?thesis using 2 by (subst divword_loop.simps) (simp add: Let_def)
  next
    case 3
    then have r: "unat (r - 6) = unat r - 6" by (simp add: divword_step)
    then have b: "(r - 6) AND 16384 = 0" "r \<noteq> 0" using 3 "1.prems" by (auto simp: top_bit_clear)
    have "divword_loop r q = divword_loop (r - 6) (q + 1)" using b by (subst divword_loop.simps) (simp add: Let_def)
    also have "\<dots> = q + 1 + of_nat ((unat r - 6) div 6)"
      using "1.IH" [OF b(2) refl refl b(1)] "1.prems" r by simp
    also have "\<dots> = q + of_nat (Suc ((unat r - 6) div 6))" by simp
    also have "Suc ((unat r - 6) div 6) = unat r div 6" using 3 by (simp add: le_div_geq)
    finally show ?thesis .
  qed
qed

lemma divword_floor:
  assumes "0 \<le> n" "n < 16390"
  shows "divword n = nat (n div 6)"
proof -
  have u: "unat (word_of_int n :: 15 word) = nat n" using assms by (simp add: unsigned_of_int take_bit_int_eq_self)
  have "nat n div 6 < 2 ^ 15" using assms div_le_dividend [of "nat n" 6] by simp
  then have "unat (of_nat (nat n div 6) :: 15 word) = nat n div 6" by (simp add: unat_of_nat)
  then show ?thesis using divword_loop_floor [of "word_of_int n" 0] assms u by (simp add: divword_def nat_div_distrib)
qed


subsection \<open>Bytes and words\<close>

lemma rdb_wrb: "rdb (wrb K a c) b = (if b = a then take_bit 8 c else rdb K b)"
proof (cases "b div 6 = a div 6")
  case True
  show ?thesis
  proof (cases "b = a")
    case False
    with True have "b mod 6 \<noteq> a mod 6" by (metis mult_div_mod_eq)
    then have "nat (b mod 6) \<noteq> nat (a mod 6)" by (simp add: nat_eq_iff)
    with True False show ?thesis
      by (simp add: rdb_def wrb_def wbyte_set_other nat_less_iff)
  qed (simp add: rdb_def wrb_def wbyte_set nat_less_iff)
qed (auto simp: rdb_def wrb_def)

lemma rdb_upd: "rdb (K(w := x)) a = (if a div 6 = w then wbyte x (nat (a mod 6)) else rdb K a)"
  by (simp add: rdb_def)

lemma take_bit_wbyte [simp]: "take_bit 8 (wbyte w j) = wbyte w j"
  by (simp add: wbyte_def)

lemma take_bit_rdb [simp]: "take_bit 8 (rdb K a) = rdb K a"
  by (simp add: rdb_def)

lemma funnel_word:
  assumes "0 < k" "k < 6" "j < 6"
  shows "wbyte (push_bit (8 * k) cur OR drop_bit (8 * (6 - k)) nxt) j =
         (if j + k < 6 then wbyte cur (j + k) else wbyte nxt (j + k - 6))"
proof (rule bit_word_eqI)
  fix n assume "n < LENGTH(48)"
  show "bit (wbyte (push_bit (8 * k) cur OR drop_bit (8 * (6 - k)) nxt) j) n =
        bit (if j + k < 6 then wbyte cur (j + k) else wbyte nxt (j + k - 6)) n"
  proof (cases "j + k < 6")
    case True
    have e: "8 * (6 - k) + (8 * (5 - j) + n) = 48 + (8 * (5 - (j + k)) + n)"
      "8 * (5 - j) + n = 8 * k + (8 * (5 - (j + k)) + n)" using True by linarith+
    have "\<not> bit nxt (8 * (6 - k) + (8 * (5 - j) + n))"
      unfolding e(1) using bit_imp_le_length [of nxt "48 + (8 * (5 - (j + k)) + n)"] by auto
    then have "\<not> bit (drop_bit (8 * (6 - k)) nxt) (8 * (5 - j) + n)" by (simp add: bit_drop_bit_eq)
    moreover have "bit (push_bit (8 * k) cur) (8 * (5 - j) + n) = bit cur (8 * (5 - (j + k)) + n)" if "n < 8"
      unfolding e(2) using that assms True by (auto simp: bit_push_bit_iff)
    ultimately show ?thesis using True assms by (auto simp: bit_wbyte bit_or_iff)
  next
    case False
    have "\<not> (8 * k \<le> 8 * (5 - j) + n)" if "n < 8" using False that assms by linarith
    then have "\<not> bit (push_bit (8 * k) cur) (8 * (5 - j) + n)" if "n < 8"
      using that by (simp add: bit_push_bit_iff)
    moreover have e: "8 * (6 - k) + (8 * (5 - j) + n) = 8 * (5 - (j + k - 6)) + n" using False assms by linarith
    have "bit (drop_bit (8 * (6 - k)) nxt) (8 * (5 - j) + n) = bit nxt (8 * (5 - (j + k - 6)) + n)"
      by (simp only: bit_drop_bit_eq o_def e)
    moreover have "j + k - 6 < 6" using assms by linarith
    ultimately show ?thesis using False assms by (auto simp only: bit_wbyte bit_or_iff if_False)
  qed
qed

text \<open>\<open>moved K' K t n f\<close>: \<open>K'\<close> is \<open>K\<close> with the bytes from \<open>t\<close> up replaced by \<open>f 0, ..., f (n - 1)\<close>.\<close>

definition moved :: "(int \<Rightarrow> w48) \<Rightarrow> (int \<Rightarrow> w48) \<Rightarrow> int \<Rightarrow> int \<Rightarrow> (int \<Rightarrow> w48) \<Rightarrow> bool" where
  "moved K' K t n f \<longleftrightarrow> (\<forall>a. rdb K' a = (if t \<le> a \<and> a < t + n then f (a - t) else rdb K a))"

lemma moved_0 [simp]: "moved K K t 0 f"
  by (auto simp: moved_def)

lemma moved_trans:
  assumes "moved K1 K t n f" "moved K2 K1 (t + n) m g" "\<And>i. 0 \<le> i \<Longrightarrow> i < m \<Longrightarrow> g i = f (n + i)" "0 \<le> n" "0 \<le> m"
  shows "moved K2 K t (n + m) f"
  unfolding moved_def
proof
  fix a
  have 2: "rdb K2 a = (if t + n \<le> a \<and> a < t + n + m then g (a - (t + n)) else rdb K1 a)"
    and 1: "rdb K1 a = (if t \<le> a \<and> a < t + n then f (a - t) else rdb K a)"
    using assms(1,2) unfolding moved_def by blast+
  have "g (a - (t + n)) = f (a - t)" if "t + n \<le> a" "a < t + n + m"
    using assms(3) [of "a - (t + n)"] that by simp
  with 1 2 assms(4,5) show "rdb K2 a = (if t \<le> a \<and> a < t + (n + m) then f (a - t) else rdb K a)"
    by (auto simp: algebra_simps)
qed

lemma moved_byte: "moved (wrb K t c) K t 1 (\<lambda>_. take_bit 8 c)"
  by (auto simp: moved_def rdb_wrb)

lemma moved_word:
  assumes "\<And>j. j < 6 \<Longrightarrow> wbyte x j = f (int j)"
  shows "moved (K(w := x)) K (6 * w) 6 f"
  unfolding moved_def
proof
  fix a :: int
  have "a div 6 = w \<longleftrightarrow> 6 * w \<le> a \<and> a < 6 * w + 6" by auto
  moreover have "f (a - 6 * w) = wbyte x (nat (a mod 6))" if "a div 6 = w"
  proof -
    have "a - 6 * w = int (nat (a mod 6))" using that mult_div_mod_eq [of 6 a] by simp
    then show ?thesis using assms [of "nat (a mod 6)"] by (simp add: nat_less_iff)
  qed
  ultimately show "rdb (K(w := x)) a = (if 6 * w \<le> a \<and> a < 6 * w + 6 then f (a - 6 * w) else rdb K a)"
    by (auto simp: rdb_upd)
qed

subsection \<open>The user side\<close>

text \<open>The user's memory as the user addresses it.\<close>

definition vmem :: "(nat \<Rightarrow> w48) \<Rightarrow> (int \<Rightarrow> w48) \<Rightarrow> int \<Rightarrow> w48" where
  "vmem um M w = M (physaddr um w)"

definition umapped :: "(nat \<Rightarrow> w48) \<Rightarrow> int \<Rightarrow> int \<Rightarrow> bool" where
  "umapped um a n \<longleftrightarrow> (\<forall>b. a \<le> b \<and> b < a + n \<longrightarrow> useracc um (b div 6) 1)"

lemma useracc_sub:
  assumes "useracc um a n" "0 \<le> a" "a \<le> b" "b + m \<le> a + n" "0 \<le> m"
  shows "useracc um b m"
proof (cases "m = 0")
  case True
  then show ?thesis by (simp add: useracc_def)
next
  case False
  then have n: "0 < n" "0 < m" using assms by auto
  show ?thesis
    using assms(1,3,4) unfolding useracc_iff [OF assms(2) n(1)] useracc_iff [OF order_trans [OF assms(2,3)] n(2)]
    by auto
qed

lemma uspan_umapped:
  assumes "uspan um a n" "0 \<le> a" "0 < n"
  shows "umapped um a n"
  unfolding umapped_def
proof (intro allI impI)
  fix b assume b: "a \<le> b \<and> b < a + n"
  let ?m = "(5 + (a mod 6 + n)) div 6"
  have A: "useracc um (a div 6) ?m"
    using assms(1) by (simp add: uspan_def ptrbyte_def ptrword_def)
  have B: "a div 6 \<le> b div 6" using b by (simp add: zdiv_mono1)
  have C: "b div 6 + 1 \<le> a div 6 + ?m"
  proof -
    have e: "a + n + 5 = 6 * (a div 6) + (5 + (a mod 6 + n))" using mult_div_mod_eq [of 6 a] by simp
    have "b div 6 + 1 = (b + 6) div 6" by simp
    also have "\<dots> \<le> (a + n + 5) div 6" using b by (intro zdiv_mono1) auto
    also have "\<dots> = a div 6 + ?m" unfolding e by (rule div_mult_self4) simp
    finally show ?thesis .
  qed
  show "useracc um (b div 6) 1"
    by (rule useracc_sub [OF A _ B C]) (simp_all add: pos_imp_zdiv_nonneg_iff assms(2))
qed

lemma umapped_sub: "umapped um a n \<Longrightarrow> a \<le> b \<Longrightarrow> b + m \<le> a + n \<Longrightarrow> umapped um b m"
  by (auto simp: umapped_def)

lemma umapped_at: "umapped um a n \<Longrightarrow> a \<le> b \<Longrightarrow> b < a + n \<Longrightarrow> useracc um (b div 6) 1"
  by (simp add: umapped_def)

lemma umapped_useracc:
  assumes "umapped um (6 * w) (6 * n)" "0 \<le> w" "0 < n"
  shows "useracc um w n"
proof -
  have one: "useracc um c 1" if "w \<le> c" "c < w + n" for c
    using umapped_at [OF assms(1), of "6 * c"] that by simp
  have "c + 1 \<le> NPAGE * PGSZ \<and> uptget um (nat (c div PGSZ)) \<noteq> 0" if "w \<le> c" "c < w + n" for c
    using one [OF that] useracc_iff [of c 1 um] assms(2) that by simp
  from this [of "w + n - 1"] this show ?thesis
    unfolding useracc_iff [OF assms(2,3)] using assms(3) by auto
qed

lemma fubyte_ok: "useracc um (a div 6) 1 \<Longrightarrow> fubyte um M a = uint (rdb (vmem um M) a)"
  by (simp add: fubyte_def rdb_def vmem_def wbyte_def ptrword_def ptrbyte_def nat_diff_distrib')

lemma in_bytes_ok:
  "umapped um from (int n) \<Longrightarrow>
   \<exists>K'. in_bytes um M from to n K = (0, K') \<and> moved K' K to (int n) (\<lambda>i. rdb (vmem um M) (from + i))"
proof (induction n arbitrary: "from" to K)
  case (Suc n)
  let ?K = "wrb K to (rdb (vmem um M) from)"
  have m: "useracc um (from div 6) 1" using umapped_at [OF Suc.prems, of "from"] by simp
  have "umapped um (from + 1) (int n)" using Suc.prems by (rule umapped_sub) auto
  from Suc.IH [OF this, of "to + 1" ?K] obtain K' where K': "in_bytes um M (from + 1) (to + 1) n ?K = (0, K')"
    "moved K' ?K (to + 1) (int n) (\<lambda>i. rdb (vmem um M) (from + 1 + i))" by blast
  have "in_bytes um M from to (Suc n) K = (0, K')"
    using K'(1) fubyte_ok [OF m] by (simp add: Let_def)
  moreover have "moved K' K to (1 + int n) (\<lambda>i. rdb (vmem um M) (from + i))"
  proof (rule moved_trans [OF _ K'(2)])
    show "moved ?K K to 1 (\<lambda>i. rdb (vmem um M) (from + i))"
      using moved_byte [of K to "rdb (vmem um M) from"] by (auto simp: moved_def)
  qed (auto simp: algebra_simps)
  ultimately show ?case by simp
qed simp

lemma words_in_ok:
  "moved (words_in um M fw tw n K) K (6 * tw) (6 * int n) (\<lambda>i. rdb (vmem um M) (6 * fw + i))"
proof (induction n arbitrary: fw tw K)
  case (Suc n)
  let ?K = "K(tw := M (physaddr um fw))"
  have a: "moved (words_in um M (fw + 1) (tw + 1) n ?K) ?K (6 * tw + 6) (6 * int n) (\<lambda>i. rdb (vmem um M) (6 * (fw + 1) + i))"
    using Suc.IH [of "fw + 1" "tw + 1" ?K] by (simp only: distrib_left mult_1_right)
  have b: "moved ?K K (6 * tw) 6 (\<lambda>i. rdb (vmem um M) (6 * fw + i))"
    by (rule moved_word) (simp add: rdb_def vmem_def)
  have "moved (words_in um M (fw + 1) (tw + 1) n ?K) K (6 * tw) (6 + 6 * int n) (\<lambda>i. rdb (vmem um M) (6 * fw + i))"
    by (rule moved_trans [OF b a]) (auto simp: algebra_simps)
  then show ?case by simp
qed simp

lemma phase_step:
  assumes "up mod 6 = int k" "k < 6" "j < 6"
  shows "(up + int j) div 6 = up div 6 + (if j + k < 6 then 0 else 1)"
    and "nat ((up + int j) mod 6) = (if j + k < 6 then j + k else j + k - 6)"
proof -
  define q where "q = up div 6"
  have up: "up = 6 * q + int k" using assms(1) mult_div_mod_eq [of 6 up] by (simp add: q_def)
  have dm: "(6 * p + r) div 6 = p \<and> (6 * p + r) mod 6 = r" if "0 \<le> r" "r < 6" for p r :: int
    using that by simp
  have "(6 * q + int k + int j) div 6 = q + (if j + k < 6 then 0 else 1) \<and>
        (6 * q + int k + int j) mod 6 = int (if j + k < 6 then j + k else j + k - 6)"
  proof (cases "j + k < 6")
    case True
    have e: "6 * q + int k + int j = 6 * q + int (j + k)" by simp
    show ?thesis unfolding e using True dm [of "int (j + k)" q] by simp
  next
    case False
    have e: "6 * q + int k + int j = 6 * (q + 1) + int (j + k - 6)" using False by (simp add: of_nat_diff)
    show ?thesis unfolding e using False assms(2,3) dm [of "int (j + k - 6)" "q + 1"] by simp
  qed
  then show "(up + int j) div 6 = up div 6 + (if j + k < 6 then 0 else 1)"
    and "nat ((up + int j) mod 6) = (if j + k < 6 then j + k else j + k - 6)"
    unfolding q_def [symmetric] by (simp_all only: up nat_int)
qed

lemma funnel_in_ok:
  assumes "0 < k" "k < 6" "up mod 6 = int k" "umapped um up (6 * int n)" "0 \<le> up"
  shows "moved (funnel_in um M up kp (vmem um M (up div 6)) (8 * k) (8 * (6 - k)) n K) K
           (6 * kp) (6 * int n) (\<lambda>i. rdb (vmem um M) (up + i))"
  using assms(3-5)
proof (induction n arbitrary: up kp K)
  case (Suc n)
  let ?V = "vmem um M"
  let ?x = "push_bit (8 * k) (?V (up div 6)) OR drop_bit (8 * (6 - k)) (?V (up div 6 + 1))"
  have d: "(up + 6) div 6 = up div 6 + 1" "(up + 6) mod 6 = int k" using Suc.prems(1) by simp_all
  have "useracc um (up div 6 + 1) 1"
  proof -
    have "(up + 5) div 6 = up div 6 + 1" using phase_step(1) [OF Suc.prems(1) assms(2), of 5] assms(1) by simp
    with umapped_at [OF Suc.prems(2), of "up + 5"] show ?thesis by simp
  qed
  then have "fuword um M (up + 6) = ?V (up div 6 + 1)"
    by (simp only: fuword_def ptrword_def d vmem_def) simp
  then have step: "funnel_in um M up kp (?V (up div 6)) (8 * k) (8 * (6 - k)) (Suc n) K =
      funnel_in um M (up + 6) (kp + 1) (?V ((up + 6) div 6)) (8 * k) (8 * (6 - k)) n (K(kp := ?x))"
    by (simp only: funnel_in.simps Let_def d)
  have IH: "moved (funnel_in um M (up + 6) (kp + 1) (?V ((up + 6) div 6)) (8 * k) (8 * (6 - k)) n (K(kp := ?x)))
      (K(kp := ?x)) (6 * kp + 6) (6 * int n) (\<lambda>i. rdb ?V (up + 6 + i))"
  proof -
    have "umapped um (up + 6) (6 * int n)" using Suc.prems(2) by (rule umapped_sub) auto
    from Suc.IH [OF d(2) this, of "kp + 1" "K(kp := ?x)"] Suc.prems(3)
    show ?thesis by (simp only: distrib_left mult_1_right)
  qed
  have W: "moved (K(kp := ?x)) K (6 * kp) 6 (\<lambda>i. rdb ?V (up + i))"
  proof (rule moved_word)
    fix j :: nat assume j: "j < 6"
    show "wbyte ?x j = rdb ?V (up + int j)"
      unfolding rdb_def phase_step [OF Suc.prems(1) assms(2) j] funnel_word [OF assms(1,2) j] by simp
  qed
  have "moved (funnel_in um M up kp (?V (up div 6)) (8 * k) (8 * (6 - k)) (Suc n) K) K (6 * kp) (6 + 6 * int n)
      (\<lambda>i. rdb ?V (up + i))"
    unfolding step by (rule moved_trans [OF W IH]) (auto simp: algebra_simps)
  moreover have "6 + 6 * int n = 6 * int (Suc n)" by simp
  ultimately show ?case by (simp only:)
qed simp

lemma lead_of_bounds:
  assumes "0 < n"
  shows "0 \<le> lead_of t n" "lead_of t n \<le> n" "lead_of t n < n \<Longrightarrow> (t + lead_of t n) mod 6 = 0"
proof -
  have m: "0 \<le> t mod 6" "t mod 6 < 6" by simp_all
  show "0 \<le> lead_of t n" "lead_of t n \<le> n" using assms m by (auto simp: lead_of_def ptrbyte_def Let_def)
  assume "lead_of t n < n"
  then have "lead_of t n = (if t mod 6 = 0 then 0 else 6 - t mod 6)"
    unfolding lead_of_def ptrbyte_def Let_def by (simp split: if_splits)
  moreover have e: "t + (6 - t mod 6) = 6 * (t div 6 + 1)" using mult_div_mod_eq [of 6 t] by (simp add: algebra_simps)
  have "(t + (6 - t mod 6)) mod 6 = 0" unfolding e by simp
  ultimately show "(t + lead_of t n) mod 6 = 0" by (cases "t mod 6 = 0") simp_all
qed

subsection \<open>The whole copy\<close>

lemma copyin_ok:
  assumes "from mod 6 = 0" "to mod 6 = 0" "mid mod 6 = 0" "0 < mid" "umapped um from mid" "0 \<le> from" "mid < 16390"
  shows "\<exists>K'. copyin um M from to mid K = (0, K') \<and> moved K' K to mid (\<lambda>i. rdb (vmem um M) (from + i))"
proof -
  have e: "6 * (from div 6) = from" "6 * (to div 6) = to" "6 * (mid div 6) = mid"
    using assms(1-3) by auto
  have "useracc um (from div 6) (mid div 6)"
    using assms(4-6) e by (intro umapped_useracc) auto
  moreover have "moved (words_in um M (from div 6) (to div 6) (nat (mid div 6)) K) K to mid
      (\<lambda>i. rdb (vmem um M) (from + i))"
    using words_in_ok [of um M "from div 6" "to div 6" "nat (mid div 6)" K] e assms(4) by simp
  ultimately show ?thesis using divword_floor [of mid] assms(4,7) by (simp add: copyin_def ptrword_def pos_imp_zdiv_nonneg_iff)
qed

lemma ptrbyte_eq: "ptrbyte a = ptrbyte b \<longleftrightarrow> a mod 6 = b mod 6"
  by (simp add: ptrbyte_def)

lemma mid_in_ok:
  assumes "to mod 6 = 0 \<or> mid = 0" "mid mod 6 = 0" "0 \<le> mid" "umapped um from mid" "0 \<le> from"
    and "mid < 16390 \<or> from mod 6 \<noteq> to mod 6"
  shows "\<exists>K' bulk shift. mid_in um M from to mid K = (0, K', bulk, shift) \<and> bulk + shift = mid \<and>
           moved K' K to mid (\<lambda>i. rdb (vmem um M) (from + i))"
proof (cases "mid = 0")
  case False
  then have mid: "0 < mid" and to: "to mod 6 = 0" using assms by auto
  show ?thesis
  proof (cases "from mod 6 = 0")
    case True
    then show ?thesis using copyin_ok [OF True to assms(2) mid assms(4,5), of M K] to assms(6)
      by (auto simp: mid_in_def ptrbyte_eq)
  next
    case ne: False
    define k where "k = nat (from mod 6)"
    have k: "0 < k" "k < 6" "from mod 6 = int k" using ne by (auto simp: k_def nat_less_iff order_le_less)
    have "fuword um M from = vmem um M (from div 6)"
      using umapped_at [OF assms(4), of "from"] mid by (simp add: fuword_def ptrword_def vmem_def)
    moreover have "nat (8 * (NBPW - 1 - ptrbyte from)) = 8 * k"
      "nat (8 * (NBPW - (NBPW - 1 - ptrbyte from))) = 8 * (6 - k)"
      using k by (auto simp: ptrbyte_def nat_mult_distrib nat_diff_distrib)
    moreover have "6 * int (nat (mid div 6)) = mid" "6 * (to div 6) = to" using mid assms(2) to by auto
    ultimately show ?thesis
      using funnel_in_ok [OF k, of um "nat (mid div 6)" M "to div 6" K] ne to False assms(4,5)
      by (auto simp: mid_in_def ptrbyte_eq Let_def ptrword_def)
  qed
qed (simp add: mid_in_def)

text \<open>How a copy of \<open>n\<close> bytes splits into its three parts.\<close>

lemma copy_parts:
  fixes to n :: int
  assumes "0 < n"
  defines "lead \<equiv> lead_of to n" and "mid \<equiv> (n - lead_of to n) - (n - lead_of to n) mod 6"
  shows "0 \<le> lead" "0 \<le> mid" "0 \<le> n - lead - mid" "mid mod 6 = 0" "(to + lead) mod 6 = 0 \<or> mid = 0"
proof -
  show l: "0 \<le> lead" using lead_of_bounds(1) [OF assms(1)] by (simp add: lead_def)
  have le: "0 \<le> n - lead" using lead_of_bounds(2) [OF assms(1), of to] by (simp add: lead_def)
  have mid: "mid = 6 * ((n - lead) div 6)" unfolding mid_def lead_def by (simp add: minus_mod_eq_mult_div)
  then show "0 \<le> mid" "mid mod 6 = 0" using le by (simp_all add: pos_imp_zdiv_nonneg_iff)
  show "0 \<le> n - lead - mid" unfolding mid_def lead_def by simp
  show "(to + lead) mod 6 = 0 \<or> mid = 0"
    using lead_of_bounds(2,3) [OF assms(1), of to] mid unfolding lead_def by (cases "lead_of to n = n") auto
qed

text \<open>Pointers in phase: the same byte of a word on both sides, before and after the lead.\<close>

abbreviation in_phase :: "int \<Rightarrow> int \<Rightarrow> bool" where
  "in_phase from to \<equiv> from mod 6 = to mod 6"

lemma in_phase_add: "(from + l) mod 6 = (to + l) mod 6 \<longleftrightarrow> in_phase from to" for l :: int
  by (metis add_diff_cancel_right' mod_add_left_eq mod_diff_left_eq)

lemma copyinb_moves:
  assumes "0 \<le> from" "0 < n" "uspan um from n" "n < 16390 \<or> \<not> in_phase from to"
  shows "\<exists>K' bulk edge shift. copyinb um M from to n K = (0, K', bulk, edge, shift) \<and> bulk + edge + shift = n \<and>
           moved K' K to n (\<lambda>i. rdb (vmem um M) (from + i))"
proof -
  define lead where "lead = lead_of to n"
  define mid where "mid = (n - lead) - (n - lead) mod 6"
  note parts = copy_parts [OF assms(2), of to, folded lead_def, folded mid_def]
  let ?V = "vmem um M" and ?tail = "n - lead - mid"
  have um: "umapped um from n" using assms(3,1,2) by (rule uspan_umapped)
  obtain K1 where K1: "in_bytes um M from to (nat lead) K = (0, K1)" "moved K1 K to lead (\<lambda>i. rdb ?V (from + i))"
    using in_bytes_ok [of um "from" "nat lead" M to K] umapped_sub [OF um, of "from" lead] parts(1-3) by auto
  have "umapped um (from + lead) mid" by (rule umapped_sub [OF um]) (use parts in auto)
  then obtain K2 bulk shift where K2: "mid_in um M (from + lead) (to + lead) mid K1 = (0, K2, bulk, shift)"
    "bulk + shift = mid" "moved K2 K1 (to + lead) mid (\<lambda>i. rdb ?V (from + lead + i))"
    using mid_in_ok [OF parts(5,4,2), of um "from + lead" M K1] parts(1-3) assms(1,4) by (auto simp: in_phase_add)
  have "umapped um (from + lead + mid) ?tail" by (rule umapped_sub [OF um]) (use parts in auto)
  then obtain K3 where K3: "in_bytes um M (from + lead + mid) (to + lead + mid) (nat ?tail) K2 = (0, K3)"
    "moved K3 K2 (to + lead + mid) ?tail (\<lambda>i. rdb ?V (from + lead + mid + i))"
    using in_bytes_ok [of um "from + lead + mid" "nat ?tail" M "to + lead + mid" K2] parts(3) by auto
  have m2: "moved K2 K to (lead + mid) (\<lambda>i. rdb ?V (from + i))"
    by (rule moved_trans [OF K1(2) K2(3)]) (use parts in \<open>auto simp: algebra_simps\<close>)
  have "moved K3 K to (lead + mid + ?tail) (\<lambda>i. rdb ?V (from + i))"
    by (rule moved_trans [OF m2]) (use parts K3(2) in \<open>auto simp: algebra_simps\<close>)
  moreover have "copyinb um M from to n K = (0, K3, bulk, lead + ?tail, shift)"
    using assms(2,3) K1(1) K2(1) K3(1)
    by (simp add: copyinb_def Let_def lead_def [symmetric] mid_def [symmetric])
  ultimately show ?thesis using K2(2) by auto
qed

subsection \<open>Copying out\<close>

text \<open>No two mapped user words share a physical word.\<close>

definition um_inj :: "(nat \<Rightarrow> w48) \<Rightarrow> bool" where
  "um_inj um \<longleftrightarrow> (\<forall>v w. 0 \<le> v \<and> 0 \<le> w \<and> useracc um v 1 \<and> useracc um w 1 \<and> v \<noteq> w \<longrightarrow>
     physaddr um v \<noteq> physaddr um w)"

text \<open>\<open>umoved um M' M t n f\<close>: as the user sees it, the bytes from \<open>t\<close> up are now \<open>f 0, ..., f (n - 1)\<close> and
  no other byte has changed; physically, only the words that hold them have.\<close>

definition umoved :: "(nat \<Rightarrow> w48) \<Rightarrow> (int \<Rightarrow> w48) \<Rightarrow> (int \<Rightarrow> w48) \<Rightarrow> int \<Rightarrow> int \<Rightarrow> (int \<Rightarrow> w48) \<Rightarrow> bool" where
  "umoved um M' M t n f \<longleftrightarrow>
     (\<forall>a. 0 \<le> a \<and> useracc um (a div 6) 1 \<longrightarrow>
        rdb (vmem um M') a = (if t \<le> a \<and> a < t + n then f (a - t) else rdb (vmem um M) a)) \<and>
     (\<forall>p. (\<forall>a. t \<le> a \<and> a < t + n \<longrightarrow> physaddr um (a div 6) \<noteq> p) \<longrightarrow> M' p = M p)"

lemma umoved_0 [simp]: "umoved um M M t 0 f"
  by (auto simp: umoved_def)

lemma umoved_trans:
  assumes 1: "umoved um M1 M t n f" and 2: "umoved um M2 M1 (t + n) m g"
    and g: "\<And>i. 0 \<le> i \<Longrightarrow> i < m \<Longrightarrow> g i = f (n + i)" and nm: "0 \<le> n" "0 \<le> m"
  shows "umoved um M2 M t (n + m) f"
  unfolding umoved_def
proof (intro conjI allI impI)
  fix a assume a: "0 \<le> a \<and> useracc um (a div 6) 1"
  have "rdb (vmem um M2) a = (if t + n \<le> a \<and> a < t + n + m then g (a - (t + n)) else rdb (vmem um M1) a)"
    and "rdb (vmem um M1) a = (if t \<le> a \<and> a < t + n then f (a - t) else rdb (vmem um M) a)"
    using 1 2 a unfolding umoved_def by blast+
  moreover have "g (a - (t + n)) = f (a - t)" if "t + n \<le> a" "a < t + n + m"
    using g [of "a - (t + n)"] that by simp
  ultimately show "rdb (vmem um M2) a = (if t \<le> a \<and> a < t + (n + m) then f (a - t) else rdb (vmem um M) a)"
    using nm by (auto simp: algebra_simps)
next
  fix p assume p: "\<forall>a. t \<le> a \<and> a < t + (n + m) \<longrightarrow> physaddr um (a div 6) \<noteq> p"
  have "M2 p = M1 p" using 2 p nm unfolding umoved_def by auto
  also have "\<dots> = M p" using 1 p nm unfolding umoved_def by auto
  finally show "M2 p = M p" .
qed

lemma rdb_vmem_upd:
  assumes "um_inj um" "0 \<le> w" "useracc um w 1" "0 \<le> a" "useracc um (a div 6) 1"
  shows "rdb (vmem um (M(physaddr um w := x))) a =
         (if a div 6 = w then wbyte x (nat (a mod 6)) else rdb (vmem um M) a)"
proof -
  have "0 \<le> a div 6" using assms(4) by (simp add: pos_imp_zdiv_nonneg_iff)
  then have "a div 6 \<noteq> w \<Longrightarrow> physaddr um (a div 6) \<noteq> physaddr um w"
    using assms unfolding um_inj_def by blast
  then show ?thesis by (auto simp: rdb_def vmem_def)
qed

lemma umoved_byte:
  assumes "um_inj um" "0 \<le> t" "useracc um (t div 6) 1"
  shows "\<exists>M'. subyte um M t c = (0, M') \<and> umoved um M' M t 1 (\<lambda>_. take_bit 8 c)"
proof -
  let ?x = "set_wbyte (vmem um M (t div 6)) (nat (t mod 6)) c"
  have w: "0 \<le> t div 6" using assms(2) by (simp add: pos_imp_zdiv_nonneg_iff)
  have "subyte um M t c = (0, M(physaddr um (t div 6) := ?x))"
    using assms(3) by (simp add: subyte_def ptrword_def ptrbyte_def vmem_def Let_def)
  moreover have "umoved um (M(physaddr um (t div 6) := ?x)) M t 1 (\<lambda>_. take_bit 8 c)"
    unfolding umoved_def
  proof (intro conjI allI impI)
    fix a assume a: "0 \<le> a \<and> useracc um (a div 6) 1"
    have "(if a div 6 = t div 6 then wbyte ?x (nat (a mod 6)) else rdb (vmem um M) a) = rdb (wrb (vmem um M) t c) a"
      by (simp add: rdb_def wrb_def)
    then show "rdb (vmem um (M(physaddr um (t div 6) := ?x))) a =
        (if t \<le> a \<and> a < t + 1 then take_bit 8 c else rdb (vmem um M) a)"
      using rdb_vmem_upd [OF assms(1) w assms(3), of a M ?x] a by (auto simp: rdb_wrb)
  next
    fix p assume "\<forall>a. t \<le> a \<and> a < t + 1 \<longrightarrow> physaddr um (a div 6) \<noteq> p"
    then have "physaddr um (t div 6) \<noteq> p" by simp
    then show "(M(physaddr um (t div 6) := ?x)) p = M p" by simp
  qed
  ultimately show ?thesis by blast
qed

lemma umoved_word:
  assumes "um_inj um" "0 \<le> w" "useracc um w 1" "\<And>j. j < 6 \<Longrightarrow> wbyte x j = f (int j)"
  shows "umoved um (M(physaddr um w := x)) M (6 * w) 6 f"
  unfolding umoved_def
proof (intro conjI allI impI)
  fix a assume a: "0 \<le> a \<and> useracc um (a div 6) 1"
  have "moved ((vmem um M)(w := x)) (vmem um M) (6 * w) 6 f" using assms(4) by (rule moved_word)
  moreover have "rdb (vmem um (M(physaddr um w := x))) a = rdb ((vmem um M)(w := x)) a"
    using rdb_vmem_upd [OF assms(1-3), of a M x] a by (simp only: rdb_upd)
  ultimately show "rdb (vmem um (M(physaddr um w := x))) a =
      (if 6 * w \<le> a \<and> a < 6 * w + 6 then f (a - 6 * w) else rdb (vmem um M) a)"
    unfolding moved_def by simp
next
  fix p assume "\<forall>a. 6 * w \<le> a \<and> a < 6 * w + 6 \<longrightarrow> physaddr um (a div 6) \<noteq> p"
  from this [rule_format, of "6 * w"] show "(M(physaddr um w := x)) p = M p" by simp
qed

lemma out_bytes_ok:
  "um_inj um \<Longrightarrow> umapped um to (int n) \<Longrightarrow> 0 \<le> to \<Longrightarrow>
   \<exists>M'. out_bytes um K from to n M = (0, M') \<and> umoved um M' M to (int n) (\<lambda>i. rdb K (from + i))"
proof (induction n arbitrary: "from" to M)
  case (Suc n)
  have m: "useracc um (to div 6) 1" using umapped_at [OF Suc.prems(2), of to] by simp
  obtain M1 where M1: "subyte um M to (rdb K from) = (0, M1)" "umoved um M1 M to 1 (\<lambda>_. rdb K from)"
    using umoved_byte [OF Suc.prems(1,3) m, of M "rdb K from"] by auto
  have "umapped um (to + 1) (int n)" using Suc.prems(2) by (rule umapped_sub) auto
  with Suc.IH [of "to + 1" "from + 1" M1] Suc.prems(1,3) obtain M' where
    M': "out_bytes um K (from + 1) (to + 1) n M1 = (0, M')"
      "umoved um M' M1 (to + 1) (int n) (\<lambda>i. rdb K (from + 1 + i))" by auto
  have "umoved um M1 M to 1 (\<lambda>i. rdb K (from + i))"
    using M1(2) unfolding umoved_def by (auto simp: order_le_less)
  from umoved_trans [OF this M'(2)] have "umoved um M' M to (1 + int n) (\<lambda>i. rdb K (from + i))"
    by (simp add: algebra_simps)
  then show ?case using M1(1) M'(1) by simp
qed simp

lemma words_out_ok:
  "um_inj um \<Longrightarrow> 0 \<le> tw \<Longrightarrow> umapped um (6 * tw) (6 * int n) \<Longrightarrow>
   umoved um (words_out um K fw tw n M) M (6 * tw) (6 * int n) (\<lambda>i. rdb K (6 * fw + i))"
proof (induction n arbitrary: fw tw M)
  case (Suc n)
  let ?M = "M(physaddr um tw := K fw)"
  have "useracc um tw 1" using umapped_at [OF Suc.prems(3), of "6 * tw"] by simp
  then have b: "umoved um ?M M (6 * tw) 6 (\<lambda>i. rdb K (6 * fw + i))"
    by (intro umoved_word [OF Suc.prems(1,2)]) (simp_all add: rdb_def)
  have "umapped um (6 * tw + 6) (6 * int n)" using Suc.prems(3) by (rule umapped_sub) auto
  then have a: "umoved um (words_out um K (fw + 1) (tw + 1) n ?M) ?M (6 * tw + 6) (6 * int n) (\<lambda>i. rdb K (6 * (fw + 1) + i))"
    using Suc.IH [OF Suc.prems(1), of "tw + 1" "fw + 1" ?M] Suc.prems(2) by (simp only: distrib_left mult_1_right)
  have "umoved um (words_out um K (fw + 1) (tw + 1) n ?M) M (6 * tw) (6 + 6 * int n) (\<lambda>i. rdb K (6 * fw + i))"
    by (rule umoved_trans [OF b a]) (auto simp: algebra_simps)
  then show ?case by simp
qed simp

lemma funnel_out_ok:
  assumes "0 < k" "k < 6" "um_inj um"
  shows "p mod 6 = int k \<Longrightarrow> 0 \<le> tp \<Longrightarrow> tp mod 6 = 0 \<Longrightarrow> umapped um tp (6 * int n) \<Longrightarrow>
    \<exists>M'. funnel_out um K (p div 6) tp (K (p div 6)) (8 * k) (8 * (6 - k)) n M = (0, M') \<and>
      umoved um M' M tp (6 * int n) (\<lambda>i. rdb K (p + i))"
proof (induction n arbitrary: p tp M)
  case (Suc n)
  let ?x = "push_bit (8 * k) (K (p div 6)) OR drop_bit (8 * (6 - k)) (K (p div 6 + 1))"
  let ?M = "M(physaddr um (tp div 6) := ?x)"
  have d: "(p + 6) div 6 = p div 6 + 1" "(p + 6) mod 6 = int k" using Suc.prems(1) by simp_all
  have t: "0 \<le> tp div 6" "6 * (tp div 6) = tp" using Suc.prems(2,3) by (auto simp: pos_imp_zdiv_nonneg_iff)
  have m: "useracc um (tp div 6) 1" using umapped_at [OF Suc.prems(4), of tp] by simp
  have W: "umoved um ?M M tp 6 (\<lambda>i. rdb K (p + i))"
  proof -
    have x: "wbyte ?x j = rdb K (p + int j)" if "j < 6" for j
      unfolding rdb_def phase_step [OF Suc.prems(1) assms(2) that] funnel_word [OF assms(1,2) that] by simp
    have "umoved um ?M M (6 * (tp div 6)) 6 (\<lambda>i. rdb K (p + i))"
      by (rule umoved_word [OF assms(3) t(1) m x])
    then show ?thesis by (simp only: t(2))
  qed
  have "umapped um (tp + 6) (6 * int n)" using Suc.prems(4) by (rule umapped_sub) auto
  with Suc.IH [of "p + 6" "tp + 6" ?M] d Suc.prems(2,3) obtain M' where
    M': "funnel_out um K (p div 6 + 1) (tp + 6) (K (p div 6 + 1)) (8 * k) (8 * (6 - k)) n ?M = (0, M')"
      "umoved um M' ?M (tp + 6) (6 * int n) (\<lambda>i. rdb K (p + 6 + i))" by (metis d(1) mod_add_self2 add_nonneg_nonneg zero_le_numeral)
  have "funnel_out um K (p div 6) tp (K (p div 6)) (8 * k) (8 * (6 - k)) (Suc n) M = (0, M')"
    using M'(1) m by (simp add: suword_def ptrword_def)
  moreover have "umoved um M' M tp (6 + 6 * int n) (\<lambda>i. rdb K (p + i))"
    by (rule umoved_trans [OF W M'(2)]) (auto simp: algebra_simps)
  moreover have "6 + 6 * int n = 6 * int (Suc n)" by simp
  ultimately show ?case by (simp only:) blast
qed simp

lemma mid_out_ok:
  assumes "um_inj um" "to mod 6 = 0 \<or> mid = 0" "mid mod 6 = 0" "0 \<le> mid" "umapped um to mid" "0 \<le> to"
    and "mid < 16390 \<or> from mod 6 \<noteq> to mod 6"
  shows "\<exists>M' bulk shift. mid_out um K from to mid M = (0, M', bulk, shift) \<and> bulk + shift = mid \<and>
           umoved um M' M to mid (\<lambda>i. rdb K (from + i))"
proof (cases "mid = 0")
  case False
  then have mid: "0 < mid" and to: "to mod 6 = 0" using assms by auto
  have e: "6 * (to div 6) = to" "6 * (mid div 6) = mid" "6 * int (nat (mid div 6)) = mid"
    using to assms(3) mid by auto
  have t0: "0 \<le> to div 6" using assms(6) by (simp add: pos_imp_zdiv_nonneg_iff)
  show ?thesis
  proof (cases "from mod 6 = 0")
    case True
    have "umoved um (words_out um K (from div 6) (to div 6) (nat (mid div 6)) M) M to mid (\<lambda>i. rdb K (6 * (from div 6) + i))"
      using words_out_ok [OF assms(1) t0, of "nat (mid div 6)" K "from div 6" M] e assms(5) by simp
    moreover have "useracc um (to div 6) (mid div 6)"
      using assms(5) e t0 mid by (intro umapped_useracc) auto
    moreover have "6 * (from div 6) = from" using True by auto
    ultimately show ?thesis using True to False divword_floor [of mid] assms(4,7)
      by (simp add: mid_out_def ptrbyte_eq copyout_def ptrword_def pos_imp_zdiv_nonneg_iff)
  next
    case ne: False
    define k where "k = nat (from mod 6)"
    have k: "0 < k" "k < 6" "from mod 6 = int k" using ne by (auto simp: k_def nat_less_iff order_le_less)
    moreover have "nat (8 * (NBPW - 1 - ptrbyte from)) = 8 * k"
      "nat (8 * (NBPW - (NBPW - 1 - ptrbyte from))) = 8 * (6 - k)"
      using k by (auto simp: ptrbyte_def nat_mult_distrib nat_diff_distrib)
    ultimately show ?thesis
      using funnel_out_ok [OF k(1,2) assms(1) k(3) assms(6) to, of "nat (mid div 6)" K M] ne to False assms(5) e
      by (auto simp: mid_out_def ptrbyte_eq Let_def ptrword_def)
  qed
qed (simp add: mid_out_def)

lemma copyoutb_moves:
  assumes "um_inj um" "0 \<le> to" "0 < n" "uspan um to n" "n < 16390 \<or> \<not> in_phase from to"
  shows "\<exists>M' bulk edge shift. copyoutb um K from to n M = (0, M', bulk, edge, shift) \<and> bulk + edge + shift = n \<and>
           umoved um M' M to n (\<lambda>i. rdb K (from + i))"
proof -
  define lead where "lead = lead_of to n"
  define mid where "mid = (n - lead) - (n - lead) mod 6"
  note parts = copy_parts [OF assms(3), of to, folded lead_def, folded mid_def]
  let ?tail = "n - lead - mid"
  have um: "umapped um to n" using assms(4,2,3) by (rule uspan_umapped)
  obtain M1 where M1: "out_bytes um K from to (nat lead) M = (0, M1)" "umoved um M1 M to lead (\<lambda>i. rdb K (from + i))"
    using out_bytes_ok [OF assms(1), of to "nat lead" K "from" M] umapped_sub [OF um, of to lead] parts(1-3) assms(2)
    by auto
  have "umapped um (to + lead) mid" by (rule umapped_sub [OF um]) (use parts in auto)
  then obtain M2 bulk shift where M2: "mid_out um K (from + lead) (to + lead) mid M1 = (0, M2, bulk, shift)"
    "bulk + shift = mid" "umoved um M2 M1 (to + lead) mid (\<lambda>i. rdb K (from + lead + i))"
    using mid_out_ok [OF assms(1) parts(5,4,2), of "from + lead" K M1] parts(1-3) assms(2,5) by (auto simp: in_phase_add)
  have "umapped um (to + lead + mid) ?tail" by (rule umapped_sub [OF um]) (use parts in auto)
  then obtain M3 where M3: "out_bytes um K (from + lead + mid) (to + lead + mid) (nat ?tail) M2 = (0, M3)"
    "umoved um M3 M2 (to + lead + mid) ?tail (\<lambda>i. rdb K (from + lead + mid + i))"
    using out_bytes_ok [OF assms(1), of "to + lead + mid" "nat ?tail" K "from + lead + mid" M2] parts assms(2) by auto
  have m2: "umoved um M2 M to (lead + mid) (\<lambda>i. rdb K (from + i))"
    by (rule umoved_trans [OF M1(2) M2(3)]) (use parts in \<open>auto simp: algebra_simps\<close>)
  have "umoved um M3 M to (lead + mid + ?tail) (\<lambda>i. rdb K (from + i))"
    by (rule umoved_trans [OF m2]) (use parts M3(2) in \<open>auto simp: algebra_simps\<close>)
  moreover have "copyoutb um K from to n M = (0, M3, bulk, lead + ?tail, shift)"
    using assms(3,4) M1(1) M2(1) M3(1)
    by (simp add: copyoutb_def Let_def lead_def [symmetric] mid_def [symmetric])
  ultimately show ?thesis using M2(2) by auto
qed

lemma maps_um_inj:
  assumes "maps_image tp dp nt nd ns s" "nt + nd \<le> 28"
    and "0 < tp" "tp + int nt \<le> 1024" "0 \<le> dp" "dp + 1 + int nd + int ns \<le> 1024"
    and "tp + int nt \<le> dp \<or> dp + 1 + int nd + int ns \<le> tp"
  shows "um_inj (u_upt (k_u s))"
  unfolding um_inj_def
proof (intro allI impI)
  fix v w assume a: "0 \<le> v \<and> 0 \<le> w \<and> useracc (u_upt (k_u s)) v 1 \<and> useracc (u_upt (k_u s)) w 1 \<and> v \<noteq> w"
  have m: "x < NPAGE * PGSZ \<and> uptget (u_upt (k_u s)) (nat (x div PGSZ)) \<noteq> 0"
    if "0 \<le> x" "useracc (u_upt (k_u s)) x 1" for x
    using that useracc_iff [of x 1 "u_upt (k_u s)"] by simp
  have "uptget (u_upt (k_u s)) (nat (v div PGSZ)) \<noteq> 0" using m [of v] a by blast
  then have "0 < uint (uptget (u_upt (k_u s)) (nat (v div PGSZ)))"
    using uint_0_iff [of "uptget (u_upt (k_u s)) (nat (v div PGSZ))"] by (metis order_le_less uint_ge_0)
  then have "physaddr (u_upt (k_u s)) v \<noteq> 0"
    using m [of v] a pos_mod_sign [of PGSZ v] by (auto simp: physaddr_eq)
  with physaddr_inj [OF assms, of v w] m [of v] m [of w] a
  show "physaddr (u_upt (k_u s)) v \<noteq> physaddr (u_upt (k_u s)) w" by auto
qed

lemma demo_uspan: "maps_image 20 40 2 3 1 s \<Longrightarrow> uspan (u_upt (k_u s)) 12291 20"
  using demo_page [of s 2] by (simp add: uspan_def useracc_def ptrbyte_def ptrword_def drop_bit_eq_div page_of_def)

subsection \<open>Properties\<close>

text \<open>
  C1: \<open>copyinb\<close> is all-or-nothing and independent of the alignment of its two pointers, for every
  count below 16390 and, when the pointers are out of phase, for every count: when some
  word of the user's range is not mapped it returns -1 with the kernel memory unchanged;
  otherwise it returns 0, byte \<open>i\<close> of the destination is byte \<open>i\<close> of the user's range for every
  \<open>i < n\<close>, no other kernel byte changes, and the three traffic counters add up to \<open>n\<close>.  The bound is
  that of \<open>divword\<close>.
\<close>

theorem copyinb_copies:
  assumes "0 \<le> from" "0 < n" "n < 16390 \<or> \<not> in_phase from to"
  shows "if uspan um from n
     then \<exists>K' bulk edge shift. copyinb um M from to n K = (0, K', bulk, edge, shift) \<and> bulk + edge + shift = n \<and>
            (\<forall>a. rdb K' a = (if to \<le> a \<and> a < to + n then rdb (vmem um M) (from + (a - to)) else rdb K a))
     else copyinb um M from to n K = (-1, K, 0, 0, 0)"
  using copyinb_moves [OF assms(1,2) _ assms(3), of um M K] assms(2) by (auto simp: moved_def copyinb_def)

theorem copyinb_copies_witness:
  "\<exists>s' K' bulk edge shift. sureg demo_image = Some s' \<and>
     copyinb (u_upt (k_u s')) (\<lambda>_. 5) 12291 1 20 (\<lambda>_. 7) = (0, K', bulk, edge, shift) \<and> bulk + edge + shift = 20"
proof -
  obtain s' where s': "sureg demo_image = Some s'" "maps_image 20 40 2 3 1 s'" using demo_image_maps by blast
  have "uspan (u_upt (k_u s')) 12291 20" using demo_uspan [OF s'(2)] .
  with copyinb_copies [of 12291 20 1 "u_upt (k_u s')" "\<lambda>_. 5" "\<lambda>_. 7"] s'(1) show ?thesis
    by (simp only: if_True) auto
qed

text \<open>
  C2: \<open>copyoutb\<close>, under a page table that maps no two user words to one physical word, is
  all-or-nothing for every count below 16390 and, when the pointers are out of phase, for every
  count: when some word of the user's range is not mapped it returns -1 with memory
  unchanged; otherwise the user sees exactly the bytes of the range replaced by the kernel's, at
  any alignment, and physically no word outside the range is touched.
\<close>

theorem copyoutb_copies:
  assumes "um_inj um" "0 \<le> to" "0 < n" "n < 16390 \<or> \<not> in_phase from to"
  shows "if uspan um to n
     then \<exists>M' bulk edge shift. copyoutb um K from to n M = (0, M', bulk, edge, shift) \<and> bulk + edge + shift = n \<and>
            umoved um M' M to n (\<lambda>i. rdb K (from + i))
     else copyoutb um K from to n M = (-1, M, 0, 0, 0)"
  using copyoutb_moves [OF assms(1-3) _ assms(4), of K M] assms(3) by (auto simp: copyoutb_def)

theorem copyoutb_copies_witness:
  "\<exists>s' M' bulk edge shift. sureg demo_image = Some s' \<and>
     copyoutb (u_upt (k_u s')) (\<lambda>_. 5) 1 12291 20 (\<lambda>_. 7) = (0, M', bulk, edge, shift) \<and> bulk + edge + shift = 20"
proof -
  obtain s' where s': "sureg demo_image = Some s'" "maps_image 20 40 2 3 1 s'" using demo_image_maps by blast
  have "um_inj (u_upt (k_u s'))" by (rule maps_um_inj [OF s'(2)]) auto
  moreover have "uspan (u_upt (k_u s')) 12291 20" using demo_uspan [OF s'(2)] .
  ultimately show ?thesis
    using copyoutb_copies [of "u_upt (k_u s')" 12291 20 1 "\<lambda>_. 5" "\<lambda>_. 7"] s'(1) by (simp only: if_True) auto
qed



end
