(* ===== verification/Sched.thy ===== *)
theory Sched
  imports Ucopy
begin

section \<open>Sleeping, waking and switching (kernel/slp.c, kernel/sig.c, kernel/switch.s)\<close>

text \<open>
  The sleep queues, the run queue, the dispatcher and the part of the signal code they call.
  The queues are linked through \<open>p_link\<close>; walking one takes fuel, since nothing in the data
  rules out a cycle, and a walk that exceeds it is \<open>Hang\<close>.  A queue holds at most \<open>NPROC\<close>
  processes and \<open>wakeup\<close> nests at most once, so the fuel below is enough for every well-formed
  state (lemma \<open>wakeup_ok\<close>).  The interrupt levels (\<open>spl\<close>) have no counterpart: an interrupt is
  one of the things that may happen between a suspension and its resumption.
\<close>

subsection \<open>The u-area and the switch\<close>

text \<open>\<open>uflush\<close> and \<open>uload\<close> copy the live u-area to and from the first page of a process image;
  \<open>resume\<close> does both unless the u-area is already the right one.  The kernel stack in the same
  page is the continuation of a suspended run, not part of the record.\<close>

definition uflush :: "env \<Rightarrow> int \<Rightarrow> kst \<Rightarrow> kst" where
  "uflush e a s = s\<lparr>k_mem := (\<lambda>i. if a \<le> i \<and> i < a + USIZE then e_uwords e (k_u s) (i - a) else k_mem s i)\<rparr>"

definition uload :: "env \<Rightarrow> int \<Rightarrow> kst \<Rightarrow> kst" where
  "uload e a s = s\<lparr>k_u := e_uread e (\<lambda>i. k_mem s (a + i))\<rparr>"

definition resume_u :: "env \<Rightarrow> int \<Rightarrow> kst \<Rightarrow> kst" where
  "resume_u e a s =
     (if a = k_uhome s then s
      else (uload e a (if k_uhome s = 0 then s else uflush e (k_uhome s) s))\<lparr>k_uhome := a\<rparr>)"

definition sureg_k :: "unit km" where
  "sureg_k s = (case sureg s of None \<Rightarrow> Panic ''bad address'' s | Some s' \<Rightarrow> Ret () s')"

abbreviation curproc :: "kst \<Rightarrow> nat" where
  "curproc s \<equiv> u_procp (k_u s)"

definition swtch :: "env \<Rightarrow> unit km" where
  "swtch e s =
     (if curproc s \<noteq> 0 then Swtch (resume_u e (p_addr (k_proc s 0)) s) sureg_k
      else Swtch s (ret ()))"

text \<open>The search of the dispatcher: \<open>pp\<close> and \<open>pq\<close> are the best process so far and its
  predecessor, \<open>n\<close> its priority.\<close>

fun swtch_loop :: "nat \<Rightarrow> (nat \<Rightarrow> proc) \<Rightarrow> nat option \<Rightarrow> nat option \<Rightarrow> nat option \<Rightarrow> nat option \<Rightarrow> int \<Rightarrow>
    (nat option \<times> nat option \<times> int) option" where
  "swtch_loop 0 P p q pp pq n = None"
| "swtch_loop (Suc f) P None q pp pq n = Some (pp, pq, n)"
| "swtch_loop (Suc f) P (Some p) q pp pq n =
     (if p_stat (P p) = SRUN \<and> SLOAD \<in> p_flag (P p) \<and> p_pri (P p) < n
      then swtch_loop f P (p_link (P p)) (Some p) (Some p) q (p_pri (P p))
      else swtch_loop f P (p_link (P p)) (Some p) pp pq n)"

definition swtch_search :: "(nat option) km" where
  "swtch_search s =
     (let s = s\<lparr>k_runrun := 0\<rparr>
      in case swtch_loop (Suc NPROC) (k_proc s) (k_runq s) None None None 128 of
           None \<Rightarrow> Hang
         | Some (None, pq, n) \<Rightarrow> Ret None s
         | Some (Some p, pq, n) \<Rightarrow>
             (let s1 = (case pq of
                          None \<Rightarrow> s\<lparr>k_runq := p_link (k_proc s p)\<rparr>
                        | Some q \<Rightarrow> upd_proc q (\<lambda>r. r\<lparr>p_link := p_link (k_proc s p)\<rparr>) s)
              in Ret (Some p) (s1\<lparr>k_curpri := n, k_nswtch := k_nswtch s1 + 1\<rparr>)))"

text \<open>Enter the chosen process; the result tells which label, \<open>u_ssav\<close> or \<open>u_rsav\<close>, it
  continues at.\<close>

definition dispatch :: "env \<Rightarrow> nat \<Rightarrow> kst \<Rightarrow> bool \<times> kst" where
  "dispatch e p s =
     (SSWAP \<in> p_flag (k_proc s p),
      resume_u e (p_addr (k_proc s p)) (upd_proc p (\<lambda>r. r\<lparr>p_flag := p_flag r - {SSWAP}\<rparr>) s))"

subsection \<open>Queues\<close>

abbreviation (input) SQSIZE :: int where "SQSIZE \<equiv> 64"

definition hash :: "env \<Rightarrow> chan \<Rightarrow> nat" where
  "hash e x = nat (drop_bit 5 (e_addr e x) AND (SQSIZE - 1))"

text \<open>The scheduling flags and the reference counts are \<open>char\<close>, which is unsigned.\<close>

definition cinc :: "int \<Rightarrow> int" where
  "cinc x = (x + 1) mod 256"

definition cdec :: "int \<Rightarrow> int" where
  "cdec x = (x - 1) mod 256"

fun on_runq :: "nat \<Rightarrow> (nat \<Rightarrow> proc) \<Rightarrow> nat option \<Rightarrow> nat \<Rightarrow> bool option" where
  "on_runq 0 P q p = None"
| "on_runq (Suc f) P None p = Some False"
| "on_runq (Suc f) P (Some q) p = (if q = p then Some True else on_runq f P (p_link (P q)) p)"

definition setrq :: "nat \<Rightarrow> unit km" where
  "setrq p s =
     (case on_runq (Suc NPROC) (k_proc s) (k_runq s) p of
        None \<Rightarrow> Hang
      | Some True \<Rightarrow> Ret () (klog ''proc on q'' s)
      | Some False \<Rightarrow> Ret () ((upd_proc p (\<lambda>r. r\<lparr>p_link := k_runq s\<rparr>) s)\<lparr>k_runq := Some p\<rparr>))"

definition qswtch :: "env \<Rightarrow> unit km" where
  "qswtch e = seq [\<lambda>s. setrq (curproc s) s, swtch e]"

fun wakeup_loop :: "env \<Rightarrow> nat \<Rightarrow> chan \<Rightarrow> nat option \<Rightarrow> nat option \<Rightarrow> unit km"
  and setrun_f :: "env \<Rightarrow> nat \<Rightarrow> nat \<Rightarrow> unit km" where
  "wakeup_loop e 0 ch p q s = Hang"
| "wakeup_loop e (Suc f) ch None q s = Ret () s"
| "wakeup_loop e (Suc f) ch (Some p) q s =
     (if p_wchan (k_proc s p) = Some ch \<and> p_stat (k_proc s p) \<noteq> SZOMB then
        (let sp = p_link (k_proc s p);
             s1 = (case q of None \<Rightarrow> s\<lparr>k_slpque := (k_slpque s)(hash e ch := sp)\<rparr>
                   | Some q' \<Rightarrow> upd_proc q' (\<lambda>r. r\<lparr>p_link := sp\<rparr>) s);
             s2 = upd_proc p (\<lambda>r. r\<lparr>p_wchan := None\<rparr>) s1
         in bindr (setrun_f e f p s2) (\<lambda>_. wakeup_loop e f ch sp q))
      else wakeup_loop e f ch (p_link (k_proc s p)) (Some p) s)"
| "setrun_f e 0 p s = Hang"
| "setrun_f e (Suc f) p s =
     (if p_stat (k_proc s p) = SNONE \<or> p_stat (k_proc s p) = SZOMB then Panic ''Running a dead proc'' s
      else case p_wchan (k_proc s p) of
        Some w \<Rightarrow> wakeup_loop e f w (k_slpque s (hash e w)) None s
      | None \<Rightarrow>
          bindr (setrq p (upd_proc p (\<lambda>r. r\<lparr>p_stat := SRUN\<rparr>) s)) (\<lambda>_ s1.
            let s2 = (if p_pri (k_proc s1 p) < k_curpri s1 then s1\<lparr>k_runrun := cinc (k_runrun s1)\<rparr> else s1)
            in if k_runout s2 \<noteq> 0 \<and> SLOAD \<notin> p_flag (k_proc s2 p)
               then wakeup_loop e f Ch_runout (k_slpque s2 (hash e Ch_runout)) None (s2\<lparr>k_runout := 0\<rparr>)
               else Ret () s2))"

abbreviation (input) QFUEL :: nat where "QFUEL \<equiv> 2 * NPROC + 8"

definition wakeup :: "env \<Rightarrow> chan \<Rightarrow> unit km" where
  "wakeup e ch s = wakeup_loop e QFUEL ch (k_slpque s (hash e ch)) None s"

definition setrun :: "env \<Rightarrow> nat \<Rightarrow> unit km" where
  "setrun e p = setrun_f e QFUEL p"

definition setpri :: "nat \<Rightarrow> kst \<Rightarrow> int \<times> kst" where
  "setpri pp s =
     (let r = k_proc s pp;
          p0 = (p_cpu r AND 255) div 16 + (PUSER + p_nice r - NZERO);
          p = (if p0 > 127 then 127 else p0);
          s1 = (if p < k_curpri s then s\<lparr>k_runrun := cinc (k_runrun s)\<rparr> else s)
      in (p, upd_proc pp (\<lambda>r. r\<lparr>p_pri := p\<rparr>) s1))"

text \<open>\<open>mfree\<close> (kernel/malloc.c): freeing core wakes the swapper when it waits for core.\<close>

definition mfree_core :: "env \<Rightarrow> int \<Rightarrow> int \<Rightarrow> unit km" where
  "mfree_core e sz a = seq [
     ifs (\<lambda>s. k_runin s \<noteq> 0) (\<lambda>s. wakeup e Ch_runin (s\<lparr>k_runin := 0\<rparr>)) (ret ()),
     bind (need (\<lambda>s. mfree_map (k_coremap s) sz a)) (\<lambda>m. modify (\<lambda>s. s\<lparr>k_coremap := m\<rparr>))]"

definition mfree_swap :: "int \<Rightarrow> int \<Rightarrow> unit km" where
  "mfree_swap sz a = bind (need (\<lambda>s. mfree_map (k_swapmap s) sz a)) (\<lambda>m. modify (\<lambda>s. s\<lparr>k_swapmap := m\<rparr>))"

definition malloc_core :: "int \<Rightarrow> int km" where
  "malloc_core sz = bind (need (\<lambda>s. malloc (k_coremap s) sz)) (\<lambda>(a, m).
     andthen (modify (\<lambda>s. s\<lparr>k_coremap := m\<rparr>)) (ret a))"

definition malloc_swap :: "int \<Rightarrow> int km" where
  "malloc_swap sz = bind (need (\<lambda>s. malloc (k_swapmap s) sz)) (\<lambda>(a, m).
     andthen (modify (\<lambda>s. s\<lparr>k_swapmap := m\<rparr>)) (ret a))"

subsection \<open>Signals\<close>

function fsig_from :: "int \<Rightarrow> nat \<Rightarrow> nat" where
  "fsig_from n i =
     (if i < NSIG then if n AND 1 \<noteq> 0 then i else fsig_from (drop_bit 1 n) (Suc i) else 0)"
  by pat_completeness auto
termination by (relation "measure (\<lambda>(n, i). NSIG - i)") auto

declare fsig_from.simps [simp del]

definition fsig :: "proc \<Rightarrow> nat" where
  "fsig r = fsig_from (p_sig r) 1"

definition sigbit :: "nat \<Rightarrow> int" where
  "sigbit n = push_bit (n - 1) 1"

fun issig_loop :: "nat \<Rightarrow> nat km" where
  "issig_loop 0 s = Hang"
| "issig_loop (Suc f) s =
     (let p = curproc s; r = k_proc s p
      in if p_sig r \<noteq> 0 then
           (let n = fsig r
            in if u_signal (k_u s) n \<noteq> 1 \<or> STRC \<in> p_flag r then Ret n s
               else issig_loop f (upd_proc p (\<lambda>r. r\<lparr>p_sig := p_sig r AND NOT (sigbit n)\<rparr>) s))
         else Ret 0 s)"

definition issig :: "nat km" where
  "issig = issig_loop (Suc NSIG)"

definition psignal :: "env \<Rightarrow> nat \<Rightarrow> int \<Rightarrow> unit km" where
  "psignal e p sig =
     (if sig < 0 \<or> sig \<ge> int NSIG then ret ()
      else seq [
        guard (sig \<noteq> 0) (modify (upd_proc p (\<lambda>r. r\<lparr>p_sig := p_sig r OR sigbit (nat sig)\<rparr>))),
        ifs (\<lambda>s. p_pri (k_proc s p) > PUSER) (modify (upd_proc p (\<lambda>r. r\<lparr>p_pri := PUSER\<rparr>))) (ret ()),
        ifs (\<lambda>s. p_stat (k_proc s p) = SSLEEP \<and> p_pri (k_proc s p) > PZERO) (setrun e p) (ret ())])"

text \<open>\<open>signal\<close>: to every process of the group.\<close>

fun signal_loop :: "env \<Rightarrow> int \<Rightarrow> int \<Rightarrow> nat list \<Rightarrow> unit km" where
  "signal_loop e pgrp sig [] = ret ()"
| "signal_loop e pgrp sig (p # ps) = seq [
     ifs (\<lambda>s. p_pgrp (k_proc s p) = pgrp) (psignal e p sig) (ret ()),
     signal_loop e pgrp sig ps]"

definition signal :: "env \<Rightarrow> int \<Rightarrow> int \<Rightarrow> unit km" where
  "signal e pgrp sig = (if pgrp = 0 then ret () else signal_loop e pgrp sig [0 ..< NPROC])"

subsection \<open>Sleep\<close>

text \<open>The exit of an interrupted sleep: \<open>resume(u.u_procp->p_addr, u.u_qsav)\<close>.\<close>

definition longjmp :: "env \<Rightarrow> 'a km" where
  "longjmp e s = Jump (resume_u e (p_addr (k_proc s (curproc s))) s)"

text \<open>A channel is the address of an object, so the two panics of \<open>sleep\<close> for a zero channel
  have no counterpart.\<close>

definition sleep :: "env \<Rightarrow> chan \<Rightarrow> int \<Rightarrow> unit km" where
  "sleep e ch pri s =
     (let rp = curproc s; h = hash e ch
      in seq [
        modify (\<lambda>s. upd_proc rp (\<lambda>r. r\<lparr>p_stat := SSLEEP, p_wchan := Some ch, p_pri := pri, p_link := k_slpque s h\<rparr>) s),
        modify (\<lambda>s. s\<lparr>k_slpque := (k_slpque s)(h := Some rp)\<rparr>),
        if pri > PZERO then
          bind issig (\<lambda>n.
            if n \<noteq> 0 then seq [
              modify (upd_proc rp (\<lambda>r. r\<lparr>p_wchan := None, p_stat := SRUN\<rparr>)),
              modify (\<lambda>s. s\<lparr>k_slpque := (k_slpque s)(h := p_link (k_proc s rp))\<rparr>),
              longjmp e]
            else seq [
              ifs (\<lambda>s. k_runin s \<noteq> 0) (\<lambda>s. wakeup e Ch_runin (s\<lparr>k_runin := 0\<rparr>)) (ret ()),
              swtch e,
              bind issig (\<lambda>n. if n \<noteq> 0 then longjmp e else ret ())])
        else swtch e] s)"

end
