(* ===== verification/Bio.thy ===== *)
theory Bio
  imports Sched
begin

section \<open>The buffer cache (kernel/dev/bio.c)\<close>

text \<open>
  A buffer is on the list of its device (\<open>b_forw\<close>, \<open>b_back\<close>), and, when it is not busy, on the
  list of available buffers (\<open>av_forw\<close>, \<open>av_back\<close>).  The operations below are those of \<open>bio.c\<close>,
  with the pointer assignments in the order of the code.  A walk along a list takes fuel; a
  loop that sleeps has the fuel \<open>e_fuel\<close>, so that a theorem about every \<open>e_fuel\<close> is one about
  any number of wakeups.
\<close>

abbreviation bhas :: "bflag \<Rightarrow> bufp \<Rightarrow> kst \<Rightarrow> bool" where
  "bhas f bp s \<equiv> f \<in> b_flags (k_buf s bp)"

definition bset :: "bflag set \<Rightarrow> bufp \<Rightarrow> kst \<Rightarrow> kst" where
  "bset F bp = upd_buf bp (\<lambda>b. b\<lparr>b_flags := b_flags b \<union> F\<rparr>)"

definition bclr :: "bflag set \<Rightarrow> bufp \<Rightarrow> kst \<Rightarrow> kst" where
  "bclr F bp = upd_buf bp (\<lambda>b. b\<lparr>b_flags := b_flags b - F\<rparr>)"

definition strategy :: "env \<Rightarrow> int \<Rightarrow> bufp \<Rightarrow> unit km" where
  "strategy e dev bp = e_strategy e (major dev) bp"

definition geterror :: "bufp \<Rightarrow> kst \<Rightarrow> kst" where
  "geterror bp s =
     (if bhas B_ERROR bp s
      then set_error (if b_error (k_buf s bp) = 0 then EIO else b_error (k_buf s bp)) s
      else s)"

subsection \<open>The available list\<close>

definition notavail :: "bufp \<Rightarrow> kst \<Rightarrow> kst" where
  "notavail bp s =
     (let s1 = upd_buf (av_back (k_buf s bp)) (\<lambda>b. b\<lparr>av_forw := av_forw (k_buf s bp)\<rparr>) s;
          s2 = upd_buf (av_forw (k_buf s1 bp)) (\<lambda>b. b\<lparr>av_back := av_back (k_buf s1 bp)\<rparr>) s1
      in bset {B_BUSY} bp s2)"

definition av_head :: "bufp \<Rightarrow> kst \<Rightarrow> kst" where
  "av_head bp s =
     (let x = av_forw (k_buf s Bfreelist);
          s1 = upd_buf x (\<lambda>b. b\<lparr>av_back := bp\<rparr>) s;
          s2 = upd_buf bp (\<lambda>b. b\<lparr>av_forw := av_forw (k_buf s1 Bfreelist)\<rparr>) s1;
          s3 = upd_buf Bfreelist (\<lambda>b. b\<lparr>av_forw := bp\<rparr>) s2
      in upd_buf bp (\<lambda>b. b\<lparr>av_back := Bfreelist\<rparr>) s3)"

definition av_tail :: "bufp \<Rightarrow> kst \<Rightarrow> kst" where
  "av_tail bp s =
     (let x = av_back (k_buf s Bfreelist);
          s1 = upd_buf x (\<lambda>b. b\<lparr>av_forw := bp\<rparr>) s;
          s2 = upd_buf bp (\<lambda>b. b\<lparr>av_back := av_back (k_buf s1 Bfreelist)\<rparr>) s1;
          s3 = upd_buf Bfreelist (\<lambda>b. b\<lparr>av_back := bp\<rparr>) s2
      in upd_buf bp (\<lambda>b. b\<lparr>av_forw := Bfreelist\<rparr>) s3)"

definition brelse :: "env \<Rightarrow> bufp \<Rightarrow> unit km" where
  "brelse e bp = seq [
     ifs (bhas B_WANTED bp) (wakeup e (Ch_buf bp)) (ret ()),
     ifs (bhas B_WANTED Bfreelist) (seq [modify (bclr {B_WANTED} Bfreelist), wakeup e (Ch_buf Bfreelist)]) (ret ()),
     ifs (bhas B_ERROR bp) (modify (upd_buf bp (\<lambda>b. b\<lparr>b_dev := NODEV\<rparr>))) (ret ()),
     ifs (bhas B_AGE bp) (modify (av_head bp)) (modify (av_tail bp)),
     modify (bclr {B_WANTED, B_BUSY, B_ASYNC, B_AGE} bp)]"

subsection \<open>Transfers\<close>

definition iowait :: "env \<Rightarrow> bufp \<Rightarrow> unit km" where
  "iowait e bp = seq [
     whiles (e_fuel e) (\<lambda>s. \<not> bhas B_DONE bp s) (sleep e (Ch_buf bp) PRIBIO),
     modify (geterror bp)]"

definition iodone :: "env \<Rightarrow> bufp \<Rightarrow> unit km" where
  "iodone e bp = seq [
     modify (bset {B_DONE} bp),
     ifs (bhas B_ASYNC bp) (brelse e bp)
       (seq [modify (bclr {B_WANTED} bp), wakeup e (Ch_buf bp)])]"

definition bwrite :: "env \<Rightarrow> bufp \<Rightarrow> unit km" where
  "bwrite e bp s =
     (let flag = b_flags (k_buf s bp)
      in seq [
        modify (bclr {B_READ, B_DONE, B_ERROR, B_DELWRI, B_AGE} bp),
        modify (upd_buf bp (\<lambda>b. b\<lparr>b_wcount := BSIZEW\<rparr>)),
        modify (\<lambda>s. s\<lparr>k_io := (k_io s)\<lparr>io_nwrite := io_nwrite (k_io s) + 1\<rparr>\<rparr>),
        (\<lambda>s. strategy e (b_dev (k_buf s bp)) bp s),
        if B_ASYNC \<notin> flag then seq [iowait e bp, brelse e bp]
        else if B_DELWRI \<in> flag then modify (bset {B_AGE} bp)
        else modify (geterror bp)] s)"

definition bawrite :: "env \<Rightarrow> bufp \<Rightarrow> unit km" where
  "bawrite e bp = seq [modify (bset {B_ASYNC} bp), bwrite e bp]"

definition bdwrite :: "env \<Rightarrow> bufp \<Rightarrow> unit km" where
  "bdwrite e bp =
     bind (need (\<lambda>s. e_dtab e (major (b_dev (k_buf s bp))))) (\<lambda>dp.
       ifs (bhas B_TAPE dp) (bawrite e bp)
         (seq [modify (bset {B_DELWRI, B_DONE} bp), brelse e bp]))"

subsection \<open>Finding a buffer\<close>

fun find_blk :: "nat \<Rightarrow> (bufp \<Rightarrow> buf) \<Rightarrow> bufp \<Rightarrow> bufp \<Rightarrow> int \<Rightarrow> int \<Rightarrow> bufp option option" where
  "find_blk 0 B dp bp dev blkno = None"
| "find_blk (Suc f) B dp bp dev blkno =
     (if bp = dp then Some None
      else if b_blkno (B bp) = blkno \<and> b_dev (B bp) = dev then Some (Some bp)
      else find_blk f B dp (b_forw (B bp)) dev blkno)"

abbreviation (input) BFUEL :: nat where "BFUEL \<equiv> Suc NBUF"

definition incore :: "env \<Rightarrow> int \<Rightarrow> int \<Rightarrow> bool km" where
  "incore e dev blkno =
     bind (need (\<lambda>s. e_dtab e (major dev))) (\<lambda>dp s.
       case find_blk BFUEL (k_buf s) dp (b_forw (k_buf s dp)) dev blkno of
         None \<Rightarrow> Hang
       | Some r \<Rightarrow> Ret (r \<noteq> None) s)"

text \<open>The buffers behind this one on the available list, which \<open>io_info.bufcount\<close> counts.\<close>

fun av_behind :: "nat \<Rightarrow> (bufp \<Rightarrow> buf) \<Rightarrow> bufp \<Rightarrow> nat option" where
  "av_behind 0 B dp = None"
| "av_behind (Suc f) B dp = (if dp = Bfreelist then Some 0 else map_option Suc (av_behind f B (av_forw (B dp))))"

definition count_hit :: "nat \<Rightarrow> kst \<Rightarrow> kst" where
  "count_hit i s =
     (if i < NBUF
      then s\<lparr>k_io := (k_io s)\<lparr>io_bufcount := (io_bufcount (k_io s))(i := io_bufcount (k_io s) i + 1)\<rparr>\<rparr>
      else s)"

text \<open>The six pointer assignments that move a buffer to the head of the list of \<open>dp\<close>.\<close>

definition relist :: "bufp \<Rightarrow> bufp \<Rightarrow> kst \<Rightarrow> kst" where
  "relist dp bp s =
     (let s1 = upd_buf (b_back (k_buf s bp)) (\<lambda>b. b\<lparr>b_forw := b_forw (k_buf s bp)\<rparr>) s;
          s2 = upd_buf (b_forw (k_buf s1 bp)) (\<lambda>b. b\<lparr>b_back := b_back (k_buf s1 bp)\<rparr>) s1;
          s3 = upd_buf bp (\<lambda>b. b\<lparr>b_forw := b_forw (k_buf s2 dp)\<rparr>) s2;
          s4 = upd_buf bp (\<lambda>b. b\<lparr>b_back := dp\<rparr>) s3;
          s5 = upd_buf (b_forw (k_buf s4 dp)) (\<lambda>b. b\<lparr>b_back := bp\<rparr>) s4
      in upd_buf dp (\<lambda>b. b\<lparr>b_forw := bp\<rparr>) s5)"

primrec getblk_loop :: "env \<Rightarrow> nat \<Rightarrow> int \<Rightarrow> int \<Rightarrow> bufp km" where
  "getblk_loop e 0 dev blkno = hang"
| "getblk_loop e (Suc n) dev blkno = (\<lambda>s.
     case e_dtab e (major dev) of
       None \<Rightarrow> Panic ''devtab'' s
     | Some dp \<Rightarrow>
        (case find_blk BFUEL (k_buf s) dp (b_forw (k_buf s dp)) dev blkno of
           None \<Rightarrow> Hang
         | Some (Some bp) \<Rightarrow>
             if bhas B_BUSY bp s then
               andthen (seq [modify (bset {B_WANTED} bp), sleep e (Ch_buf bp) (PRIBIO + 1)])
                 (getblk_loop e n dev blkno) s
             else
               (case av_behind BFUEL (k_buf s) (av_forw (k_buf s bp)) of
                  None \<Rightarrow> Hang
                | Some i \<Rightarrow> Ret bp (notavail bp (count_hit i s)))
         | Some None \<Rightarrow>
             if av_forw (k_buf s Bfreelist) = Bfreelist then
               andthen (seq [modify (bset {B_WANTED} Bfreelist), sleep e (Ch_buf Bfreelist) (PRIBIO + 1)])
                 (getblk_loop e n dev blkno) s
             else
               (let bp = av_forw (k_buf s Bfreelist); s1 = notavail bp s
                in if bhas B_DELWRI bp s1 then
                     andthen (seq [modify (bset {B_ASYNC} bp), bwrite e bp]) (getblk_loop e n dev blkno) s1
                   else Ret bp (upd_buf bp (\<lambda>b. b\<lparr>b_dev := dev, b_blkno := blkno\<rparr>)
                          (relist dp bp (upd_buf bp (\<lambda>b. b\<lparr>b_flags := {B_BUSY}\<rparr>) s1))))))"

definition getblk :: "env \<Rightarrow> int \<Rightarrow> int \<Rightarrow> bufp km" where
  "getblk e dev blkno =
     (if major dev < 0 \<or> major dev \<ge> e_nblkdev e then panic ''blkdev''
      else getblk_loop e (e_fuel e) dev blkno)"

primrec geteblk_loop :: "env \<Rightarrow> nat \<Rightarrow> bufp km" where
  "geteblk_loop e 0 = hang"
| "geteblk_loop e (Suc n) =
     andthen
       (whiles (e_fuel e) (\<lambda>s. av_forw (k_buf s Bfreelist) = Bfreelist)
          (seq [modify (bset {B_WANTED} Bfreelist), sleep e (Ch_buf Bfreelist) (PRIBIO + 1)]))
       (\<lambda>s. let bp = av_forw (k_buf s Bfreelist); s1 = notavail bp s
            in if bhas B_DELWRI bp s1 then
                 andthen (seq [modify (bset {B_ASYNC} bp), bwrite e bp]) (geteblk_loop e n) s1
               else Ret bp (upd_buf bp (\<lambda>b. b\<lparr>b_dev := NODEV\<rparr>)
                      (relist Bfreelist bp (upd_buf bp (\<lambda>b. b\<lparr>b_flags := {B_BUSY}\<rparr>) s1))))"

definition geteblk :: "env \<Rightarrow> bufp km" where
  "geteblk e = geteblk_loop e (e_fuel e)"

subsection \<open>Reading\<close>

text \<open>Start reading a buffer.\<close>

definition start_read :: "env \<Rightarrow> int \<Rightarrow> bufp \<Rightarrow> bflag set \<Rightarrow> unit km" where
  "start_read e dev bp F = seq [
     modify (bset (insert B_READ F) bp),
     modify (upd_buf bp (\<lambda>b. b\<lparr>b_wcount := BSIZEW\<rparr>)),
     strategy e dev bp]"

definition bread :: "env \<Rightarrow> int \<Rightarrow> int \<Rightarrow> bufp km" where
  "bread e dev blkno =
     bind (getblk e dev blkno) (\<lambda>bp.
       ifs (bhas B_DONE bp)
         (andthen (modify (\<lambda>s. s\<lparr>k_io := (k_io s)\<lparr>io_ncache := io_ncache (k_io s) + 1\<rparr>\<rparr>)) (ret bp))
         (andthen (seq [
            start_read e dev bp {},
            modify (\<lambda>s. s\<lparr>k_io := (k_io s)\<lparr>io_nread := io_nread (k_io s) + 1\<rparr>\<rparr>),
            iowait e bp]) (ret bp)))"

definition breada :: "env \<Rightarrow> int \<Rightarrow> int \<Rightarrow> int \<Rightarrow> bufp km" where
  "breada e dev blkno rablkno =
     bind (bind (incore e dev blkno) (\<lambda>ic.
             if ic then ret None
             else bind (getblk e dev blkno) (\<lambda>bp.
               andthen (ifs (bhas B_DONE bp) (ret ()) (seq [
                 start_read e dev bp {},
                 modify (\<lambda>s. s\<lparr>k_io := (k_io s)\<lparr>io_nread := io_nread (k_io s) + 1\<rparr>\<rparr>)]))
               (ret (Some bp)))))
       (\<lambda>r. andthen
          (if rablkno = 0 then ret ()
           else bind (incore e dev rablkno) (\<lambda>ic.
             if ic then ret ()
             else bind (getblk e dev rablkno) (\<lambda>rabp.
               ifs (bhas B_DONE rabp) (brelse e rabp) (seq [
                 start_read e dev rabp {B_ASYNC},
                 modify (\<lambda>s. s\<lparr>k_io := (k_io s)\<lparr>io_nreada := io_nreada (k_io s) + 1\<rparr>\<rparr>)]))))
          (case r of
             None \<Rightarrow> bread e dev blkno
           | Some bp \<Rightarrow> andthen (iowait e bp) (ret bp)))"

subsection \<open>The rest\<close>

definition wzero :: "int \<Rightarrow> (int \<Rightarrow> w48) \<Rightarrow> int \<Rightarrow> w48" where
  "wzero n M = (\<lambda>i. if 0 \<le> i \<and> i < n then 0 else M i)"

definition clrbuf :: "bufp \<Rightarrow> kst \<Rightarrow> kst" where
  "clrbuf bp = upd_buf bp (\<lambda>b. b\<lparr>b_data := wzero BSIZEW (b_data b), b_resid := 0\<rparr>)"

fun find_delwri :: "nat \<Rightarrow> (bufp \<Rightarrow> buf) \<Rightarrow> bufp \<Rightarrow> int \<Rightarrow> bufp option option" where
  "find_delwri 0 B bp dev = None"
| "find_delwri (Suc f) B bp dev =
     (if bp = Bfreelist then Some None
      else if B_DELWRI \<in> b_flags (B bp) \<and> (dev = NODEV \<or> dev = b_dev (B bp)) then Some (Some bp)
      else find_delwri f B (av_forw (B bp)) dev)"

primrec bflush_loop :: "env \<Rightarrow> nat \<Rightarrow> int \<Rightarrow> unit km" where
  "bflush_loop e 0 dev = hang"
| "bflush_loop e (Suc n) dev = (\<lambda>s.
     case find_delwri BFUEL (k_buf s) (av_forw (k_buf s Bfreelist)) dev of
       None \<Rightarrow> Hang
     | Some None \<Rightarrow> Ret () s
     | Some (Some bp) \<Rightarrow> seq [
         modify (bset {B_ASYNC} bp), modify (notavail bp), bwrite e bp, bflush_loop e n dev] s)"

definition bflush :: "env \<Rightarrow> int \<Rightarrow> unit km" where
  "bflush e dev = bflush_loop e (e_fuel e) dev"

function swap_loop :: "env \<Rightarrow> bufp \<Rightarrow> int \<Rightarrow> int \<Rightarrow> int \<Rightarrow> bflag set \<Rightarrow> bool \<Rightarrow> bool km" where
  "swap_loop e bp blkno coreaddr count rdflg err =
     (if count \<noteq> 0 then
        (let tcount = (if count > PGSZ then PGSZ else count)
         in andthen
              (seq [
                 modify (upd_buf bp (\<lambda>b. b\<lparr>b_flags := {B_BUSY, B_PHYS} \<union> rdflg, b_dev := e_swapdev e,
                   b_wcount := tcount, b_blkno := e_swplo e + blkno, b_paddr := coreaddr\<rparr>)),
                 strategy e (e_swapdev e) bp,
                 whiles (e_fuel e) (\<lambda>s. \<not> bhas B_DONE bp s) (sleep e (Ch_buf bp) PSWP)])
              (bind (gets (bhas B_ERROR bp)) (\<lambda>er.
                 swap_loop e bp (blkno + wtodb tcount) (coreaddr + tcount) (count - tcount) rdflg (err \<or> er))))
      else ret err)"
  by pat_completeness auto
termination by (relation "measure (\<lambda>(e, bp, blkno, coreaddr, count, rdflg, err). nat \<bar>count\<bar>)") auto

declare swap_loop.simps [simp del]

definition swap :: "env \<Rightarrow> int \<Rightarrow> int \<Rightarrow> int \<Rightarrow> bflag set \<Rightarrow> unit km" where
  "swap e blkno coreaddr count rdflg =
     bind (gets (\<lambda>s. if bhas B_BUSY Swbuf1 s \<and> \<not> bhas B_WANTED Swbuf2 s then Swbuf2 else Swbuf1)) (\<lambda>bp.
       andthen
         (whiles (e_fuel e) (bhas B_BUSY bp)
            (seq [modify (bset {B_WANTED} bp), sleep e (Ch_buf bp) (PSWP + 1)]))
         (bind (swap_loop e bp blkno coreaddr count rdflg False) (\<lambda>err. seq [
            ifs (bhas B_WANTED bp) (wakeup e (Ch_buf bp)) (ret ()),
            modify (bclr {B_BUSY, B_WANTED} bp),
            guard err (panic ''IO err in swap'')])))"

text \<open>Raw I/O: \<open>base\<close> and \<open>nw\<close> are unsigned words.  A base that is not an address of the user
  (which no caller passes) is refused.\<close>

definition physio_range :: "kst \<Rightarrow> (int \<times> int) option" where
  "physio_range s =
     (case u_base (k_u s) of
        Kaddr k a \<Rightarrow> None
      | Uaddr a \<Rightarrow>
          if ptrbyte a \<noteq> 5 \<or> u_count (k_u s) mod NBPW \<noteq> 0 then None
          else
            (let base = ptrword a; nw = u_count (k_u s) div NBPW;
                 pa = physrange (u_upt (k_u s)) base nw
             in if nw = 0 \<or> (base + nw) mod 2 ^ 48 < base then None
                else if base < u_tsize (k_u s) then None
                else if base + nw > u_tsize (k_u s) + u_dsize (k_u s) \<and> base < USTKPAGE * PGSZ then None
                else if pa = 0 then None
                else Some (pa, nw)))"

definition physio :: "env \<Rightarrow> (bufp \<Rightarrow> unit km) \<Rightarrow> bufp \<Rightarrow> int \<Rightarrow> bflag set \<Rightarrow> unit km" where
  "physio e strat bp dev rw s =
     (case physio_range s of
        None \<Rightarrow> Ret () (set_error EFAULT s)
      | Some (pa, nw) \<Rightarrow> seq [
          whiles (e_fuel e) (bhas B_BUSY bp)
            (seq [modify (bset {B_WANTED} bp), sleep e (Ch_buf bp) (PRIBIO + 1)]),
          modify (\<lambda>s. upd_buf bp (\<lambda>b. b\<lparr>b_flags := {B_BUSY, B_PHYS} \<union> rw, b_dev := dev, b_paddr := pa,
            b_blkno := wtodb (btow (u_offset (k_u s))), b_wcount := nw, b_error := 0\<rparr>) s),
          modify (\<lambda>s. upd_proc (curproc s) (\<lambda>r. r\<lparr>p_flag := insert SLOCK (p_flag r)\<rparr>) s),
          strat bp,
          whiles (e_fuel e) (\<lambda>s. \<not> bhas B_DONE bp s) (sleep e (Ch_buf bp) PRIBIO),
          modify (\<lambda>s. upd_proc (curproc s) (\<lambda>r. r\<lparr>p_flag := p_flag r - {SLOCK}\<rparr>) s),
          ifs (bhas B_WANTED bp) (wakeup e (Ch_buf bp)) (ret ()),
          modify (bclr {B_BUSY, B_WANTED} bp),
          modify (\<lambda>s. upd_u (\<lambda>u. u\<lparr>u_count := wtob (b_resid (k_buf s bp))\<rparr>) s),
          modify (geterror bp)] s)"

end
