(* ===== verification/Prf.thy ===== *)
theory Prf
  imports State
begin

section \<open>The kernel's printf (kernel/prf.c)\<close>

text \<open>
  What the kernel prints goes to the console and, here, to \<open>k_log\<close>.  An argument of \<open>printf\<close> is
  a word or a string; an argument list that does not match the format has no result.
\<close>

datatype parg = Pint int | Pstr string

definition digit :: "int \<Rightarrow> char" where
  "digit d = ''0123456789abcdef'' ! nat d"

text \<open>The first loop of \<open>printn\<close>: the digits, least significant first, as they fill \<open>prbuf\<close>.\<close>

function printn_buf :: "int \<Rightarrow> int \<Rightarrow> string \<Rightarrow> string" where
  "printn_buf n b cp =
     (let cp1 = cp @ [digit (n mod b)]
      in if b > 1 \<and> n div b > 0 then printn_buf (n div b) b cp1 else cp1)"
  by pat_completeness auto
termination
proof (relation "measure (\<lambda>(n, b, cp). nat n)", goal_cases)
  case (2 n b cp cp1)
  then have "0 < n"
    by (meson less_le_not_le linorder_not_less pos_imp_zdiv_pos_iff order.strict_trans1 zero_less_one less_trans zle_add1_eq_le)
  with 2 have "n div b < n" by (simp add: int_div_less_self)
  with \<open>0 < n\<close> show ?case by simp
qed simp

declare printn_buf.simps [simp del]

definition printn :: "int \<Rightarrow> int \<Rightarrow> string" where
  "printn n b = rev (printn_buf n b [])"

text \<open>\<open>(long)va_arg(adx, unsigned)\<close>: the word of the argument read as unsigned.\<close>

definition as_unsigned :: "int \<Rightarrow> int" where
  "as_unsigned d = uint (wval d)"

fun printf_out :: "string \<Rightarrow> parg list \<Rightarrow> string option" where
  "printf_out [] as = Some []"
| "printf_out [c] as = (if c = CHR ''%'' then None else Some [c])"
| "printf_out (c # d # fmt) as =
     (if c \<noteq> CHR ''%'' then map_option ((#) c) (printf_out (d # fmt) as)
      else if d = CHR ''d'' then
        (case as of
           Pint x # as' \<Rightarrow>
             map_option (\<lambda>r. (if x < 0 then ''-'' @ printn (- x) 10 else printn x 10) @ r) (printf_out fmt as')
         | _ \<Rightarrow> None)
      else if d = CHR ''u'' \<or> d = CHR ''o'' \<or> d = CHR ''x'' then
        (case as of
           Pint x # as' \<Rightarrow>
             map_option (\<lambda>r. printn (as_unsigned x) (if d = CHR ''o'' then 8 else if d = CHR ''x'' then 16 else 10) @ r)
               (printf_out fmt as')
         | _ \<Rightarrow> None)
      else if d = CHR ''s'' then
        (case as of
           Pstr x # as' \<Rightarrow> map_option (\<lambda>r. x @ r) (printf_out fmt as')
         | _ \<Rightarrow> None)
      else printf_out fmt as)"

abbreviation (input) NL :: string where "NL \<equiv> [CHR 0x0A]"

definition printf :: "string \<Rightarrow> parg list \<Rightarrow> kst \<Rightarrow> kst" where
  "printf fmt as s = (case printf_out fmt as of None \<Rightarrow> s | Some m \<Rightarrow> klog m s)"

definition prdev :: "string \<Rightarrow> int \<Rightarrow> kst \<Rightarrow> kst" where
  "prdev str dev = printf (''%s on dev %u/%u'' @ NL) [Pstr str, Pint (major dev), Pint (minor dev)]"

definition deverror :: "bufp \<Rightarrow> int \<Rightarrow> int \<Rightarrow> kst \<Rightarrow> kst" where
  "deverror bp o1 o2 s =
     (let s1 = prdev ''err'' (b_dev (k_buf s bp)) s
      in printf (''bn=%d er=%o,%o'' @ NL) [Pint (b_blkno (k_buf s1 bp)), Pint o1, Pint o2] s1)"

end
