(* ===== verification/Alloc.thy ===== *)
theory Alloc
  imports Bio Prf
begin

section \<open>Free blocks and free inodes of a volume (kernel/alloc.c)\<close>

text \<open>
  The in-core super-block of a mounted volume is a buffer; its fields are words of the
  buffer at the offsets that \<open>include/sys/filsys.h\<close> writes down, and so are the words of a
  block of the free list (\<open>include/sys/fblk.h\<close>).  An index out of the range of
  \<open>s_free\<close> or \<open>s_inode\<close> therefore reads and writes the neighbouring words, as it does in C.
\<close>

subsection \<open>Fields\<close>

abbreviation (input) s_magic :: int where "s_magic \<equiv> 0"
abbreviation (input) s_bsize :: int where "s_bsize \<equiv> 1"
abbreviation (input) s_inopb :: int where "s_inopb \<equiv> 2"
abbreviation (input) s_naddr :: int where "s_naddr \<equiv> 3"
abbreviation (input) s_isize :: int where "s_isize \<equiv> 4"
abbreviation (input) s_fsize :: int where "s_fsize \<equiv> 5"
abbreviation (input) s_time :: int where "s_time \<equiv> 6"
abbreviation (input) s_tfree :: int where "s_tfree \<equiv> 7"
abbreviation (input) s_tinode :: int where "s_tinode \<equiv> 8"
abbreviation (input) s_flock :: int where "s_flock \<equiv> 9"
abbreviation (input) s_ilock :: int where "s_ilock \<equiv> 10"
abbreviation (input) s_fmod :: int where "s_fmod \<equiv> 11"
abbreviation (input) s_ronly :: int where "s_ronly \<equiv> 12"
abbreviation (input) s_nfree :: int where "s_nfree \<equiv> 13"
abbreviation (input) s_free :: int where "s_free \<equiv> 14"
abbreviation (input) s_ninode :: int where "s_ninode \<equiv> 334"
abbreviation (input) s_inode :: int where "s_inode \<equiv> 335"

abbreviation (input) df_nfree :: int where "df_nfree \<equiv> 0"
abbreviation (input) df_free :: int where "df_free \<equiv> 1"

definition FS_MAGIC :: w48 where "FS_MAGIC = 0xBE50006F11E5"

text \<open>The words of a buffer, and the integers in them.\<close>

definition bword :: "bufp \<Rightarrow> int \<Rightarrow> kst \<Rightarrow> w48" where
  "bword bp i s = b_data (k_buf s bp) i"

definition bget :: "bufp \<Rightarrow> int \<Rightarrow> kst \<Rightarrow> int" where
  "bget bp i s = ival (bword bp i s)"

definition bput :: "bufp \<Rightarrow> int \<Rightarrow> int \<Rightarrow> kst \<Rightarrow> kst" where
  "bput bp i v = upd_buf bp (\<lambda>b. b\<lparr>b_data := (b_data b)(i := wval v)\<rparr>)"

text \<open>\<open>wcopy\<close> of \<open>n\<close> words from word \<open>i\<close> of one buffer to word \<open>j\<close> of another.\<close>

definition bcopy :: "bufp \<Rightarrow> int \<Rightarrow> bufp \<Rightarrow> int \<Rightarrow> int \<Rightarrow> kst \<Rightarrow> kst" where
  "bcopy from i to j n s =
     upd_buf to (\<lambda>b. b\<lparr>b_data := (\<lambda>k. if j \<le> k \<and> k < j + n then b_data (k_buf s from) (i + (k - j)) else b_data b k)\<rparr>) s"

subsection \<open>The super-block\<close>

definition badblock :: "bufp \<Rightarrow> int \<Rightarrow> int \<Rightarrow> kst \<Rightarrow> bool \<times> kst" where
  "badblock fp bn dev s =
     (if bn < bget fp s_isize s \<or> bn \<ge> bget fp s_fsize s then (True, prdev ''bad block'' dev s) else (False, s))"

definition sbcheck :: "bufp \<Rightarrow> int \<Rightarrow> kst \<Rightarrow> int \<times> kst" where
  "sbcheck fp dev s =
     (if bword fp s_magic s \<noteq> FS_MAGIC then (1, prdev ''not a filesystem'' dev s)
      else if bget fp s_bsize s \<noteq> BSIZEW \<or> bget fp s_inopb s \<noteq> INOPB \<or> bget fp s_naddr s \<noteq> int NADDR then
        (1, prdev ''filesystem geometry mismatch'' dev s)
      else if bget fp s_isize s \<le> SUPERB \<or> bget fp s_isize s \<ge> bget fp s_fsize s then
        (1, prdev ''bad filesystem size'' dev s)
      else if bget fp s_nfree s < 0 \<or> bget fp s_nfree s > NICFREE \<or>
              bget fp s_ninode s < 0 \<or> bget fp s_ninode s > NICINOD then
        (1, prdev ''bad free count'' dev s)
      else (0, s))"

definition getfs :: "int \<Rightarrow> bufp km" where
  "getfs dev s =
     (case find (\<lambda>i. m_bufp (k_mount s i) \<noteq> None \<and> m_dev (k_mount s i) = dev) [0 ..< NMOUNT] of
        None \<Rightarrow> Panic ''no fs'' s
      | Some i \<Rightarrow>
          (let fp = the (m_bufp (k_mount s i))
           in if bget fp s_nfree s > NICFREE \<or> bget fp s_ninode s > NICINOD
              then Ret fp (bput fp s_ninode 0 (bput fp s_nfree 0 (prdev ''bad count'' dev s)))
              else Ret fp s))"

subsection \<open>Blocks\<close>

text \<open>The \<open>do ... while\<close> of \<open>alloc\<close>: \<open>None\<close> is \<open>goto nospace\<close>.  Every turn decrements \<open>s_nfree\<close>,
  which is at most \<open>NICFREE\<close>.\<close>

fun alloc_pop :: "nat \<Rightarrow> bufp \<Rightarrow> int \<Rightarrow> (int option) km" where
  "alloc_pop 0 fp dev s = Hang"
| "alloc_pop (Suc f) fp dev s =
     (if bget fp s_nfree s \<le> 0 then Ret None s
      else if bget fp s_nfree s > NICFREE then Ret None (prdev ''Bad free count'' dev s)
      else
        (let n = bget fp s_nfree s - 1; s1 = bput fp s_nfree n s; bno = bget fp (s_free + n) s1
         in if bno = 0 then Ret None s1
            else case badblock fp bno dev s1 of
                   (True, s2) \<Rightarrow> alloc_pop f fp dev s2
                 | (False, s2) \<Rightarrow> Ret (Some bno) s2))"

definition nospace :: "bufp \<Rightarrow> int \<Rightarrow> (bufp option) km" where
  "nospace fp dev = andthen (seq [
     modify (bput fp s_nfree 0),
     modify (bput fp s_tfree 0),
     modify (bput fp s_fmod 1),
     modify (prdev ''no space'' dev),
     modify (set_error ENOSPC)]) (ret None)"

text \<open>Refill \<open>s_free\<close> from the block \<open>bno\<close> of the chain.\<close>

definition alloc_refill :: "env \<Rightarrow> bufp \<Rightarrow> int \<Rightarrow> int \<Rightarrow> unit km" where
  "alloc_refill e fp dev bno = seq [
     modify (\<lambda>s. bput fp s_flock (bget fp s_flock s + 1) s),
     bind (bread e dev bno) (\<lambda>bp. seq [
       ifs (bhas B_ERROR bp) (ret ()) (seq [
         modify (\<lambda>s. bput fp s_nfree (bget bp df_nfree s) s),
         modify (bcopy bp df_free fp s_free NICFREE)]),
       brelse e bp]),
     modify (bput fp s_flock 0),
     wakeup e (Ch_flock fp)]"

definition alloc :: "env \<Rightarrow> int \<Rightarrow> (bufp option) km" where
  "alloc e dev =
     bind (getfs dev) (\<lambda>fp.
       andthen (whiles (e_fuel e) (\<lambda>s. bget fp s_flock s \<noteq> 0) (sleep e (Ch_flock fp) PINOD))
       (bind (alloc_pop (Suc (nat NICFREE)) fp dev) (\<lambda>r.
          case r of
            None \<Rightarrow> nospace fp dev
          | Some bno \<Rightarrow>
              bind (ifs (\<lambda>s. bget fp s_nfree s \<le> 0)
                     (andthen (alloc_refill e fp dev bno) (gets (\<lambda>s. bget fp s_nfree s \<le> 0)))
                     (ret False)) (\<lambda>ns.
                if ns then nospace fp dev
                else bind (getblk e dev bno) (\<lambda>bp.
                  andthen (seq [
                    modify (clrbuf bp),
                    modify (bput fp s_fmod 1),
                    modify (\<lambda>s. bput fp s_tfree (bget fp s_tfree s - 1) s)]) (ret (Some bp)))))))"

definition free :: "env \<Rightarrow> int \<Rightarrow> int \<Rightarrow> unit km" where
  "free e dev bno =
     bind (getfs dev) (\<lambda>fp. seq [
       modify (bput fp s_fmod 1),
       whiles (e_fuel e) (\<lambda>s. bget fp s_flock s \<noteq> 0) (sleep e (Ch_flock fp) PINOD),
       bind (lift (badblock fp bno dev)) (\<lambda>bad.
         if bad then ret ()
         else seq [
           ifs (\<lambda>s. bget fp s_nfree s \<le> 0)
             (seq [modify (bput fp s_nfree 1), modify (bput fp s_free 0)]) (ret ()),
           ifs (\<lambda>s. bget fp s_nfree s \<ge> NICFREE)
             (seq [
               modify (\<lambda>s. bput fp s_flock (bget fp s_flock s + 1) s),
               bind (getblk e dev bno) (\<lambda>bp. seq [
                 modify (clrbuf bp),
                 modify (\<lambda>s. bput bp df_nfree (bget fp s_nfree s) s),
                 modify (bcopy fp s_free bp df_free NICFREE),
                 modify (bput fp s_nfree 0),
                 bwrite e bp]),
               modify (bput fp s_flock 0),
               wakeup e (Ch_flock fp)]) (ret ()),
           modify (\<lambda>s. let n = bget fp s_nfree s in bput fp (s_free + n) bno (bput fp s_nfree (n + 1) s)),
           modify (\<lambda>s. bput fp s_tfree (bget fp s_tfree s + 1) s),
           modify (bput fp s_fmod 1)])])"

subsection \<open>Inode numbers\<close>

definition ifree :: "int \<Rightarrow> int \<Rightarrow> unit km" where
  "ifree dev ino =
     bind (getfs dev) (\<lambda>fp. seq [
       modify (\<lambda>s. bput fp s_tinode (bget fp s_tinode s + 1) s),
       modify (bput fp s_fmod 1),
       ifs (\<lambda>s. bget fp s_ilock s \<noteq> 0 \<or> bget fp s_ninode s \<ge> NICINOD) (ret ())
         (modify (\<lambda>s. let n = bget fp s_ninode s
            in bput fp (s_inode + n) ino (bput fp s_ninode (n + 1) s)))])"

end
