(* ===== verification/Inode.thy ===== *)
theory Inode
  imports Alloc
begin

section \<open>The inode table (kernel/iget.c, and ialloc and update of kernel/alloc.c)\<close>

text \<open>
  \<open>iget\<close> returns a locked, referenced entry of the table for an inode of a device; \<open>iput\<close> gives a
  reference back, and with the last one writes the inode out and, when no directory names it
  any more, frees its blocks and its number.  The reference count is a \<open>char\<close> and wraps at
  256.  An inode on the disk is sixteen words of a block (\<open>include/sys/ino.h\<close>).
\<close>

abbreviation (input) IFMT :: int where "IFMT \<equiv> 0xF000"
abbreviation (input) IFDIR :: int where "IFDIR \<equiv> 0x4000"
abbreviation (input) IFCHR :: int where "IFCHR \<equiv> 0x2000"
abbreviation (input) IFBLK :: int where "IFBLK \<equiv> 0x6000"
abbreviation (input) IFREG :: int where "IFREG \<equiv> 0x8000"
abbreviation (input) IFMPC :: int where "IFMPC \<equiv> 0x3000"
abbreviation (input) IFMPB :: int where "IFMPB \<equiv> 0x7000"
abbreviation (input) ISUID :: int where "ISUID \<equiv> 0x800"
abbreviation (input) ISGID :: int where "ISGID \<equiv> 0x400"
abbreviation (input) ISVTX :: int where "ISVTX \<equiv> 0x200"
abbreviation (input) IREAD :: int where "IREAD \<equiv> 0x100"
abbreviation (input) IWRITE :: int where "IWRITE \<equiv> 0x80"
abbreviation (input) IEXEC :: int where "IEXEC \<equiv> 0x40"

abbreviation (input) di_mode :: int where "di_mode \<equiv> 0"
abbreviation (input) di_nlink :: int where "di_nlink \<equiv> 1"
abbreviation (input) di_uid :: int where "di_uid \<equiv> 2"
abbreviation (input) di_gid :: int where "di_gid \<equiv> 3"
abbreviation (input) di_size :: int where "di_size \<equiv> 4"
abbreviation (input) di_atime :: int where "di_atime \<equiv> 5"
abbreviation (input) di_mtime :: int where "di_mtime \<equiv> 6"
abbreviation (input) di_ctime :: int where "di_ctime \<equiv> 7"
abbreviation (input) di_addr :: int where "di_addr \<equiv> 8"

abbreviation ihas :: "iflag \<Rightarrow> nat \<Rightarrow> kst \<Rightarrow> bool" where
  "ihas f ip s \<equiv> f \<in> i_flag (k_inode s ip)"

definition iset :: "iflag set \<Rightarrow> nat \<Rightarrow> kst \<Rightarrow> kst" where
  "iset F ip = upd_inode ip (\<lambda>i. i\<lparr>i_flag := i_flag i \<union> F\<rparr>)"

definition iclr :: "iflag set \<Rightarrow> nat \<Rightarrow> kst \<Rightarrow> kst" where
  "iclr F ip = upd_inode ip (\<lambda>i. i\<lparr>i_flag := i_flag i - F\<rparr>)"

subsection \<open>Locks (kernel/pipe.c)\<close>

definition plock :: "env \<Rightarrow> nat \<Rightarrow> unit km" where
  "plock e ip = seq [
     whiles (e_fuel e) (ihas ILOCK ip) (seq [modify (iset {IWANT} ip), sleep e (Ch_inode ip 0) PINOD]),
     modify (iset {ILOCK} ip)]"

definition prele :: "env \<Rightarrow> nat \<Rightarrow> unit km" where
  "prele e ip = seq [
     modify (iclr {ILOCK} ip),
     ifs (ihas IWANT ip) (seq [modify (iclr {IWANT} ip), wakeup e (Ch_inode ip 0)]) (ret ())]"

subsection \<open>To and from the disk\<close>

definition iexpand :: "nat \<Rightarrow> bufp \<Rightarrow> int \<Rightarrow> kst \<Rightarrow> kst" where
  "iexpand ip bp d s =
     upd_inode ip (\<lambda>i. i\<lparr>i_mode := bget bp (d + di_mode) s, i_nlink := bget bp (d + di_nlink) s,
       i_uid := bget bp (d + di_uid) s, i_gid := bget bp (d + di_gid) s, i_size := bget bp (d + di_size) s,
       i_addr := (\<lambda>k. if k < NADDR then bget bp (d + di_addr + int k) s else i_addr i k)\<rparr>) s"

definition put_dinode :: "inode \<Rightarrow> int \<Rightarrow> int \<Rightarrow> int \<Rightarrow> bufp \<Rightarrow> int \<Rightarrow> kst \<Rightarrow> kst" where
  "put_dinode i ta tm now bp d s =
     (let s1 = bput bp (d + di_size) (i_size i) (bput bp (d + di_gid) (i_gid i) (bput bp (d + di_uid) (i_uid i)
                 (bput bp (d + di_nlink) (i_nlink i) (bput bp (d + di_mode) (i_mode i) s))));
          s2 = fold (\<lambda>k. bput bp (d + di_addr + int k) (i_addr i k)) [0 ..< NADDR] s1;
          s3 = (if IACC \<in> i_flag i then bput bp (d + di_atime) ta s2 else s2);
          s4 = (if IUPD \<in> i_flag i then bput bp (d + di_mtime) tm s3 else s3)
      in if ICHG \<in> i_flag i then bput bp (d + di_ctime) now s4 else s4)"

definition iupdat :: "env \<Rightarrow> nat \<Rightarrow> int \<Rightarrow> int \<Rightarrow> unit km" where
  "iupdat e ip ta tm =
     ifs (\<lambda>s. ihas IUPD ip s \<or> ihas IACC ip s \<or> ihas ICHG ip s)
       (bind (\<lambda>s. getfs (i_dev (k_inode s ip)) s) (\<lambda>fp.
          ifs (\<lambda>s. bget fp s_ronly s \<noteq> 0) (ret ())
            (bind (\<lambda>s. bread e (i_dev (k_inode s ip)) (itod (i_number (k_inode s ip))) s) (\<lambda>bp.
               ifs (bhas B_ERROR bp) (brelse e bp)
                 (seq [
                   modify (\<lambda>s. put_dinode (k_inode s ip) ta tm (k_time s) bp
                             (16 * itoo (i_number (k_inode s ip))) s),
                   modify (iclr {IUPD, IACC, ICHG} ip),
                   bdwrite e bp])))))
       (ret ())"

subsection \<open>Truncation\<close>

text \<open>The loop of \<open>tloop\<close>: \<open>bpo\<close> is the buffer of the indirect block while it is held, \<open>sub\<close> the
  recursive call when the block is double indirect.  The result is the buffer still held,
  or \<open>None\<close> when a read error makes \<open>tloop\<close> return.\<close>

primrec tloop_from :: "env \<Rightarrow> int \<Rightarrow> int \<Rightarrow> (int \<Rightarrow> unit km) option \<Rightarrow> nat \<Rightarrow> bufp option \<Rightarrow> (bufp option option) km" where
  "tloop_from e dev bn sub 0 bpo = ret (Some bpo)"
| "tloop_from e dev bn sub (Suc i) bpo =
     bind (case bpo of
             Some bp \<Rightarrow> ret (Some bp)
           | None \<Rightarrow> bind (bread e dev bn) (\<lambda>bp.
               ifs (bhas B_ERROR bp) (andthen (brelse e bp) (ret None)) (ret (Some bp))))
       (\<lambda>r. case r of
          None \<Rightarrow> ret None
        | Some bp \<Rightarrow>
            bind (gets (bget bp (int i))) (\<lambda>nb.
              if nb = 0 then tloop_from e dev bn sub i (Some bp)
              else case sub of
                Some rec \<Rightarrow> andthen (seq [brelse e bp, rec nb]) (tloop_from e dev bn sub i None)
              | None \<Rightarrow> andthen (free e dev nb) (tloop_from e dev bn sub i (Some bp))))"

function tloop :: "env \<Rightarrow> int \<Rightarrow> int \<Rightarrow> bool \<Rightarrow> bool \<Rightarrow> unit km" where
  "tloop e dev bn f1 f2 =
     bind (if f1 then tloop_from e dev bn (Some (\<lambda>nb. tloop e dev nb f2 False)) (nat NINDIR) None
           else tloop_from e dev bn None (nat NINDIR) None)
       (\<lambda>r. case r of
          None \<Rightarrow> ret ()
        | Some None \<Rightarrow> free e dev bn
        | Some (Some bp) \<Rightarrow> seq [brelse e bp, free e dev bn])"
  by pat_completeness auto
termination
  by (relation "measure (\<lambda>(e, dev, bn, f1, f2). if f1 then if f2 then 2 else 1 else 0)") auto

declare tloop.simps [simp del]

primrec itrunc_from :: "env \<Rightarrow> int \<Rightarrow> nat \<Rightarrow> nat \<Rightarrow> unit km" where
  "itrunc_from e dev ip 0 = ret ()"
| "itrunc_from e dev ip (Suc i) =
     bind (gets (\<lambda>s. i_addr (k_inode s ip) i)) (\<lambda>bn. seq [
       guard (bn \<noteq> 0) (seq [
         modify (upd_inode ip (\<lambda>x. x\<lparr>i_addr := (i_addr x)(i := 0)\<rparr>)),
         if i = NADDR - 2 then tloop e dev bn False False
         else if i = NADDR - 1 then tloop e dev bn True False
         else free e dev bn]),
       itrunc_from e dev ip i])"

definition itrunc :: "env \<Rightarrow> nat \<Rightarrow> unit km" where
  "itrunc e ip s =
     (let ty = i_mode (k_inode s ip) AND IFMT
      in if ty \<noteq> IFREG \<and> ty \<noteq> IFDIR then Ret () s
         else seq [
           itrunc_from e (i_dev (k_inode s ip)) ip NADDR,
           modify (upd_inode ip (\<lambda>i. i\<lparr>i_size := 0\<rparr>)),
           modify (iset {ICHG, IUPD} ip)] s)"

subsection \<open>References\<close>

definition iput :: "env \<Rightarrow> nat \<Rightarrow> unit km" where
  "iput e ip = seq [
     ifs (\<lambda>s. i_count (k_inode s ip) = 1) (seq [
       modify (iset {ILOCK} ip),
       ifs (\<lambda>s. i_nlink (k_inode s ip) \<le> 0) (seq [
         itrunc e ip,
         modify (upd_inode ip (\<lambda>i. i\<lparr>i_mode := 0\<rparr>)),
         modify (iset {IUPD, ICHG} ip),
         (\<lambda>s. ifree (i_dev (k_inode s ip)) (i_number (k_inode s ip)) s)]) (ret ()),
       (\<lambda>s. iupdat e ip (k_time s) (k_time s) s),
       prele e ip,
       modify (upd_inode ip (\<lambda>i. i\<lparr>i_flag := {}, i_number := 0\<rparr>))]) (ret ()),
     modify (upd_inode ip (\<lambda>i. i\<lparr>i_count := cdec (i_count i)\<rparr>)),
     prele e ip]"

primrec iget_loop :: "env \<Rightarrow> nat \<Rightarrow> int \<Rightarrow> int \<Rightarrow> (nat option) km" where
  "iget_loop e 0 dev ino = hang"
| "iget_loop e (Suc n) dev ino = (\<lambda>s.
     case find (\<lambda>i. i_number (k_inode s i) = ino \<and> i_dev (k_inode s i) = dev) [0 ..< NINODE] of
       Some ip \<Rightarrow>
         if ihas ILOCK ip s then
           andthen (seq [modify (iset {IWANT} ip), sleep e (Ch_inode ip 0) PINOD]) (iget_loop e n dev ino) s
         else if ihas IMOUNT ip s then
           (case find (\<lambda>m. m_inodp (k_mount s m) = Some ip) [0 ..< NMOUNT] of
              Some m \<Rightarrow> iget_loop e n (m_dev (k_mount s m)) ROOTINO s
            | None \<Rightarrow> Panic ''no imt'' s)
         else Ret (Some ip) (iset {ILOCK} ip (upd_inode ip (\<lambda>i. i\<lparr>i_count := cinc (i_count i)\<rparr>) s))
     | None \<Rightarrow>
         (case find (\<lambda>i. i_count (k_inode s i) = 0) [0 ..< NINODE] of
            None \<Rightarrow> Ret None (set_error ENFILE (printf (''Inode table overflow'' @ NL) [] s))
          | Some ip \<Rightarrow>
              andthen (modify (upd_inode ip (\<lambda>i. i\<lparr>i_dev := dev, i_number := ino, i_flag := {ILOCK},
                         i_count := cinc (i_count i), i_lastr := 0\<rparr>)))
                (bind (bread e dev (itod ino)) (\<lambda>bp.
                   ifs (bhas B_ERROR bp)
                     (andthen (seq [brelse e bp, iput e ip]) (ret None))
                     (andthen (seq [modify (iexpand ip bp (16 * itoo ino)), brelse e bp]) (ret (Some ip))))) s))"

definition iget :: "env \<Rightarrow> int \<Rightarrow> int \<Rightarrow> (nat option) km" where
  "iget e = iget_loop e (e_fuel e)"

subsection \<open>Allocation of an inode (kernel/alloc.c)\<close>

text \<open>The loop of \<open>ialloc\<close> over the inodes of one block: \<open>i\<close> of \<open>INOPB\<close> to go.  The result is the
  number of the next inode.\<close>

primrec ialloc_block :: "int \<Rightarrow> bufp \<Rightarrow> bufp \<Rightarrow> int \<Rightarrow> int \<Rightarrow> nat \<Rightarrow> kst \<Rightarrow> int \<times> kst" where
  "ialloc_block dev fp bp d ino 0 s = (ino, s)"
| "ialloc_block dev fp bp d ino (Suc i) s =
     (if bget bp (d + di_mode) s \<noteq> 0 \<or>
         (\<exists>ip \<in> set [0 ..< NINODE]. dev = i_dev (k_inode s ip) \<and> ino = i_number (k_inode s ip))
      then ialloc_block dev fp bp (d + 16) (ino + 1) i s
      else
        (let n = bget fp s_ninode s; s1 = bput fp (s_inode + n) ino (bput fp s_ninode (n + 1) s)
         in if bget fp s_ninode s1 \<ge> NICINOD then (ino, s1)
            else ialloc_block dev fp bp (d + 16) (ino + 1) i s1))"

text \<open>The search through the i-list, blocks \<open>adr\<close> to \<open>s_isize - 1\<close>; \<open>s_isize\<close> is read again at each
  turn, so the loop has fuel.\<close>

primrec ialloc_scan :: "env \<Rightarrow> int \<Rightarrow> bufp \<Rightarrow> nat \<Rightarrow> int \<Rightarrow> int \<Rightarrow> unit km" where
  "ialloc_scan e dev fp 0 adr ino = hang"
| "ialloc_scan e dev fp (Suc n) adr ino =
     ifs (\<lambda>s. adr < bget fp s_isize s)
       (bind (bread e dev adr) (\<lambda>bp.
          ifs (bhas B_ERROR bp)
            (seq [brelse e bp, ialloc_scan e dev fp n (adr + 1) (ino + INOPB)])
            (bind (lift (ialloc_block dev fp bp 0 ino (nat INOPB))) (\<lambda>ino'. seq [
               brelse e bp,
               ifs (\<lambda>s. bget fp s_ninode s \<ge> NICINOD) (ret ()) (ialloc_scan e dev fp n (adr + 1) ino')]))))
       (ret ())"

definition ialloc_refill :: "env \<Rightarrow> int \<Rightarrow> bufp \<Rightarrow> unit km" where
  "ialloc_refill e dev fp = seq [
     modify (\<lambda>s. bput fp s_ilock (bget fp s_ilock s + 1) s),
     (\<lambda>s. ialloc_scan e dev fp (Suc (nat (bget fp s_isize s))) (SUPERB + 1) 1 s),
     modify (bput fp s_ilock 0),
     wakeup e (Ch_ilock fp)]"

primrec ialloc_loop :: "env \<Rightarrow> nat \<Rightarrow> int \<Rightarrow> bufp \<Rightarrow> (nat option) km" where
  "ialloc_loop e 0 dev fp = hang"
| "ialloc_loop e (Suc n) dev fp =
     ifs (\<lambda>s. bget fp s_ninode s > 0)
       (bind (lift (\<lambda>s. let k = bget fp s_ninode s - 1; s1 = bput fp s_ninode k s in (bget fp (s_inode + k) s1, s1)))
          (\<lambda>ino. if ino < ROOTINO then ialloc_loop e n dev fp
             else bind (iget e dev ino) (\<lambda>r.
               case r of
                 None \<Rightarrow> ret None
               | Some ip \<Rightarrow>
                   ifs (\<lambda>s. i_mode (k_inode s ip) = 0)
                     (andthen (seq [
                        modify (upd_inode ip (\<lambda>i. i\<lparr>i_addr := (\<lambda>k. if k < NADDR then 0 else i_addr i k)\<rparr>)),
                        modify (bput fp s_fmod 1),
                        modify (\<lambda>s. bput fp s_tinode (bget fp s_tinode s - 1) s)]) (ret (Some ip)))
                     (andthen (iput e ip) (ialloc_loop e n dev fp)))))
       (andthen (ialloc_refill e dev fp)
          (ifs (\<lambda>s. bget fp s_ninode s > 0) (ialloc_loop e n dev fp)
             (andthen (seq [modify (prdev ''Out of inodes'' dev), modify (set_error ENOSPC)]) (ret None))))"

definition ialloc :: "env \<Rightarrow> int \<Rightarrow> (nat option) km" where
  "ialloc e dev =
     bind (getfs dev) (\<lambda>fp.
       andthen (whiles (e_fuel e) (\<lambda>s. bget fp s_ilock s \<noteq> 0) (sleep e (Ch_ilock fp) PINOD))
         (ialloc_loop e (e_fuel e) dev fp))"

subsection \<open>Sync (kernel/alloc.c)\<close>

primrec update_supers :: "env \<Rightarrow> nat list \<Rightarrow> unit km" where
  "update_supers e [] = ret ()"
| "update_supers e (m # ms) = seq [
     (\<lambda>s. case m_bufp (k_mount s m) of
            None \<Rightarrow> Ret () s
          | Some fp \<Rightarrow>
              if bget fp s_fmod s = 0 \<or> bget fp s_ilock s \<noteq> 0 \<or> bget fp s_flock s \<noteq> 0 \<or> bget fp s_ronly s \<noteq> 0
              then Ret () s
              else bind (getblk e (m_dev (k_mount s m)) SUPERB) (\<lambda>bp.
                     ifs (bhas B_ERROR bp) (ret ()) (seq [
                       modify (bput fp s_fmod 0),
                       modify (\<lambda>s. bput fp s_time (k_time s) s),
                       modify (bcopy fp 0 bp 0 BSIZEW),
                       bwrite e bp])) s),
     update_supers e ms]"

primrec update_inodes :: "env \<Rightarrow> nat list \<Rightarrow> unit km" where
  "update_inodes e [] = ret ()"
| "update_inodes e (ip # ips) = seq [
     ifs (\<lambda>s. \<not> ihas ILOCK ip s \<and> i_count (k_inode s ip) \<noteq> 0) (seq [
       modify (iset {ILOCK} ip),
       modify (upd_inode ip (\<lambda>i. i\<lparr>i_count := cinc (i_count i)\<rparr>)),
       (\<lambda>s. iupdat e ip (k_time s) (k_time s) s),
       iput e ip]) (ret ()),
     update_inodes e ips]"

definition update :: "env \<Rightarrow> unit km" where
  "update e = ifs (\<lambda>s. k_updlock s \<noteq> 0) (ret ()) (seq [
     modify (\<lambda>s. s\<lparr>k_updlock := k_updlock s + 1\<rparr>),
     update_supers e [0 ..< NMOUNT],
     update_inodes e [0 ..< NINODE],
     modify (\<lambda>s. s\<lparr>k_updlock := 0\<rparr>),
     bflush e NODEV])"

end
