(* ===== verification/Rdwri.thy ===== *)
theory Rdwri
  imports Inode
begin

section \<open>File contents (kernel/subr.c, kernel/rdwri.c, maknode and wdir of kernel/iget.c)\<close>

text \<open>
  \<open>bmap\<close> turns a block number of a file into one of the device, through the inode and its
  indirect blocks; \<open>readi\<close> and \<open>writei\<close> move the bytes of a file to and from the address \<open>u_base\<close>,
  which is the user's or, with \<open>u_segflg\<close> 1, the kernel's.
\<close>

subsection \<open>Kernel addresses\<close>

definition kwords :: "env \<Rightarrow> kobj \<Rightarrow> kst \<Rightarrow> int \<Rightarrow> w48" where
  "kwords e k s = (case k of
     Kdata bp \<Rightarrow> b_data (k_buf s bp)
   | Kdent \<Rightarrow> u_dent (k_u s)
   | Kexdata \<Rightarrow> u_exdata (k_u s)
   | Kacct \<Rightarrow> k_acctbuf s
   | Kuser \<Rightarrow> e_uwords e (k_u s))"

text \<open>No code of the kernel reads a file into the u-area as a whole.\<close>

definition set_kwords :: "kobj \<Rightarrow> (int \<Rightarrow> w48) \<Rightarrow> kst \<Rightarrow> kst option" where
  "set_kwords k M s = (case k of
     Kdata bp \<Rightarrow> Some (upd_buf bp (\<lambda>b. b\<lparr>b_data := M\<rparr>) s)
   | Kdent \<Rightarrow> Some (upd_u (\<lambda>u. u\<lparr>u_dent := M\<rparr>) s)
   | Kexdata \<Rightarrow> Some (upd_u (\<lambda>u. u\<lparr>u_exdata := M\<rparr>) s)
   | Kacct \<Rightarrow> Some (s\<lparr>k_acctbuf := M\<rparr>)
   | Kuser \<Rightarrow> None)"

subsection \<open>Characters (subr.c)\<close>

definition ustep :: "kst \<Rightarrow> kst" where
  "ustep = upd_u (\<lambda>u. u\<lparr>u_count := u_count u - 1, u_offset := u_offset u + 1, u_base := ptradd (u_base u) 1\<rparr>)"

definition passc :: "env \<Rightarrow> w48 \<Rightarrow> int km" where
  "passc e c s =
     (let done = (\<lambda>s1. let s2 = ustep s1 in Ret (if u_count (k_u s2) = 0 then -1 else 0) s2)
      in if u_segflg (k_u s) \<noteq> 0 then
           (case u_base (k_u s) of
              Kaddr k a \<Rightarrow>
                (case set_kwords k (wrb (kwords e k s) a c) s of
                   None \<Rightarrow> Panic ''bad address'' s
                 | Some s1 \<Rightarrow> done s1)
            | Uaddr a \<Rightarrow> Panic ''bad address'' s)
         else
           (case u_base (k_u s) of
              Uaddr a \<Rightarrow>
                (let (r, M) = subyte (u_upt (k_u s)) (k_mem s) a c
                 in if r < 0 then Ret (-1) (set_error EFAULT s) else done (s\<lparr>k_mem := M\<rparr>))
            | Kaddr k a \<Rightarrow> Panic ''bad address'' s))"

definition cpass :: "env \<Rightarrow> int km" where
  "cpass e s =
     (if u_count (k_u s) = 0 then Ret (-1) s
      else if u_segflg (k_u s) \<noteq> 0 then
        (case u_base (k_u s) of
           Kaddr k a \<Rightarrow> Ret (uint (rdb (kwords e k s) a) AND 255) (ustep s)
         | Uaddr a \<Rightarrow> Panic ''bad address'' s)
      else
        (case u_base (k_u s) of
           Uaddr a \<Rightarrow>
             (let c = fubyte (u_upt (k_u s)) (k_mem s) a
              in if c < 0 then Ret (-1) (set_error EFAULT s) else Ret (c AND 255) (ustep s))
         | Kaddr k a \<Rightarrow> Panic ''bad address'' s))"

definition nodev :: "unit km" where
  "nodev = modify (set_error ENODEV)"

definition nulldev :: "unit km" where
  "nulldev = ret ()"

subsection \<open>Moving bytes between a buffer and u\_base (rdwri.c)\<close>

text \<open>The byte loops of \<open>iomove\<close>, for a kernel address; \<open>cp\<close> is a byte offset into the buffer.\<close>

primrec iomove_in :: "env \<Rightarrow> bufp \<Rightarrow> int \<Rightarrow> nat \<Rightarrow> unit km" where
  "iomove_in e bp cp 0 = ret ()"
| "iomove_in e bp cp (Suc n) = bind (cpass e) (\<lambda>t.
     if t < 0 then ret ()
     else seq [
       modify (upd_buf bp (\<lambda>b. b\<lparr>b_data := wrb (b_data b) cp (word_of_int t)\<rparr>)),
       iomove_in e bp (cp + 1) n])"

primrec iomove_out :: "env \<Rightarrow> bufp \<Rightarrow> int \<Rightarrow> nat \<Rightarrow> unit km" where
  "iomove_out e bp cp 0 = ret ()"
| "iomove_out e bp cp (Suc n) =
     bind (\<lambda>s. passc e (rdb (b_data (k_buf s bp)) cp) s) (\<lambda>r.
       if r < 0 then ret () else iomove_out e bp (cp + 1) n)"

definition count_io :: "int \<Rightarrow> int \<Rightarrow> int \<Rightarrow> kst \<Rightarrow> kst" where
  "count_io bulk edge shft s = s\<lparr>k_niobulk := k_niobulk s + bulk, k_nioedge := k_nioedge s + edge,
     k_nioshift := k_nioshift s + shft\<rparr>"

definition uadvance :: "int \<Rightarrow> kst \<Rightarrow> kst" where
  "uadvance n = upd_u (\<lambda>u. u\<lparr>u_base := ptradd (u_base u) n, u_offset := u_offset u + n, u_count := u_count u - n\<rparr>)"

text \<open>\<open>rd\<close> is \<open>flag == B_READ\<close>: from the buffer to \<open>u_base\<close>.\<close>

definition iomove :: "env \<Rightarrow> bufp \<Rightarrow> int \<Rightarrow> int \<Rightarrow> bool \<Rightarrow> unit km" where
  "iomove e bp cp n rd s =
     (if n = 0 then Ret () s
      else if u_segflg (k_u s) \<noteq> 1 then
        (case u_base (k_u s) of
           Kaddr k a \<Rightarrow> Panic ''bad address'' s
         | Uaddr a \<Rightarrow>
             (if rd then
                (case copyoutb (u_upt (k_u s)) (b_data (k_buf s bp)) cp a n (k_mem s) of
                   (t, M, bulk, edge, shft) \<Rightarrow>
                     (let s1 = count_io bulk edge shft (s\<lparr>k_mem := M\<rparr>)
                      in Ret () (if t \<noteq> 0 then set_error EFAULT s1 else uadvance n s1)))
              else
                (case copyinb (u_upt (k_u s)) (k_mem s) a cp n (b_data (k_buf s bp)) of
                   (t, K, bulk, edge, shft) \<Rightarrow>
                     (let s1 = count_io bulk edge shft (upd_buf bp (\<lambda>b. b\<lparr>b_data := K\<rparr>) s)
                      in Ret () (if t \<noteq> 0 then set_error EFAULT s1 else uadvance n s1)))))
      else if n < 0 then Hang
      else if rd then iomove_out e bp cp (nat n) s
      else iomove_in e bp cp (nat n) s)"

subsection \<open>The block of a file (subr.c)\<close>

abbreviation (input) NLEVEL :: nat where "NLEVEL \<equiv> 2"
abbreviation (input) NSHIFT :: nat where "NSHIFT \<equiv> 9"
abbreviation (input) NMASK :: int where "NMASK \<equiv> 511"

text \<open>Allocate a block unless the access is a read: \<open>None\<close> makes \<open>bmap\<close> return -1.\<close>

definition bmap_new :: "env \<Rightarrow> int \<Rightarrow> bool \<Rightarrow> (int option) km" where
  "bmap_new e dev rd =
     (if rd then ret None
      else bind (alloc e dev) (\<lambda>r.
        case r of
          None \<Rightarrow> ret None
        | Some bp \<Rightarrow> bind (gets (\<lambda>s. b_blkno (k_buf s bp))) (\<lambda>nb. andthen (bdwrite e bp) (ret (Some nb)))))"

text \<open>The number of levels: \<open>j\<close> such that address \<open>NADDR - j\<close> of the inode is the one, with the
  shift and the block number within that range.\<close>

fun bmap_level :: "nat \<Rightarrow> nat \<Rightarrow> int \<Rightarrow> int \<Rightarrow> nat \<times> nat \<times> int" where
  "bmap_level 0 sh nb bn = (0, sh, bn)"
| "bmap_level (Suc j) sh nb bn =
     (let sh = sh + NSHIFT; nb = push_bit NSHIFT nb
      in if bn < nb then (Suc j, sh, bn) else bmap_level j sh nb (bn - nb))"

text \<open>The block number at index \<open>i\<close> of the inode, allocated if need be.\<close>

definition bmap_inode :: "env \<Rightarrow> nat \<Rightarrow> int \<Rightarrow> bool \<Rightarrow> nat \<Rightarrow> (int option) km" where
  "bmap_inode e ip dev rd i =
     bind (gets (\<lambda>s. i_addr (k_inode s ip) i)) (\<lambda>nb.
       if nb \<noteq> 0 then ret (Some nb)
       else bind (bmap_new e dev rd) (\<lambda>r.
         case r of
           None \<Rightarrow> ret None
         | Some nb \<Rightarrow> andthen (seq [
             modify (upd_inode ip (\<lambda>x. x\<lparr>i_addr := (i_addr x)(i := nb)\<rparr>)),
             modify (iset {IUPD, ICHG} ip)]) (ret (Some nb))))"

text \<open>Through \<open>k\<close> indirect blocks, the first of which is \<open>nb\<close>.  The result is the value \<open>bmap\<close> returns
  at once (\<open>Inl\<close>), or the block with the last indirect block and the index in it.\<close>

primrec bmap_indirect :: "env \<Rightarrow> int \<Rightarrow> bool \<Rightarrow> int \<Rightarrow> nat \<Rightarrow> nat \<Rightarrow> int \<Rightarrow> bufp \<Rightarrow> int \<Rightarrow> (int + int \<times> bufp \<times> int) km" where
  "bmap_indirect e dev rd bn 0 sh nb bap i = ret (Inr (nb, bap, i))"
| "bmap_indirect e dev rd bn (Suc k) sh nb bap i =
     bind (bread e dev nb) (\<lambda>bp.
       ifs (bhas B_ERROR bp) (andthen (brelse e bp) (ret (Inl 0)))
         (let sh = sh - NSHIFT; i = drop_bit sh bn AND NMASK
          in bind (gets (bget bp i)) (\<lambda>nb.
               if nb \<noteq> 0 then andthen (brelse e bp) (bmap_indirect e dev rd bn k sh nb bp i)
               else bind (bmap_new e dev rd) (\<lambda>r.
                 case r of
                   None \<Rightarrow> andthen (brelse e bp) (ret (Inl (-1)))
                 | Some nb \<Rightarrow> andthen (seq [modify (bput bp i nb), bdwrite e bp])
                     (bmap_indirect e dev rd bn k sh nb bp i)))))"

definition bmap :: "env \<Rightarrow> nat \<Rightarrow> int \<Rightarrow> bool \<Rightarrow> int km" where
  "bmap e ip bn rd s =
     (if bn < 0 then Ret 0 (set_error EFBIG s)
      else
        (let dev = i_dev (k_inode s ip); s = s\<lparr>k_rablock := 0\<rparr>
         in if bn < int NADDR - int NLEVEL then
              bind (bmap_inode e ip dev rd (nat bn)) (\<lambda>r.
                case r of
                  None \<Rightarrow> ret (-1)
                | Some nb \<Rightarrow>
                    andthen (guard (bn < int NADDR - int NLEVEL - 1)
                       (modify (\<lambda>s. s\<lparr>k_rablock := i_addr (k_inode s ip) (nat bn + 1)\<rparr>)))
                     (ret nb)) s
            else
              (case bmap_level NLEVEL 0 1 (bn - (int NADDR - int NLEVEL)) of
                 (j, sh, bn) \<Rightarrow>
                   if j = 0 then Ret 0 (set_error EFBIG s)
                   else bind (bmap_inode e ip dev rd (NADDR - j)) (\<lambda>r.
                     case r of
                       None \<Rightarrow> ret (-1)
                     | Some nb \<Rightarrow>
                         bind (bmap_indirect e dev rd bn (NLEVEL + 1 - j) sh nb Bfreelist 0) (\<lambda>x.
                           case x of
                             Inl r \<Rightarrow> ret r
                           | Inr (nb, bap, i) \<Rightarrow>
                               andthen (guard (i < NINDIR - 1) (modify (\<lambda>s. s\<lparr>k_rablock := bget bap (i + 1) s\<rparr>)))
                                 (ret nb))) s)))"

subsection \<open>Reading and writing (rdwri.c)\<close>

text \<open>\<open>kmin\<close> and \<open>kmax\<close> are the kernel's \<open>min\<close> and \<open>max\<close>.\<close>

definition kmin :: "int \<Rightarrow> int \<Rightarrow> int" where
  "kmin a b = (if a < b then a else b)"

definition kmax :: "int \<Rightarrow> int \<Rightarrow> int" where
  "kmax a b = (if a > b then a else b)"

definition is_cdev :: "int \<Rightarrow> bool" where
  "is_cdev type = (type = IFCHR \<or> type = IFMPC)"

definition is_bdev :: "int \<Rightarrow> bool" where
  "is_bdev type = (type = IFBLK \<or> type = IFMPB)"

text \<open>One turn of the loop of \<open>readi\<close> after the block is known: get the buffer, move, release.
  The result is \<open>n\<close> of the loop condition.\<close>

definition readi_block :: "env \<Rightarrow> nat \<Rightarrow> int \<Rightarrow> int \<Rightarrow> int \<Rightarrow> int \<Rightarrow> int \<Rightarrow> int km" where
  "readi_block e ip dev lbn bn on n =
     bind (if bn < 0 then bind (geteblk e) (\<lambda>bp. andthen (modify (clrbuf bp)) (ret bp))
           else ifs (\<lambda>s. i_lastr (k_inode s ip) + 1 = lbn)
                  (\<lambda>s. breada e dev bn (k_rablock s) s) (bread e dev bn)) (\<lambda>bp.
       andthen (modify (upd_inode ip (\<lambda>i. i\<lparr>i_lastr := lbn\<rparr>)))
         (bind (gets (\<lambda>s. kmin n (BSIZE - wtob (b_resid (k_buf s bp))))) (\<lambda>n.
            andthen (seq [guard (n \<noteq> 0) (iomove e bp on n True), brelse e bp]) (ret n))))"

text \<open>Every turn but the last moves at least one byte, so the fuel is one more than \<open>u_count\<close>.\<close>

primrec readi_loop :: "env \<Rightarrow> nat \<Rightarrow> int \<Rightarrow> int \<Rightarrow> nat \<Rightarrow> unit km" where
  "readi_loop e ip type rdev 0 = hang"
| "readi_loop e ip type rdev (Suc f) = (\<lambda>s.
     let lbn = u_offset (k_u s) div BSIZE; on = u_offset (k_u s) mod BSIZE;
         n = kmin (BSIZE - on) (u_count (k_u s));
         again = (\<lambda>n. ifs (\<lambda>s. uerr s = 0 \<and> u_count (k_u s) \<noteq> 0 \<and> n > 0) (readi_loop e ip type rdev f) (ret ()))
     in if is_bdev type then
          bind (readi_block e ip rdev lbn lbn on n) again (s\<lparr>k_rablock := lbn + 1\<rparr>)
        else
          (let diff = i_size (k_inode s ip) - u_offset (k_u s); n = (if diff < n then diff else n)
           in if diff \<le> 0 then Ret () s
              else bind (bmap e ip lbn True) (\<lambda>bn.
                     ifs (\<lambda>s. uerr s \<noteq> 0) (ret ())
                       (bind (\<lambda>s. readi_block e ip (i_dev (k_inode s ip)) lbn bn on n s) again)) s))"

definition readi :: "env \<Rightarrow> nat \<Rightarrow> unit km" where
  "readi e ip s =
     (if u_count (k_u s) = 0 then Ret () s
      else if u_offset (k_u s) < 0 then Ret () (set_error EINVAL s)
      else
        (let s = iset {IACC} ip s; dev = i_addr (k_inode s ip) 0; type = i_mode (k_inode s ip) AND IFMT
         in if is_cdev type then e_cread e dev s
            else readi_loop e ip type dev (Suc (nat (u_count (k_u s)))) s))"

primrec writei_loop :: "env \<Rightarrow> nat \<Rightarrow> int \<Rightarrow> int \<Rightarrow> nat \<Rightarrow> unit km" where
  "writei_loop e ip type rdev 0 = hang"
| "writei_loop e ip type rdev (Suc f) = (\<lambda>s.
     let lbn = u_offset (k_u s) div BSIZE; on = u_offset (k_u s) mod BSIZE;
         n = kmin (BSIZE - on) (u_count (k_u s))
     in bind (if is_bdev type then ret (rdev, lbn)
              else bind (bmap e ip lbn False) (\<lambda>bn. gets (\<lambda>s. (i_dev (k_inode s ip), bn))))
          (\<lambda>(dev, bn).
             if bn < 0 \<and> \<not> is_bdev type then ret ()
             else bind (if n = BSIZE then getblk e dev bn else bread e dev bn) (\<lambda>bp. seq [
               iomove e bp on n False,
               ifs (\<lambda>s. uerr s \<noteq> 0) (brelse e bp) (bdwrite e bp),
               ifs (\<lambda>s. u_offset (k_u s) > i_size (k_inode s ip) \<and> (type = IFDIR \<or> type = IFREG))
                 (modify (\<lambda>s. upd_inode ip (\<lambda>i. i\<lparr>i_size := u_offset (k_u s)\<rparr>) s)) (ret ()),
               modify (iset {IUPD, ICHG} ip),
               ifs (\<lambda>s. uerr s = 0 \<and> u_count (k_u s) \<noteq> 0) (writei_loop e ip type rdev f) (ret ())])) s)"

definition writei :: "env \<Rightarrow> nat \<Rightarrow> unit km" where
  "writei e ip s =
     (if u_offset (k_u s) < 0 then Ret () (set_error EINVAL s)
      else
        (let dev = i_addr (k_inode s ip) 0; type = i_mode (k_inode s ip) AND IFMT
         in if is_cdev type then seq [modify (iset {IUPD, ICHG} ip), e_cwrite e dev] s
            else if u_count (k_u s) = 0 then Ret () s
            else writei_loop e ip type dev (Suc (nat (u_count (k_u s)))) s))"

subsection \<open>New files (iget.c)\<close>

definition wdir :: "env \<Rightarrow> nat \<Rightarrow> unit km" where
  "wdir e ip = bind (need (\<lambda>s. u_pdir (k_u s))) (\<lambda>dp. seq [
     ifs (\<lambda>s. i_nlink (k_inode s dp) \<le> 0) (modify (set_error ENOTDIR)) (seq [
       modify (\<lambda>s. upd_u (\<lambda>u. u\<lparr>u_dent := (\<lambda>k. if k = 0 then wval (i_number (k_inode s ip))
         else if 1 \<le> k \<and> k < 1 + btow (int DIRSIZ) then u_dbuf u (k - 1) else u_dent u k),
         u_count := DIRENTSZ, u_segflg := 1, u_base := Kaddr Kdent 0\<rparr>) s),
       writei e dp]),
     iput e dp])"

definition maknode :: "env \<Rightarrow> int \<Rightarrow> (nat option) km" where
  "maknode e mode = bind (need (\<lambda>s. u_pdir (k_u s))) (\<lambda>dp.
     bind (\<lambda>s. ialloc e (i_dev (k_inode s dp)) s) (\<lambda>r.
       case r of
         None \<Rightarrow> andthen (iput e dp) (ret None)
       | Some ip \<Rightarrow>
           (let mode = (if mode AND IFMT = 0 then mode OR IFREG else mode)
            in andthen (seq [
                 modify (iset {IACC, IUPD, ICHG} ip),
                 modify (\<lambda>s. upd_inode ip (\<lambda>i. i\<lparr>i_mode := mode AND NOT (u_cmask (k_u s)), i_nlink := 1,
                   i_uid := u_uid (k_u s), i_gid := u_gid (k_u s)\<rparr>) s),
                 wdir e ip]) (ret (Some ip)))))"

end
