(* ===== verification/Text.thy ===== *)
theory Text
  imports Rdwri
begin

section \<open>Shared texts and swapping out (kernel/text.c, kernel/seg.S)\<close>

text \<open>
  A text segment is shared by the processes that run the same file; it is in core while one
  of them is, and has a copy on the swap device.  \<open>xswap\<close> moves a process image to the swap
  device.  Where the code leaves by \<open>qswtch\<close> after \<open>save(u.u_ssav)\<close>, the process comes back in the
  arm of that \<open>save\<close>, which calls \<open>sureg\<close> and returns: this is also what the continuation of
  \<open>swtch\<close> does, so the calls read the same here.
\<close>

subsection \<open>Pages\<close>

definition clearseg :: "int \<Rightarrow> kst \<Rightarrow> kst" where
  "clearseg d s = (let b = PGSZ * (d div PGSZ)
     in s\<lparr>k_mem := (\<lambda>i. if b \<le> i \<and> i < b + PGSZ then 0 else k_mem s i)\<rparr>)"

definition copyseg :: "int \<Rightarrow> int \<Rightarrow> kst \<Rightarrow> kst" where
  "copyseg a d s = (let f = PGSZ * (a div PGSZ); b = PGSZ * (d div PGSZ)
     in s\<lparr>k_mem := (\<lambda>i. if b \<le> i \<and> i < b + PGSZ then k_mem s (f + (i - b)) else k_mem s i)\<rparr>)"

definition copyphys :: "int \<Rightarrow> int \<Rightarrow> int \<Rightarrow> kst \<Rightarrow> kst" where
  "copyphys a d n s = s\<lparr>k_mem := (\<lambda>i. if d \<le> i \<and> i < d + n then k_mem s (a + (i - d)) else k_mem s i)\<rparr>"

definition estabur_k :: "int \<Rightarrow> int \<Rightarrow> int \<Rightarrow> int km" where
  "estabur_k nt nd ns s =
     (case estabur nt nd ns s of None \<Rightarrow> Panic ''bad address'' s | Some (r, s') \<Rightarrow> Ret r s')"

subsection \<open>Locks\<close>

definition xset :: "xflag set \<Rightarrow> nat \<Rightarrow> kst \<Rightarrow> kst" where
  "xset F xp = upd_text xp (\<lambda>x. x\<lparr>x_flag := x_flag x \<union> F\<rparr>)"

definition xclr :: "xflag set \<Rightarrow> nat \<Rightarrow> kst \<Rightarrow> kst" where
  "xclr F xp = upd_text xp (\<lambda>x. x\<lparr>x_flag := x_flag x - F\<rparr>)"

abbreviation xhas :: "xflag \<Rightarrow> nat \<Rightarrow> kst \<Rightarrow> bool" where
  "xhas f xp s \<equiv> f \<in> x_flag (k_text s xp)"

definition xlock :: "env \<Rightarrow> nat \<Rightarrow> unit km" where
  "xlock e xp = seq [
     whiles (e_fuel e) (xhas XLOCK xp) (seq [modify (xset {XWANT} xp), sleep e (Ch_text xp) PSWP]),
     modify (xset {XLOCK} xp)]"

definition xunlock :: "env \<Rightarrow> nat \<Rightarrow> unit km" where
  "xunlock e xp = seq [
     ifs (xhas XWANT xp) (wakeup e (Ch_text xp)) (ret ()),
     modify (xclr {XLOCK, XWANT} xp)]"

subsection \<open>Swapping out\<close>

definition xccdec :: "env \<Rightarrow> nat option \<Rightarrow> unit km" where
  "xccdec e xpo = (case xpo of
     None \<Rightarrow> ret ()
   | Some xp \<Rightarrow> ifs (\<lambda>s. x_ccount (k_text s xp) = 0) (ret ()) (seq [
       xlock e xp,
       modify (upd_text xp (\<lambda>x. x\<lparr>x_ccount := cdec (x_ccount x)\<rparr>)),
       ifs (\<lambda>s. x_ccount (k_text s xp) = 0) (seq [
         ifs (xhas XWRIT xp) (seq [
           modify (xclr {XWRIT} xp),
           (\<lambda>s. swap e (x_daddr (k_text s xp)) (x_caddr (k_text s xp)) (x_size (k_text s xp)) {} s),
           modify (\<lambda>s. s\<lparr>k_ntextout := k_ntextout s + 1\<rparr>)]) (ret ()),
         (\<lambda>s. mfree_core e (x_size (k_text s xp)) (x_caddr (k_text s xp)) s)]) (ret ()),
       xunlock e xp]))"

text \<open>The loop that writes the tail of a grown image, from \<open>n\<close> words on, a page at a time.\<close>

primrec xswap_tail :: "env \<Rightarrow> nat \<Rightarrow> bool \<Rightarrow> int \<Rightarrow> nat \<Rightarrow> int \<Rightarrow> unit km" where
  "xswap_tail e p ff a 0 n = hang"
| "xswap_tail e p ff a (Suc f) n =
     ifs (\<lambda>s. n < p_size (k_proc s p)) (seq [
       guard ff (modify (\<lambda>s. clearseg (p_addr (k_proc s p)) s)),
       (\<lambda>s. swap e (a + wtodb n) (p_addr (k_proc s p)) PGSZ {} s),
       xswap_tail e p ff a f (n + PGSZ)]) (ret ())"

definition xswap :: "env \<Rightarrow> nat \<Rightarrow> bool \<Rightarrow> int \<Rightarrow> unit km" where
  "xswap e p ff os0 s =
     (let sz = p_size (k_proc s p); os = (if os0 = 0 then sz else os0)
      in bind (malloc_swap (wtodb sz)) (\<lambda>a.
           if a = 0 then panic ''out of swap space''
           else seq [
             modify (upd_proc p (\<lambda>r. r\<lparr>p_flag := insert SLOCK (p_flag r)\<rparr>)),
             (\<lambda>s. xccdec e (p_textp (k_proc s p)) s),
             modify (\<lambda>s. if p_addr (k_proc s p) = k_uhome s then uflush e (k_uhome s) s else s),
             (\<lambda>s. swap e a (p_addr (k_proc s p)) os {} s),
             modify (\<lambda>s. s\<lparr>k_nswapout := k_nswapout s + 1\<rparr>),
             xswap_tail e p ff a (Suc (nat (sz - os))) os,
             guard ff (seq [
               (\<lambda>s. mfree_core e os (p_addr (k_proc s p)) s),
               modify (\<lambda>s. if p_addr (k_proc s p) = k_uhome s then s\<lparr>k_uhome := 0\<rparr> else s)]),
             modify (upd_proc p (\<lambda>r. r\<lparr>p_addr := a, p_flag := p_flag r - {SLOAD, SLOCK}, p_time := 0\<rparr>)),
             ifs (\<lambda>s. k_runout s \<noteq> 0) (seq [modify (\<lambda>s. s\<lparr>k_runout := 0\<rparr>), wakeup e Ch_runout]) (ret ())]) s)"

subsection \<open>Attaching and detaching\<close>

text \<open>Drop the reference of a text to its inode.\<close>

definition xdrop_inode :: "env \<Rightarrow> nat \<Rightarrow> unit km" where
  "xdrop_inode e ip = seq [
     modify (iclr {ITEXT} ip),
     ifs (ihas ILOCK ip) (modify (upd_inode ip (\<lambda>i. i\<lparr>i_count := cdec (i_count i)\<rparr>))) (iput e ip)]"

definition xfree :: "env \<Rightarrow> unit km" where
  "xfree e s =
     (case p_textp (k_proc s (curproc s)) of
        None \<Rightarrow> Ret () s
      | Some xp \<Rightarrow> seq [
          xlock e xp,
          modify (xclr {XLOCK} xp),
          modify (\<lambda>s. upd_proc (curproc s) (\<lambda>r. r\<lparr>p_textp := None\<rparr>) s),
          bind (need (\<lambda>s. x_iptr (k_text s xp))) (\<lambda>ip. seq [
            modify (upd_text xp (\<lambda>x. x\<lparr>x_count := cdec (x_count x)\<rparr>)),
            ifs (\<lambda>s. x_count (k_text s xp) = 0 \<and> i_mode (k_inode s ip) AND ISVTX = 0) (seq [
              modify (upd_text xp (\<lambda>x. x\<lparr>x_iptr := None\<rparr>)),
              (\<lambda>s. mfree_swap (wtodb (x_size (k_text s xp))) (x_daddr (k_text s xp)) s),
              (\<lambda>s. mfree_core e (x_size (k_text s xp)) (x_caddr (k_text s xp)) s),
              xdrop_inode e ip])
              (xccdec e (Some xp))])] s)"

definition xexpand :: "env \<Rightarrow> nat \<Rightarrow> unit km" where
  "xexpand e xp =
     bind (\<lambda>s. malloc_core (x_size (k_text s xp)) s) (\<lambda>a. seq [
       modify (upd_text xp (\<lambda>x. x\<lparr>x_caddr := a\<rparr>)),
       if a \<noteq> 0 then seq [
         ifs (xhas XLOAD xp) (ret ()) (seq [
           (\<lambda>s. swap e (x_daddr (k_text s xp)) (x_caddr (k_text s xp)) (x_size (k_text s xp)) {B_READ} s),
           modify (\<lambda>s. s\<lparr>k_ntextin := k_ntextin s + 1\<rparr>)]),
         modify (upd_text xp (\<lambda>x. x\<lparr>x_ccount := cinc (x_ccount x)\<rparr>)),
         xunlock e xp]
       else seq [
         (\<lambda>s. xswap e (curproc s) True 0 s),
         xunlock e xp,
         modify (\<lambda>s. upd_proc (curproc s) (\<lambda>r. r\<lparr>p_flag := insert SSWAP (p_flag r)\<rparr>) s),
         qswtch e]])"

text \<open>The words of the header of the file being executed (\<open>u_exdata\<close>).\<close>

abbreviation (input) ux_mag :: int where "ux_mag \<equiv> 0"
abbreviation (input) ux_csize :: int where "ux_csize \<equiv> 1"
abbreviation (input) ux_tsize :: int where "ux_tsize \<equiv> 2"
abbreviation (input) ux_dsize :: int where "ux_dsize \<equiv> 3"
abbreviation (input) ux_bsize :: int where "ux_bsize \<equiv> 4"
abbreviation (input) ux_entloc :: int where "ux_entloc \<equiv> 6"
abbreviation (input) BADDR :: int where "BADDR \<equiv> 8"
abbreviation (input) HDRSZ :: int where "HDRSZ \<equiv> 48"

definition uxget :: "int \<Rightarrow> kst \<Rightarrow> int" where
  "uxget i s = ival (u_exdata (k_u s) i)"

definition xalloc :: "env \<Rightarrow> nat \<Rightarrow> unit km" where
  "xalloc e ip s =
     (if uxget ux_tsize s = 0 then Ret () s
      else case find (\<lambda>x. x_iptr (k_text s x) = Some ip) [0 ..< NTEXT] of
        Some xp \<Rightarrow> seq [
          xlock e xp,
          modify (\<lambda>s. s\<lparr>k_ntextjoin := k_ntextjoin s + 1\<rparr>),
          modify (upd_text xp (\<lambda>x. x\<lparr>x_count := cinc (x_count x)\<rparr>)),
          modify (\<lambda>s. upd_proc (curproc s) (\<lambda>r. r\<lparr>p_textp := Some xp\<rparr>) s),
          ifs (\<lambda>s. x_ccount (k_text s xp) = 0) (xexpand e xp)
            (modify (upd_text xp (\<lambda>x. x\<lparr>x_ccount := cinc (x_ccount x)\<rparr>))),
          xunlock e xp] s
      | None \<Rightarrow>
          (case find (\<lambda>x. x_iptr (k_text s x) = None) [0 ..< NTEXT] of
             None \<Rightarrow> seq [modify (printf ''out of text'' []), (\<lambda>s. psignal e (curproc s) 9 s)] s
           | Some xp \<Rightarrow>
               (let ts = pground (BADDR + btow (uxget ux_csize s + uxget ux_tsize s))
                in seq [
                     modify (upd_text xp (\<lambda>x. x\<lparr>x_flag := {XLOAD, XLOCK}, x_count := 1, x_ccount := 0, x_iptr := Some ip\<rparr>)),
                     modify (iset {ITEXT} ip),
                     modify (upd_inode ip (\<lambda>i. i\<lparr>i_count := cinc (i_count i)\<rparr>)),
                     modify (upd_text xp (\<lambda>x. x\<lparr>x_size := ts\<rparr>)),
                     bind (malloc_swap (wtodb ts)) (\<lambda>a. seq [
                       modify (upd_text xp (\<lambda>x. x\<lparr>x_daddr := a\<rparr>)),
                       guard (a = 0) (panic ''out of swap space'')]),
                     modify (\<lambda>s. upd_proc (curproc s) (\<lambda>r. r\<lparr>p_textp := Some xp\<rparr>) s),
                     xexpand e xp,
                     bind (estabur_k ts 0 0) (\<lambda>_. ret ()),
                     modify (\<lambda>s. upd_u (\<lambda>u. u\<lparr>u_count := uxget ux_csize s + uxget ux_tsize s, u_offset := HDRSZ,
                       u_base := Uaddr (BADDR * NBPW), u_segflg := 2\<rparr>) s),
                     modify (\<lambda>s. upd_proc (curproc s) (\<lambda>r. r\<lparr>p_flag := insert SLOCK (p_flag r)\<rparr>) s),
                     readi e ip,
                     modify (\<lambda>s. upd_proc (curproc s) (\<lambda>r. r\<lparr>p_flag := p_flag r - {SLOCK}\<rparr>) s),
                     modify (upd_u (\<lambda>u. u\<lparr>u_segflg := 0\<rparr>)),
                     modify (upd_text xp (\<lambda>x. x\<lparr>x_flag := {XWRIT}\<rparr>))] s)))"

subsection \<open>Removing unused texts\<close>

definition xuntext :: "env \<Rightarrow> nat \<Rightarrow> unit km" where
  "xuntext e xp = seq [
     xlock e xp,
     ifs (\<lambda>s. x_count (k_text s xp) \<noteq> 0) (xunlock e xp)
       (bind (need (\<lambda>s. x_iptr (k_text s xp))) (\<lambda>ip. seq [
          modify (xclr {XLOCK} xp),
          modify (upd_text xp (\<lambda>x. x\<lparr>x_iptr := None\<rparr>)),
          (\<lambda>s. mfree_swap (wtodb (x_size (k_text s xp))) (x_daddr (k_text s xp)) s),
          xdrop_inode e ip]))]"

primrec xumount_from :: "env \<Rightarrow> int \<Rightarrow> nat list \<Rightarrow> unit km" where
  "xumount_from e dev [] = ret ()"
| "xumount_from e dev (xp # xps) = seq [
     ifs (\<lambda>s. case x_iptr (k_text s xp) of None \<Rightarrow> False | Some ip \<Rightarrow> dev = i_dev (k_inode s ip)) (xuntext e xp) (ret ()),
     xumount_from e dev xps]"

definition xumount :: "env \<Rightarrow> int \<Rightarrow> unit km" where
  "xumount e dev = xumount_from e dev [0 ..< NTEXT]"

primrec xrele_from :: "env \<Rightarrow> nat \<Rightarrow> nat list \<Rightarrow> unit km" where
  "xrele_from e ip [] = ret ()"
| "xrele_from e ip (xp # xps) = seq [
     ifs (\<lambda>s. x_iptr (k_text s xp) = Some ip) (xuntext e xp) (ret ()),
     xrele_from e ip xps]"

definition xrele :: "env \<Rightarrow> nat \<Rightarrow> unit km" where
  "xrele e ip = ifs (ihas ITEXT ip) (xrele_from e ip [0 ..< NTEXT]) (ret ())"

end
