(* ===== verification/Swap.thy ===== *)
theory Swap
  imports Text
begin

section \<open>The swapper, fork and growth (the rest of kernel/slp.c)\<close>

text \<open>
  \<open>sched\<close> is the loop of process 0, of which \<open>sched_pass\<close> is one turn.  \<open>newproc\<close> is the parent's side
  of a fork; the child, when it is first dispatched, comes out of \<open>save(u.u_ssav)\<close> and takes
  the arm \<open>newproc_child\<close>.
\<close>

subsection \<open>Swapping in\<close>

definition swapin :: "env \<Rightarrow> nat \<Rightarrow> int km" where
  "swapin e p =
     bind (\<lambda>s. malloc_core (p_size (k_proc s p)) s) (\<lambda>a.
       if a = 0 then ret 0
       else
         (let fin = andthen (seq [
                (\<lambda>s. swap e (p_addr (k_proc s p)) a (p_size (k_proc s p)) {B_READ} s),
                modify (\<lambda>s. s\<lparr>k_nswapin := k_nswapin s + 1\<rparr>),
                (\<lambda>s. mfree_swap (wtodb (p_size (k_proc s p))) (p_addr (k_proc s p)) s),
                modify (upd_proc p (\<lambda>r. r\<lparr>p_addr := a, p_flag := insert SLOAD (p_flag r), p_time := 0\<rparr>))]) (ret 1)
          in bind (gets (\<lambda>s. p_textp (k_proc s p))) (\<lambda>xpo.
               case xpo of
                 None \<Rightarrow> fin
               | Some xp \<Rightarrow>
                   andthen (xlock e xp)
                     (bind (ifs (\<lambda>s. x_ccount (k_text s xp) = 0)
                              (bind (\<lambda>s. malloc_core (x_size (k_text s xp)) s) (\<lambda>x.
                                 if x = 0 then ret False
                                 else andthen (seq [
                                   modify (upd_text xp (\<lambda>t. t\<lparr>x_caddr := x\<rparr>)),
                                   ifs (xhas XLOAD xp) (ret ()) (seq [
                                     (\<lambda>s. swap e (x_daddr (k_text s xp)) x (x_size (k_text s xp)) {B_READ} s),
                                     modify (\<lambda>s. s\<lparr>k_ntextin := k_ntextin s + 1\<rparr>)])]) (ret True)))
                              (ret True)) (\<lambda>ok.
                        if \<not> ok then andthen (seq [
                          xunlock e xp,
                          (\<lambda>s. mfree_core e (p_size (k_proc s p)) a s)]) (ret 0)
                        else andthen (seq [
                          modify (upd_text xp (\<lambda>t. t\<lparr>x_ccount := cinc (x_ccount t)\<rparr>)),
                          xunlock e xp]) fin)))))"

subsection \<open>The choices of the swapper\<close>

text \<open>Who comes in: of the runnable processes that are out, the one out longest.\<close>

definition sched_in :: "(nat \<Rightarrow> proc) \<Rightarrow> nat option \<times> int" where
  "sched_in P = fold (\<lambda>rp (p, outage).
     let r = P rp; t = p_time r - (p_nice r - NZERO) * 8
     in if p_stat r = SRUN \<and> SLOAD \<notin> p_flag r \<and> t > outage then (Some rp, t) else (p, outage))
     [0 ..< NPROC] (None, -20000)"

text \<open>Who goes out: the largest of those sleeping at bad priority or stopped; if none, the oldest.\<close>

definition sched_out :: "(nat \<Rightarrow> proc) \<Rightarrow> (nat \<Rightarrow> xtext) \<Rightarrow> nat option \<times> int \<times> int" where
  "sched_out P T = fold (\<lambda>rp (p, maxsize, inage).
     let r = P rp; t = p_time r + p_nice r - NZERO
     in if p_stat r = SZOMB \<or> p_flag r \<inter> {SSYS, SLOCK, SULOCK, SLOAD} \<noteq> {SLOAD} then (p, maxsize, inage)
        else if (case p_textp r of None \<Rightarrow> False | Some xp \<Rightarrow> XLOCK \<in> x_flag (T xp)) then (p, maxsize, inage)
        else if (p_stat r = SSLEEP \<and> p_pri r \<ge> PZERO) \<or> p_stat r = SSTOP then
          if maxsize < p_size r then (Some rp, p_size r, inage) else (p, maxsize, inage)
        else if maxsize < 0 \<and> (p_stat r = SRUN \<or> p_stat r = SSLEEP) \<and> t > inage then (Some rp, maxsize, t)
        else (p, maxsize, inage))
     [0 ..< NPROC] (None, -1, -1)"

definition sched_pass :: "env \<Rightarrow> unit km" where
  "sched_pass e s =
     (case sched_in (k_proc s) of
        (po, outage) \<Rightarrow>
          if outage = -20000 then seq [
            modify (\<lambda>s. s\<lparr>k_runout := cinc (k_runout s)\<rparr>),
            sleep e Ch_runout PSWP] s
          else bind (need (\<lambda>_. po)) (\<lambda>p.
            bind (swapin e p) (\<lambda>r.
              if r \<noteq> 0 then ret ()
              else (\<lambda>s. case sched_out (k_proc s) (k_text s) of
                (qo, maxsize, inage) \<Rightarrow>
                  if maxsize \<ge> 0 \<or> (outage \<ge> 3 \<and> inage \<ge> 2) then
                    bind (need (\<lambda>_. qo)) (\<lambda>q. seq [
                      modify (upd_proc q (\<lambda>r. r\<lparr>p_flag := p_flag r - {SLOAD}\<rparr>)),
                      xswap e q True 0]) s
                  else seq [
                    modify (\<lambda>s. s\<lparr>k_runin := cinc (k_runin s)\<rparr>),
                    sleep e Ch_runin PSWP] s))) s)"

definition sched :: "env \<Rightarrow> unit km" where
  "sched e = whiles (e_fuel e) (\<lambda>_. True) (sched_pass e)"

subsection \<open>Fork\<close>

text \<open>A process number that is nobody's and no group's: a collision is a retry, and so is the wrap
  at 30000.  At most 300 numbers are taken.\<close>

primrec new_pid :: "nat \<Rightarrow> (nat \<Rightarrow> proc) \<Rightarrow> int \<Rightarrow> int option" where
  "new_pid 0 P mp = None"
| "new_pid (Suc f) P mp =
     (let m = mp + 1
      in if m \<ge> 30000 then new_pid f P 0
         else if \<exists>p \<in> set [0 ..< NPROC]. p_pid (P p) = m \<or> p_pgrp (P p) = m then new_pid f P m
         else Some m)"

text \<open>One more reference to everything the parent has open.\<close>

definition dup_files :: "kst \<Rightarrow> kst" where
  "dup_files s = fold (\<lambda>n s. case u_ofile (k_u s) n of
     None \<Rightarrow> s
   | Some fp \<Rightarrow> upd_file fp (\<lambda>f. f\<lparr>f_count := cinc (f_count f)\<rparr>) s) [0 ..< NOFILE] s"

definition icount_inc :: "nat \<Rightarrow> kst \<Rightarrow> kst" where
  "icount_inc ip = upd_inode ip (\<lambda>i. i\<lparr>i_count := cinc (i_count i)\<rparr>)"

definition dup_refs :: "nat \<Rightarrow> kst \<Rightarrow> kst" where
  "dup_refs up s =
     (let s1 = dup_files s;
          s2 = (case p_textp (k_proc s1 up) of
                  None \<Rightarrow> s1
                | Some xp \<Rightarrow> upd_text xp (\<lambda>x. x\<lparr>x_count := cinc (x_count x), x_ccount := cinc (x_ccount x)\<rparr>) s1);
          s3 = icount_inc (u_cdir (k_u s2)) s2
      in case u_rdir (k_u s3) of None \<Rightarrow> s3 | Some d \<Rightarrow> icount_inc d s3)"

definition child_entry :: "proc \<Rightarrow> int \<Rightarrow> proc \<Rightarrow> proc" where
  "child_entry rip pid r = r\<lparr>p_stat := SRUN, p_clktim := 0, p_flag := {SLOAD}, p_uid := p_uid rip,
     p_pgrp := p_pgrp rip, p_nice := p_nice rip, p_textp := p_textp rip, p_pid := pid,
     p_ppid := p_pid rip, p_time := 0, p_cpu := 0\<rparr>"

text \<open>Copy \<open>n\<close> words, a page at a time.\<close>

function copy_pages :: "int \<Rightarrow> int \<Rightarrow> int \<Rightarrow> kst \<Rightarrow> kst" where
  "copy_pages a1 a2 n s = (if n > 0 then copy_pages (a1 + PGSZ) (a2 + PGSZ) (n - PGSZ) (copyseg a1 a2 s) else s)"
  by pat_completeness auto
termination by (relation "measure (\<lambda>(a1, a2, n, s). nat n)") auto

declare copy_pages.simps [simp del]

definition newproc :: "env \<Rightarrow> int km" where
  "newproc e s0 =
     (case new_pid 302 (k_proc s0) (k_mpid s0) of
        None \<Rightarrow> Hang
      | Some pid \<Rightarrow>
          (let s = s0\<lparr>k_mpid := pid\<rparr>
           in case find (\<lambda>p. p_stat (k_proc s p) = SNONE) [0 ..< NPROC] of
                None \<Rightarrow> Panic ''no procs'' s
              | Some rpp \<Rightarrow>
                  (let up = curproc s
                   in andthen (seq [
                        modify (\<lambda>s. upd_proc rpp (child_entry (k_proc s up) pid) s),
                        modify (dup_refs up),
                        modify (upd_u (\<lambda>u. u\<lparr>u_procp := rpp\<rparr>)),
                        modify (\<lambda>s. upd_proc rpp (\<lambda>r. r\<lparr>p_size := p_size (k_proc s up)\<rparr>) s),
                        modify (\<lambda>s. uflush e (p_addr (k_proc s up)) s),
                        bind (\<lambda>s. malloc_core (p_size (k_proc s up)) s) (\<lambda>a2.
                          if a2 = 0 then seq [
                            modify (upd_proc up (\<lambda>r. r\<lparr>p_stat := SIDL\<rparr>)),
                            modify (\<lambda>s. upd_proc rpp (\<lambda>r. r\<lparr>p_addr := p_addr (k_proc s up)\<rparr>) s),
                            xswap e rpp False 0,
                            modify (upd_proc up (\<lambda>r. r\<lparr>p_stat := SRUN\<rparr>))]
                          else seq [
                            modify (upd_proc rpp (\<lambda>r. r\<lparr>p_addr := a2\<rparr>)),
                            modify (\<lambda>s. copy_pages (p_addr (k_proc s up)) a2 (p_size (k_proc s up)) s)]),
                        modify (upd_u (\<lambda>u. u\<lparr>u_procp := up\<rparr>)),
                        setrq rpp,
                        modify (upd_proc rpp (\<lambda>r. r\<lparr>p_flag := insert SSWAP (p_flag r)\<rparr>))]) (ret 0) s)))"

definition newproc_child :: "int km" where
  "newproc_child = andthen sureg_k (ret 1)"

subsection \<open>Changing the size of a process\<close>

text \<open>The pages but the first, from \<open>i\<close> words on.\<close>

definition move_image :: "int \<Rightarrow> int \<Rightarrow> int \<Rightarrow> kst \<Rightarrow> kst" where
  "move_image a1 a2 n s = copy_pages (a1 + PGSZ) (a2 + PGSZ) (n - PGSZ) s"

text \<open>When there is no core the process is swapped out with its new size and comes back, in the
  arm of \<open>save(u.u_ssav)\<close>, where \<open>sureg\<close> is called; so does the process that was moved, since the
  \<open>resume\<close> at the end leads to the same arm.\<close>

definition expand :: "env \<Rightarrow> int \<Rightarrow> unit km" where
  "expand e newsize s =
     (let p = curproc s; n = p_size (k_proc s p); a1 = p_addr (k_proc s p);
          s = upd_proc p (\<lambda>r. r\<lparr>p_size := newsize\<rparr>) s
      in if n \<ge> newsize then mfree_core e (n - newsize) (a1 + newsize) s
         else bind (malloc_core newsize) (\<lambda>a2.
           if a2 = 0 then seq [
             xswap e p True n,
             modify (upd_proc p (\<lambda>r. r\<lparr>p_flag := insert SSWAP (p_flag r)\<rparr>)),
             qswtch e]
           else seq [
             modify (upd_proc p (\<lambda>r. r\<lparr>p_addr := a2\<rparr>)),
             modify (move_image a1 a2 n),
             modify (\<lambda>s. s\<lparr>k_uhome := a2\<rparr>),
             mfree_core e n a1,
             modify (resume_u e a2),
             sureg_k]) s)"

end
