(* ===== verification/Fio.thy ===== *)
theory Fio
  imports Swap
begin

section \<open>Files, permissions and path names (kernel/fio.c, kernel/nami.c)\<close>

text \<open>
  The table of open files, the permission check, and \<open>namei\<close>, which follows a path name from
  directory to directory.  \<open>namei\<close> reads the name a character at a time through a function, which
  is \<open>uchar\<close> for a name in the user's memory and \<open>schar\<close> for one in the kernel's, whose characters
  are \<open>u_dirk\<close>.  The multiplexor inode \<open>mpxip\<close> is never set in this kernel, so the two tests of it
  have no counterpart.
\<close>

subsection \<open>Descriptors and files\<close>

definition getf :: "int \<Rightarrow> (nat option) km" where
  "getf f s =
     (case (if 0 \<le> f \<and> f < int NOFILE then u_ofile (k_u s) (nat f) else None) of
        Some fp \<Rightarrow> Ret (Some fp) s
      | None \<Rightarrow> Ret None (set_error EBADF s))"

definition fl_int :: "fflag set \<Rightarrow> int" where
  "fl_int F = (if FREAD \<in> F then 1 else 0) + (if FWRITE \<in> F then 2 else 0) + (if FPIPE \<in> F then 4 else 0) +
     (if FKERNEL \<in> F then 32 else 0)"

definition file_open_on :: "nat \<Rightarrow> kst \<Rightarrow> bool" where
  "file_open_on ip s = (\<exists>fp \<in> set [0 ..< NFILE]. f_count (k_file s fp) \<noteq> 0 \<and> f_inode (k_file s fp) = ip)"

definition closef :: "env \<Rightarrow> nat option \<Rightarrow> unit km" where
  "closef e fpo = (case fpo of
     None \<Rightarrow> ret ()
   | Some fp \<Rightarrow> (\<lambda>s.
       if f_count (k_file s fp) > 1 then Ret () (upd_file fp (\<lambda>f. f\<lparr>f_count := cdec (f_count f)\<rparr>) s)
       else
         (let ip = f_inode (k_file s fp); flag = f_flag (k_file s fp);
              dev = i_addr (k_inode s ip) 0; type = i_mode (k_inode s ip) AND IFMT
          in seq [
               plock e ip,
               modify (upd_file fp (\<lambda>f. f\<lparr>f_count := 0\<rparr>)),
               guard (FPIPE \<in> flag) (seq [
                 modify (upd_inode ip (\<lambda>i. i\<lparr>i_mode := i_mode i AND NOT (IREAD OR IWRITE)\<rparr>)),
                 wakeup e (Ch_inode ip 1),
                 wakeup e (Ch_inode ip 2)]),
               iput e ip,
               if is_cdev type then ifs (file_open_on ip) (ret ()) (e_cclose e dev (fl_int flag))
               else if is_bdev type then ifs (file_open_on ip) (ret ()) (e_bclose e dev (fl_int flag))
               else ret ()] s)))"

definition openi :: "env \<Rightarrow> nat \<Rightarrow> int \<Rightarrow> unit km" where
  "openi e ip rw s =
     (let dev = i_addr (k_inode s ip) 0; maj = major dev; type = i_mode (k_inode s ip) AND IFMT
      in if is_cdev type then
           if maj < 0 \<or> maj \<ge> e_nchrdev e then Ret () (set_error ENXIO s) else e_copen e dev rw s
         else if is_bdev type then
           if maj < 0 \<or> maj \<ge> e_nblkdev e then Ret () (set_error ENXIO s) else e_bopen e dev rw s
         else Ret () s)"

definition suser :: "kst \<Rightarrow> int \<times> kst" where
  "suser s =
     (if u_uid (k_u s) = 0 then (1, upd_u (\<lambda>u. u\<lparr>u_acflag := u_acflag u OR 2\<rparr>) s)
      else (0, set_error EPERM s))"

definition ufalloc :: "kst \<Rightarrow> int \<times> kst" where
  "ufalloc s =
     (case find (\<lambda>i. u_ofile (k_u s) i = None) [0 ..< NOFILE] of
        Some i \<Rightarrow> (int i, upd_u (\<lambda>u. u\<lparr>u_val1 := int i, u_pofile := (u_pofile u)(i := False)\<rparr>) s)
      | None \<Rightarrow> (-1, set_error EMFILE s))"

definition falloc :: "kst \<Rightarrow> nat option \<times> kst" where
  "falloc s =
     (let (i, s) = ufalloc s
      in if i < 0 then (None, s)
         else case find (\<lambda>fp. f_count (k_file s fp) = 0) [0 ..< NFILE] of
           Some fp \<Rightarrow>
             (Some fp, upd_file fp (\<lambda>f. f\<lparr>f_count := cinc (f_count f), f_offset := 0\<rparr>)
                (upd_u (\<lambda>u. u\<lparr>u_ofile := (u_ofile u)(nat i := Some fp)\<rparr>) s))
         | None \<Rightarrow> (None, set_error ENFILE (printf (''no file'' @ NL) [] s)))"

subsection \<open>Permissions\<close>

text \<open>The part of \<open>access\<close> that looks at the mode: shift to the owner, group or other bits.\<close>

definition access_mode :: "user \<Rightarrow> inode \<Rightarrow> int \<Rightarrow> bool" where
  "access_mode u i m =
     (u_uid u = 0 \<or>
      i_mode i AND
        (if u_uid u \<noteq> i_uid i then (if u_gid u \<noteq> i_gid i then drop_bit 3 (drop_bit 3 m) else drop_bit 3 m)
         else m) \<noteq> 0)"

definition access :: "env \<Rightarrow> nat \<Rightarrow> int \<Rightarrow> int km" where
  "access e ip mode =
     (let check = ifs (\<lambda>s. access_mode (k_u s) (k_inode s ip) mode) (ret 0)
                    (andthen (modify (set_error EACCES)) (ret 1))
      in if mode = IWRITE then
           bind (\<lambda>s. getfs (i_dev (k_inode s ip)) s) (\<lambda>fp.
             ifs (\<lambda>s. bget fp s_ronly s \<noteq> 0) (andthen (modify (set_error EROFS)) (ret 1))
               (andthen (ifs (ihas ITEXT ip) (xrele e ip) (ret ()))
                  (ifs (ihas ITEXT ip) (andthen (modify (set_error ETXTBSY)) (ret 1)) check)))
         else check)"

subsection \<open>Path names\<close>

definition schar :: "int km" where
  "schar s =
     (case u_dirk (k_u s) of
        [] \<Rightarrow> Ret 0 s
      | c # cs \<Rightarrow> Ret (c AND 255) (upd_u (\<lambda>u. u\<lparr>u_dirk := cs\<rparr>) s))"

definition uchar :: "int km" where
  "uchar s =
     (let c = fubyte (u_upt (k_u s)) (k_mem s) (u_dirp (k_u s)); s1 = upd_u (\<lambda>u. u\<lparr>u_dirp := u_dirp u + 1\<rparr>) s
      in Ret c (if c = -1 then set_error EFAULT s1 else s1))"

abbreviation (input) SLASH :: int where "SLASH \<equiv> 47"

primrec skip_slashes :: "int km \<Rightarrow> nat \<Rightarrow> int \<Rightarrow> int km" where
  "skip_slashes func 0 c = hang"
| "skip_slashes func (Suc n) c = (if c = SLASH then bind func (skip_slashes func n) else ret c)"

text \<open>Gather a component into \<open>u_dbuf\<close>, of which \<open>cp\<close> bytes are filled.\<close>

primrec gather :: "int km \<Rightarrow> nat \<Rightarrow> int \<Rightarrow> nat \<Rightarrow> (int \<times> nat) km" where
  "gather func 0 c cp = hang"
| "gather func (Suc n) c cp = (\<lambda>s.
     if c \<noteq> SLASH \<and> c \<noteq> 0 \<and> uerr s = 0 then
       andthen (guard (cp < DIRSIZ) (modify (upd_u (\<lambda>u. u\<lparr>u_dbuf := wrb (u_dbuf u) (int cp) (word_of_int c)\<rparr>))))
         (bind func (\<lambda>c. gather func n c (if cp < DIRSIZ then Suc cp else cp))) s
     else Ret (c, cp) s)"

definition pad_name :: "nat \<Rightarrow> kst \<Rightarrow> kst" where
  "pad_name cp = upd_u (\<lambda>u. u\<lparr>u_dbuf := fold (\<lambda>i K. wrb K (int i) 0) [cp ..< DIRSIZ] (u_dbuf u)\<rparr>)"

abbreviation (input) DIRWORDS :: int where "DIRWORDS \<equiv> 4"
abbreviation (input) DIRSHIFT :: nat where "DIRSHIFT \<equiv> 7"
abbreviation (input) DIRMASK :: int where "DIRMASK \<equiv> 127"

text \<open>The outcome of the search of one directory: the component is there (its entry in \<open>u_dent\<close>), the
  end was reached with the first empty slot noted, or a block could not be read.\<close>

datatype dres = Dmatch | Dend int | Derr

definition d_ino :: "kst \<Rightarrow> int" where
  "d_ino s = ival (u_dent (k_u s) 0)"

definition same_name :: "kst \<Rightarrow> bool" where
  "same_name s = (\<forall>i \<in> set [0 ..< DIRSIZ]. rdb (u_dbuf (k_u s)) (int i) = rdb (u_dent (k_u s)) (6 + int i))"

definition brelse_opt :: "env \<Rightarrow> bufp option \<Rightarrow> unit km" where
  "brelse_opt e bpo = (case bpo of None \<Rightarrow> ret () | Some bp \<Rightarrow> brelse e bp)"

definition get_dent :: "bufp \<Rightarrow> int \<Rightarrow> kst \<Rightarrow> kst" where
  "get_dent bp on s = upd_u (\<lambda>u. u\<lparr>u_dent := (\<lambda>k. if 0 \<le> k \<and> k < DIRWORDS then bword bp (DIRWORDS * on + k) s else u_dent u k),
     u_offset := u_offset u + DIRENTSZ\<rparr>) s"

primrec namei_eloop :: "env \<Rightarrow> nat \<Rightarrow> nat \<Rightarrow> int \<Rightarrow> bufp option \<Rightarrow> dres km" where
  "namei_eloop e dp 0 eo bpo = hang"
| "namei_eloop e dp (Suc n) eo bpo = (\<lambda>s.
     if u_offset (k_u s) \<ge> i_size (k_inode s dp) then andthen (brelse_opt e bpo) (ret (Dend eo)) s
     else
       (let ent = u_offset (k_u s) div DIRENTSZ; on = ent AND DIRMASK
        in bind (if on = 0 \<or> bpo = None then
                   andthen (brelse_opt e bpo)
                     (bind (bmap e dp (drop_bit DIRSHIFT ent) True) (\<lambda>bn.
                        bind (\<lambda>s. bread e (i_dev (k_inode s dp)) bn s) (\<lambda>bp.
                          ifs (bhas B_ERROR bp) (andthen (brelse e bp) (ret None)) (ret (Some bp)))))
                 else ret bpo)
             (\<lambda>r. case r of
                None \<Rightarrow> ret Derr
              | Some bp \<Rightarrow>
                  andthen (modify (get_dent bp on))
                    (\<lambda>s. if d_ino s = 0 then
                           namei_eloop e dp n (if eo = 0 then u_offset (k_u s) else eo) (Some bp) s
                         else if same_name s then andthen (brelse e bp) (ret Dmatch) s
                         else namei_eloop e dp n eo (Some bp) s)) s))"

definition namei_out :: "env \<Rightarrow> nat \<Rightarrow> (nat option) km" where
  "namei_out e dp = andthen (iput e dp) (ret None)"

text \<open>The mount entry through which \<open>..\<close> of the root of a mounted volume leads.\<close>

definition covered :: "nat \<Rightarrow> kst \<Rightarrow> nat option" where
  "covered dp s =
     (if d_ino s = ROOTINO \<and> i_number (k_inode s dp) = ROOTINO \<and> rdb (u_dent (k_u s)) 7 = 46
      then find (\<lambda>i. m_bufp (k_mount s i) \<noteq> None \<and> m_dev (k_mount s i) = i_dev (k_inode s dp)) [1 ..< NMOUNT]
      else None)"

fun namei_cloop :: "env \<Rightarrow> int km \<Rightarrow> int \<Rightarrow> nat \<Rightarrow> nat \<Rightarrow> int \<Rightarrow> (nat option) km"
  and namei_seloop :: "env \<Rightarrow> int km \<Rightarrow> int \<Rightarrow> nat \<Rightarrow> nat \<Rightarrow> int \<Rightarrow> (nat option) km" where
  "namei_cloop e func flag 0 dp c = hang"
| "namei_cloop e func flag (Suc n) dp c = (\<lambda>s.
     if uerr s \<noteq> 0 then namei_out e dp s
     else if c = 0 then Ret (Some dp) s
     else bind (gather func (e_fuel e) c 0) (\<lambda>(c, cp).
            andthen (modify (pad_name cp))
              (bind (skip_slashes func (e_fuel e) c) (namei_seloop e func flag n dp))) s)"
| "namei_seloop e func flag 0 dp c = hang"
| "namei_seloop e func flag (Suc n) dp c =
     andthen (ifs (\<lambda>s. i_mode (k_inode s dp) AND IFMT \<noteq> IFDIR) (modify (set_error ENOTDIR)) (ret ()))
       (bind (access e dp IEXEC) (\<lambda>_ s.
          if uerr s \<noteq> 0 then namei_out e dp s
          else
            bind (namei_eloop e dp (Suc (nat (i_size (k_inode s dp)))) 0 None) (\<lambda>r.
              case r of
                Derr \<Rightarrow> namei_out e dp
              | Dend eo \<Rightarrow>
                  if flag = 1 \<and> c = 0 then
                    bind (access e dp IWRITE) (\<lambda>a.
                      if a \<noteq> 0 then namei_out e dp
                      else andthen (seq [
                        modify (upd_u (\<lambda>u. u\<lparr>u_pdir := Some dp\<rparr>)),
                        if eo \<noteq> 0 then modify (upd_u (\<lambda>u. u\<lparr>u_offset := eo - DIRENTSZ\<rparr>))
                        else modify (iset {IUPD, ICHG} dp)]) (ret None))
                  else andthen (modify (set_error ENOENT)) (namei_out e dp)
              | Dmatch \<Rightarrow>
                  if flag = 2 \<and> c = 0 then
                    bind (access e dp IWRITE) (\<lambda>a. if a \<noteq> 0 then namei_out e dp else ret (Some dp))
                  else (\<lambda>s.
                    case covered dp s of
                      Some m \<Rightarrow>
                        andthen (iput e dp)
                          (bind (need (\<lambda>s. m_inodp (k_mount s m))) (\<lambda>dp.
                             andthen (seq [modify (icount_inc dp), plock e dp]) (namei_seloop e func flag n dp c))) s
                    | None \<Rightarrow>
                        bind (gets (\<lambda>s. i_dev (k_inode s dp))) (\<lambda>d.
                          andthen (iput e dp)
                            (bind (\<lambda>s. iget e d (d_ino s) s) (\<lambda>r.
                               case r of None \<Rightarrow> ret None | Some dp \<Rightarrow> namei_cloop e func flag n dp c))) s))
              (upd_u (\<lambda>u. u\<lparr>u_offset := 0, u_segflg := 1\<rparr>) s)))"

definition namei :: "env \<Rightarrow> int km \<Rightarrow> int \<Rightarrow> (nat option) km" where
  "namei e func flag =
     bind func (\<lambda>c.
       bind (gets (\<lambda>s. if c = SLASH then (case u_rdir (k_u s) of None \<Rightarrow> k_rootdir s | Some d \<Rightarrow> d)
                       else u_cdir (k_u s))) (\<lambda>dp.
         andthen (bind (\<lambda>s. iget e (i_dev (k_inode s dp)) (i_number (k_inode s dp)) s) (\<lambda>_. ret ()))
           (bind (skip_slashes func (e_fuel e) c) (\<lambda>c.
              andthen (guard (c = 0 \<and> flag \<noteq> 0) (modify (set_error ENOENT)))
                (namei_cloop e func flag (e_fuel e) dp c)))))"

definition owner :: "env \<Rightarrow> (nat option) km" where
  "owner e = bind (namei e uchar 0) (\<lambda>r.
     case r of
       None \<Rightarrow> ret None
     | Some ip \<Rightarrow>
         ifs (\<lambda>s. u_uid (k_u s) = i_uid (k_inode s ip)) (ret (Some ip))
           (bind (lift suser) (\<lambda>su. if su \<noteq> 0 then ret (Some ip) else andthen (iput e ip) (ret None))))"

end
