(* ===== verification/Pipe.thy ===== *)
theory Pipe
  imports Fio
begin

section \<open>Pipes (kernel/pipe.c)\<close>

text \<open>
  A pipe is an inode without a name: a writer appends to it, a reader takes from its front,
  and when the reader has caught up both start again at offset 0.  The mode bits \<open>IREAD\<close> and
  \<open>IWRITE\<close> of the inode record who waits.
\<close>

abbreviation (input) PIPSIZ :: int where "PIPSIZ \<equiv> 4096"

definition pipe :: "env \<Rightarrow> unit km" where
  "pipe e = bind (ialloc e (e_pipedev e)) (\<lambda>r.
     case r of
       None \<Rightarrow> ret ()
     | Some ip \<Rightarrow>
         bind (lift falloc) (\<lambda>r.
           case r of
             None \<Rightarrow> iput e ip
           | Some rf \<Rightarrow>
               bind (gets (\<lambda>s. u_val1 (k_u s))) (\<lambda>r.
                 bind (lift falloc) (\<lambda>w.
                   case w of
                     None \<Rightarrow> seq [
                       modify (upd_file rf (\<lambda>f. f\<lparr>f_count := 0\<rparr>)),
                       modify (upd_u (\<lambda>u. u\<lparr>u_ofile := (u_ofile u)(nat r := None)\<rparr>)),
                       iput e ip]
                   | Some wfile \<Rightarrow> seq [
                       modify (upd_u (\<lambda>u. u\<lparr>u_val2 := u_val1 u\<rparr>)),
                       modify (upd_u (\<lambda>u. u\<lparr>u_val1 := r\<rparr>)),
                       modify (upd_file wfile (\<lambda>f. f\<lparr>f_flag := {FWRITE, FPIPE}, f_inode := ip\<rparr>)),
                       modify (upd_file rf (\<lambda>f. f\<lparr>f_flag := {FREAD, FPIPE}, f_inode := ip\<rparr>)),
                       modify (upd_inode ip (\<lambda>i. i\<lparr>i_count := 2, i_mode := IFREG, i_flag := {IACC, IUPD, ICHG}\<rparr>))]))))"

text \<open>After a read: has the reader caught up?\<close>

definition readp_done :: "env \<Rightarrow> nat \<Rightarrow> nat \<Rightarrow> unit km" where
  "readp_done e fp ip =
     ifs (\<lambda>s. f_offset (k_file s fp) = i_size (k_inode s ip)) (seq [
       modify (upd_file fp (\<lambda>f. f\<lparr>f_offset := 0\<rparr>)),
       modify (upd_inode ip (\<lambda>i. i\<lparr>i_size := 0\<rparr>)),
       ifs (\<lambda>s. i_mode (k_inode s ip) AND IWRITE \<noteq> 0) (seq [
         modify (upd_inode ip (\<lambda>i. i\<lparr>i_mode := i_mode i AND NOT IWRITE\<rparr>)),
         wakeup e (Ch_inode ip 1)]) (ret ())]) (ret ())"

primrec readp_loop :: "env \<Rightarrow> nat \<Rightarrow> nat \<Rightarrow> nat \<Rightarrow> unit km" where
  "readp_loop e fp ip 0 = hang"
| "readp_loop e fp ip (Suc n) = seq [
     plock e ip,
     ifs (\<lambda>s. i_size (k_inode s ip) = 0) (seq [
       prele e ip,
       ifs (\<lambda>s. i_count (k_inode s ip) < 2) (ret ()) (seq [
         modify (upd_inode ip (\<lambda>i. i\<lparr>i_mode := i_mode i OR IREAD\<rparr>)),
         sleep e (Ch_inode ip 2) PPIPE,
         readp_loop e fp ip n])])
     (seq [
       modify (\<lambda>s. upd_u (\<lambda>u. u\<lparr>u_offset := f_offset (k_file s fp)\<rparr>) s),
       readi e ip,
       modify (\<lambda>s. upd_file fp (\<lambda>f. f\<lparr>f_offset := u_offset (k_u s)\<rparr>) s),
       readp_done e fp ip,
       prele e ip])]"

definition readp :: "env \<Rightarrow> nat \<Rightarrow> unit km" where
  "readp e fp s = readp_loop e fp (f_inode (k_file s fp)) (e_fuel e) s"

text \<open>\<open>c\<close> is the number of bytes still to be written.\<close>

primrec writep_loop :: "env \<Rightarrow> nat \<Rightarrow> nat \<Rightarrow> int \<Rightarrow> unit km" where
  "writep_loop e ip 0 c = hang"
| "writep_loop e ip (Suc n) c = seq [
     plock e ip,
     if c = 0 then seq [prele e ip, modify (upd_u (\<lambda>u. u\<lparr>u_count := 0\<rparr>))]
     else ifs (\<lambda>s. i_count (k_inode s ip) < 2) (seq [
       prele e ip,
       modify (set_error EPIPE),
       (\<lambda>s. psignal e (curproc s) 13 s)])
     (ifs (\<lambda>s. i_size (k_inode s ip) \<ge> PIPSIZ) (seq [
       modify (upd_inode ip (\<lambda>i. i\<lparr>i_mode := i_mode i OR IWRITE\<rparr>)),
       prele e ip,
       sleep e (Ch_inode ip 1) PPIPE,
       writep_loop e ip n c])
     (seq [
       modify (\<lambda>s. upd_u (\<lambda>u. u\<lparr>u_offset := i_size (k_inode s ip), u_count := kmin c PIPSIZ\<rparr>) s),
       writei e ip,
       prele e ip,
       ifs (\<lambda>s. i_mode (k_inode s ip) AND IREAD \<noteq> 0) (seq [
         modify (upd_inode ip (\<lambda>i. i\<lparr>i_mode := i_mode i AND NOT IREAD\<rparr>)),
         wakeup e (Ch_inode ip 2)]) (ret ()),
       writep_loop e ip n (c - kmin c PIPSIZ)]))]"

definition writep :: "env \<Rightarrow> nat \<Rightarrow> unit km" where
  "writep e fp s = writep_loop e (f_inode (k_file s fp)) (e_fuel e) (u_count (k_u s)) s"

end
