(* ===== verification/Process.thy ===== *)
theory Process
  imports Pipe
begin

section \<open>The life of a process (kernel/acct.c, exit, wait, fork and break of kernel/sys1.c)\<close>

text \<open>
  The arguments of a system call are the words \<open>u_arg\<close>.  A call reads one as an integer, as a
  character pointer, or as a word pointer; the last two become byte addresses.  A character
  pointer that the compiler makes has a byte field between 0 and 5, and only those are
  considered.  A process that has exited gives up the processor and is not resumed, which is
  why \<open>exit\<close> ends in a state that nothing follows.  The exit status and the times of a zombie
  share their storage with the address, the size and the channel of a living process, which
  nothing reads of a zombie; here they are fields of their own.
\<close>

subsection \<open>Arguments of a system call\<close>

definition wptr :: "w48 \<Rightarrow> int" where
  "wptr w = uint w AND 32767"

definition cptr :: "w48 \<Rightarrow> int" where
  "cptr w = 6 * wptr w + (5 - (drop_bit 44 (uint w) AND 7))"

definition argi :: "nat \<Rightarrow> kst \<Rightarrow> int" where
  "argi n s = ival (u_arg (k_u s) n)"

definition argc :: "nat \<Rightarrow> kst \<Rightarrow> int" where
  "argc n s = cptr (u_arg (k_u s) n)"

definition argw :: "nat \<Rightarrow> kst \<Rightarrow> int" where
  "argw n s = 6 * wptr (u_arg (k_u s) n)"

definition set_val1 :: "int \<Rightarrow> kst \<Rightarrow> kst" where
  "set_val1 v = upd_u (\<lambda>u. u\<lparr>u_val1 := v\<rparr>)"

definition set_val2 :: "int \<Rightarrow> kst \<Rightarrow> kst" where
  "set_val2 v = upd_u (\<lambda>u. u\<lparr>u_val2 := v\<rparr>)"

subsection \<open>Accounting\<close>

function compress_loop :: "int \<Rightarrow> int \<Rightarrow> int \<Rightarrow> int \<times> int \<times> int" where
  "compress_loop t ex rnd = (if t \<ge> 8192 then compress_loop (drop_bit 3 t) (ex + 1) (t AND 4) else (t, ex, rnd))"
  by pat_completeness auto
termination
proof (relation "measure (\<lambda>(t, ex, rnd). nat t)", goal_cases)
  case (2 t ex rnd)
  then have "drop_bit 3 t < t" by (simp add: drop_bit_eq_div)
  with 2 show ?case by simp
qed simp

declare compress_loop.simps [simp del]

definition compress :: "int \<Rightarrow> int" where
  "compress t0 =
     (let (t, ex, rnd) = compress_loop t0 0 0;
          (t, ex) = (if rnd \<noteq> 0 then if t + 1 \<ge> 8192 then (drop_bit 3 (t + 1), ex + 1) else (t + 1, ex) else (t, ex))
      in push_bit 13 ex + t)"

text \<open>The words of the accounting record (\<open>include/sys/acct.h\<close>): ten bytes of the command's name, nine
  numbers, and a flag in the first byte of the last word.\<close>

definition acct_record :: "user \<Rightarrow> int \<Rightarrow> (int \<Rightarrow> w48) \<Rightarrow> int \<Rightarrow> w48" where
  "acct_record u now K =
     (let K1 = fold (\<lambda>i K. wrb K (int i) (rdb (u_comm u) (int i))) [0 ..< 10] K;
          K2 = K1(2 := wval (compress (u_utime u)), 3 := wval (compress (u_stime u)),
                  4 := wval (compress (now - u_start u)), 5 := wval (u_start u), 6 := wval (u_ruid u),
                  7 := wval (u_rgid u), 8 := wval 0, 9 := wval 0, 10 := wval (u_ttyd u))
      in wrb K2 66 (wval (u_acflag u)))"

definition acct :: "env \<Rightarrow> unit km" where
  "acct e s =
     (case k_acctp s of
        None \<Rightarrow> Ret () s
      | Some ip \<Rightarrow> seq [
          plock e ip,
          modify (\<lambda>s. s\<lparr>k_acctbuf := acct_record (k_u s) (k_time s) (k_acctbuf s)\<rparr>),
          (\<lambda>s. let siz = i_size (k_inode s ip) in seq [
             modify (upd_u (\<lambda>u. u\<lparr>u_offset := siz, u_base := Kaddr Kacct 0, u_count := 72, u_segflg := 1, u_error := 0\<rparr>)),
             writei e ip,
             ifs (\<lambda>s. uerr s \<noteq> 0) (modify (upd_inode ip (\<lambda>i. i\<lparr>i_size := siz\<rparr>))) (ret ()),
             prele e ip] s)] s)"

definition sysacct :: "env \<Rightarrow> unit km" where
  "sysacct e = bind (lift suser) (\<lambda>su.
     if su = 0 then ret ()
     else (\<lambda>s.
       if u_arg (k_u s) 0 = 0 then
         (case k_acctp s of
            None \<Rightarrow> Ret () s
          | Some a \<Rightarrow> seq [plock e a, iput e a, modify (\<lambda>s. s\<lparr>k_acctp := None\<rparr>)] s)
       else if k_acctp s \<noteq> None then Ret () (set_error EBUSY s)
       else bind (namei e uchar 0) (\<lambda>r. case r of
         None \<Rightarrow> ret ()
       | Some ip \<Rightarrow>
           ifs (\<lambda>s. i_mode (k_inode s ip) AND IFMT \<noteq> IFREG) (seq [modify (set_error EACCES), iput e ip])
             (seq [modify (\<lambda>s. s\<lparr>k_acctp := Some ip\<rparr>), prele e ip])) s))"

definition syslock :: "unit km" where
  "syslock = bind (lift suser) (\<lambda>su.
     guard (su \<noteq> 0) (modify (\<lambda>s. upd_proc (curproc s) (\<lambda>r. r\<lparr>p_flag :=
       (if argi 0 s \<noteq> 0 then insert SULOCK (p_flag r - {SULOCK}) else p_flag r - {SULOCK})\<rparr>) s)))"

subsection \<open>Exit\<close>

primrec exit_files :: "env \<Rightarrow> nat list \<Rightarrow> unit km" where
  "exit_files e [] = ret ()"
| "exit_files e (i # is) = bind (gets (\<lambda>s. u_ofile (k_u s) i)) (\<lambda>f. seq [
     modify (upd_u (\<lambda>u. u\<lparr>u_ofile := (u_ofile u)(i := None)\<rparr>)),
     closef e f,
     exit_files e is])"

text \<open>The children go to process 1.\<close>

primrec disown :: "env \<Rightarrow> nat \<Rightarrow> nat list \<Rightarrow> unit km" where
  "disown e p [] = ret ()"
| "disown e p (q # qs) = seq [
     ifs (\<lambda>s. p_ppid (k_proc s q) = p_pid (k_proc s p)) (seq [
       wakeup e (Ch_proc 1),
       modify (upd_proc q (\<lambda>r. r\<lparr>p_ppid := 1\<rparr>)),
       ifs (\<lambda>s. p_stat (k_proc s q) = SSTOP) (setrun e q) (ret ())]) (ret ()),
     disown e p qs]"

definition exit_begin :: "nat \<Rightarrow> kst \<Rightarrow> kst" where
  "exit_begin p s =
     upd_u (\<lambda>u. u\<lparr>u_signal := (\<lambda>i. if i < NSIG then 1 else u_signal u i)\<rparr>)
       (upd_proc p (\<lambda>r. r\<lparr>p_flag := p_flag r - {STRC, SULOCK}, p_clktim := 0\<rparr>) s)"

definition zombie :: "nat \<Rightarrow> int \<Rightarrow> kst \<Rightarrow> kst" where
  "zombie p rv s =
     upd_proc p (\<lambda>r. r\<lparr>p_stat := SZOMB, xp_xstat := rv, xp_utime := u_cutime (k_u s) + u_utime (k_u s),
       xp_stime := u_cstime (k_u s) + u_stime (k_u s)\<rparr>) s"

definition exit :: "env \<Rightarrow> int \<Rightarrow> 'a km" where
  "exit e rv s =
     (let p = curproc s
      in andthen (seq [
           modify (exit_begin p),
           exit_files e [0 ..< NOFILE],
           (\<lambda>s. plock e (u_cdir (k_u s)) s),
           (\<lambda>s. iput e (u_cdir (k_u s)) s),
           (\<lambda>s. case u_rdir (k_u s) of None \<Rightarrow> Ret () s | Some d \<Rightarrow> seq [plock e d, iput e d] s),
           xfree e,
           acct e,
           (\<lambda>s. mfree_core e (p_size (k_proc s p)) (p_addr (k_proc s p)) s),
           modify (\<lambda>s. if p_addr (k_proc s p) = k_uhome s then s\<lparr>k_uhome := 0\<rparr> else s),
           modify (zombie p rv),
           disown e p [0 ..< NPROC],
           (\<lambda>s. case find (\<lambda>q. p_ppid (k_proc s p) = p_pid (k_proc s q)) [0 ..< NPROC] of
                  None \<Rightarrow> Ret () s
                | Some q \<Rightarrow> wakeup e (Ch_proc q) s),
           swtch e]) hang s)"

definition rexit :: "env \<Rightarrow> unit km" where
  "rexit e s = exit e (push_bit 8 (argi 0 s AND 255)) s"

subsection \<open>Wait\<close>

datatype wres = Wzomb nat | Wstop nat | Wnone nat

text \<open>The search for a child to report; the number is that of the children seen.\<close>

fun wait_scan :: "(nat \<Rightarrow> proc) \<Rightarrow> int \<Rightarrow> nat list \<Rightarrow> nat \<Rightarrow> wres" where
  "wait_scan P me [] f = Wnone f"
| "wait_scan P me (p # ps) f =
     (if p_ppid (P p) = me then
        if p_stat (P p) = SZOMB then Wzomb p
        else if p_stat (P p) = SSTOP \<and> SWTED \<notin> p_flag (P p) then Wstop p
        else wait_scan P me ps (Suc f)
      else wait_scan P me ps f)"

definition reap :: "nat \<Rightarrow> kst \<Rightarrow> kst" where
  "reap p s =
     (let r = k_proc s p
      in upd_proc p (\<lambda>r. r\<lparr>p_pid := 0, p_ppid := 0, p_pgrp := 0, p_sig := 0, p_flag := {}, p_wchan := None, p_stat := SNONE\<rparr>)
           (upd_u (\<lambda>u. u\<lparr>u_val1 := p_pid r, u_val2 := xp_xstat r, u_cutime := u_cutime u + xp_utime r,
              u_cstime := u_cstime u + xp_stime r\<rparr>) s))"

definition report_stop :: "nat \<Rightarrow> kst \<Rightarrow> kst" where
  "report_stop p s =
     (let r = k_proc s p
      in upd_u (\<lambda>u. u\<lparr>u_val1 := p_pid r, u_val2 := push_bit 8 (int (fsig r)) OR 127\<rparr>)
           (upd_proc p (\<lambda>r. r\<lparr>p_flag := insert SWTED (p_flag r)\<rparr>) s))"

primrec wait_loop :: "env \<Rightarrow> nat \<Rightarrow> nat \<Rightarrow> unit km" where
  "wait_loop e 0 f = hang"
| "wait_loop e (Suc n) f = (\<lambda>s.
     case wait_scan (k_proc s) (p_pid (k_proc s (curproc s))) [0 ..< NPROC] f of
       Wzomb p \<Rightarrow> Ret () (reap p s)
     | Wstop p \<Rightarrow> Ret () (report_stop p s)
     | Wnone f \<Rightarrow>
         if f \<noteq> 0 then seq [(\<lambda>s. sleep e (Ch_proc (curproc s)) PWAIT s), wait_loop e n f] s
         else Ret () (set_error ECHILD s))"

definition wait :: "env \<Rightarrow> unit km" where
  "wait e = wait_loop e (e_fuel e) 0"

subsection \<open>Fork\<close>

text \<open>The first free slot of the table, and how many processes the user has.\<close>

definition fork_count :: "(nat \<Rightarrow> proc) \<Rightarrow> int \<Rightarrow> nat option \<times> nat" where
  "fork_count P uid = fold (\<lambda>p1 (p2, a).
     if p_stat (P p1) = SNONE \<and> p2 = None then (Some p1, a)
     else if p_uid (P p1) = uid \<and> p_stat (P p1) \<noteq> SNONE then (p2, Suc a) else (p2, a)) [0 ..< NPROC] (None, 0)"

definition fork :: "env \<Rightarrow> unit km" where
  "fork e = bind (malloc_swap (wtodb MAXMEM)) (\<lambda>a.
     if a = 0 then modify (set_error ENOMEM)
     else andthen (mfree_swap (wtodb MAXMEM) a) (\<lambda>s.
       case fork_count (k_proc s) (u_uid (k_u s)) of
         (None, a) \<Rightarrow> Ret () (set_error EAGAIN s)
       | (Some p2, a) \<Rightarrow>
           if u_uid (k_u s) \<noteq> 0 \<and> (p2 = NPROC - 1 \<or> a > MAXUPRC) then Ret () (set_error EAGAIN s)
           else bind (newproc e) (\<lambda>_. modify (\<lambda>s. set_val2 0 (set_val1 (p_pid (k_proc s p2)) s))) s))"

text \<open>The child, when it first runs; \<open>p1\<close> is its parent.\<close>

definition fork_child :: "nat \<Rightarrow> unit km" where
  "fork_child p1 = bind newproc_child (\<lambda>_. modify (\<lambda>s.
     upd_u (\<lambda>u. u\<lparr>u_val1 := p_pid (k_proc s p1), u_val2 := 1, u_start := k_time s, u_cstime := 0, u_stime := 0,
       u_cutime := 0, u_utime := 0, u_acflag := 1\<rparr>) s))"

subsection \<open>Break\<close>

text \<open>Move \<open>n\<close> words of stack by \<open>d\<close>, upwards from \<open>a\<close> when the data shrinks, downwards from the end
  when it grows; clear the \<open>d\<close> words below \<open>a\<close>.\<close>

function move_up :: "int \<Rightarrow> int \<Rightarrow> int \<Rightarrow> kst \<Rightarrow> kst" where
  "move_up a d n s = (if n > 0 then move_up (a + PGSZ) d (n - PGSZ) (copyseg (a - d) a s) else s)"
  by pat_completeness auto
termination by (relation "measure (\<lambda>(a, d, n, s). nat n)") auto

function move_down :: "int \<Rightarrow> int \<Rightarrow> int \<Rightarrow> kst \<Rightarrow> int \<times> kst" where
  "move_down a d n s = (if n > 0 then move_down (a - PGSZ) d (n - PGSZ) (copyseg (a - PGSZ - d) (a - PGSZ) s) else (a, s))"
  by pat_completeness auto
termination by (relation "measure (\<lambda>(a, d, n, s). nat n)") auto

function clear_down :: "int \<Rightarrow> int \<Rightarrow> kst \<Rightarrow> kst" where
  "clear_down a d s = (if d > 0 then clear_down (a - PGSZ) (d - PGSZ) (clearseg (a - PGSZ) s) else s)"
  by pat_completeness auto
termination by (relation "measure (\<lambda>(a, d, s). nat d)") auto

declare move_up.simps [simp del] move_down.simps [simp del] clear_down.simps [simp del]

definition sbreak :: "env \<Rightarrow> unit km" where
  "sbreak e s =
     (let n0 = pground (wptr (u_arg (k_u s) 0)) - u_tsize (k_u s);
          n1 = (if n0 < 0 then 0 else n0);
          d = n1 - u_dsize (k_u s);
          n = n1 + (USIZE + u_ssize (k_u s))
      in bind (estabur_k (u_tsize (k_u s)) (u_dsize (k_u s) + d) (u_ssize (k_u s))) (\<lambda>r.
           if r \<noteq> 0 then ret ()
           else if d > 0 then seq [
             expand e n,
             modify (\<lambda>s. let (a, s1) = move_down (p_addr (k_proc s (curproc s)) + n) d (u_ssize (k_u s)) s
                         in clear_down a d s1)]
           else seq [
             modify (\<lambda>s. move_up (p_addr (k_proc s (curproc s)) + n - u_ssize (k_u s)) d (u_ssize (k_u s)) s),
             expand e n]) s)"

end
