(* ===== verification/Exec.thy ===== *)
theory Exec
  imports Process
begin

section \<open>Executing a file (kernel/sys1.c)\<close>

text \<open>
  \<open>exece\<close> stages the argument strings in blocks of the swap device, replaces the image of the
  process by that of the file (\<open>getxfile\<close>), and copies the strings and the vector of pointers to
  the base of the new stack.  The sums of the segment sizes wrap at the 41 bits of an \<open>int\<close>,
  which is what the tests for a negative sum are about.
\<close>

abbreviation (input) NCARGS :: int where "NCARGS \<equiv> 5120"
abbreviation (input) ARGBLKS :: int where "ARGBLKS \<equiv> 2"
abbreviation (input) FMAGIC :: w48 where "FMAGIC \<equiv> 0x4245534d0107"
abbreviation (input) NMAGIC :: w48 where "NMAGIC \<equiv> 0x4245534d0108"

text \<open>The indices of the saved registers in the frame (\<open>include/sys/reg.h\<close>).\<close>

abbreviation (input) RACC :: nat where "RACC \<equiv> 0"
abbreviation (input) RREG :: nat where "RREG \<equiv> 1"
abbreviation (input) RET :: nat where "RET \<equiv> 3"
abbreviation (input) SPSW :: nat where "SPSW \<equiv> 4"
abbreviation (input) CREG :: nat where "CREG \<equiv> 5"
abbreviation (input) R15 :: nat where "R15 \<equiv> 6"
abbreviation (input) R14 :: nat where "R14 \<equiv> 7"
abbreviation (input) R13 :: nat where "R13 \<equiv> 8"
abbreviation (input) R12 :: nat where "R12 \<equiv> 9"
abbreviation (input) R1 :: nat where "R1 \<equiv> 20"
abbreviation (input) NREGFRAME :: nat where "NREGFRAME \<equiv> 21"

definition set_ar0 :: "nat \<Rightarrow> w48 \<Rightarrow> kst \<Rightarrow> kst" where
  "set_ar0 r v = upd_u (\<lambda>u. u\<lparr>u_ar0 := (u_ar0 u)(r := v)\<rparr>)"

text \<open>\<open>regloc\<close> (kernel/trap.c): the accumulator, the registers 1 to 15, the return address.\<close>

definition regloc :: "nat list" where
  "regloc = [RACC] @ rev [R14 ..< Suc R1] @ [R15, RET]"

text \<open>The word that a character pointer to byte address \<open>a\<close> is.\<close>

definition fatptr :: "int \<Rightarrow> w48" where
  "fatptr a = word_of_int (push_bit 47 1 OR push_bit 44 (ptrbyte a) OR ptrword a)"

definition iwrap :: "int \<Rightarrow> int" where
  "iwrap x = ival (wval x)"

definition uxput :: "int \<Rightarrow> int \<Rightarrow> kst \<Rightarrow> kst" where
  "uxput i v = upd_u (\<lambda>u. u\<lparr>u_exdata := (u_exdata u)(i := wval v)\<rparr>)"

subsection \<open>The new image\<close>

function clear_image :: "int \<Rightarrow> kst \<Rightarrow> kst" where
  "clear_image i s =
     (if i - PGSZ \<ge> USIZE then clear_image (i - PGSZ) (clearseg (p_addr (k_proc s (curproc s)) + (i - PGSZ)) s) else s)"
  by pat_completeness auto
termination by (relation "measure (\<lambda>(i, s). nat i)") auto

declare clear_image.simps [simp del]

definition read_header :: "env \<Rightarrow> nat \<Rightarrow> unit km" where
  "read_header e ip = seq [
     modify (upd_u (\<lambda>u. u\<lparr>u_base := Kaddr Kexdata 0, u_count := HDRSZ, u_offset := 0, u_segflg := 1\<rparr>)),
     readi e ip,
     modify (upd_u (\<lambda>u. u\<lparr>u_segflg := 0\<rparr>))]"

text \<open>The checks of the header, and the folding of an impure image into its data: an error number,
  or the header to go on with.\<close>

definition check_header :: "inode \<Rightarrow> kst \<Rightarrow> int + kst" where
  "check_header i s =
     (if uxget ux_csize s < 0 \<or> uxget ux_tsize s < 0 \<or> uxget ux_dsize s < 0 \<or> uxget ux_bsize s < 0 then Inl ENOEXEC
      else
        (let r = (if u_exdata (k_u s) ux_mag = FMAGIC then
                    (let lsize = iwrap (uxget ux_csize s + uxget ux_tsize s + uxget ux_dsize s)
                     in if lsize < 0 then Inl ENOMEM
                        else Inr (uxput ux_tsize 0 (uxput ux_csize 0 (uxput ux_dsize lsize s))))
                  else if u_exdata (k_u s) ux_mag \<noteq> NMAGIC then Inl ENOEXEC
                  else Inr s)
         in case r of
              Inl x \<Rightarrow> Inl x
            | Inr s1 \<Rightarrow>
                if uxget ux_tsize s1 \<noteq> 0 \<and> ITEXT \<notin> i_flag i \<and> i_count i \<noteq> 1 then Inl ETXTBSY else Inr s1))"

text \<open>The sizes of the three segments in words, from the header and the bytes of arguments.\<close>

definition seg_sizes :: "int \<Rightarrow> kst \<Rightarrow> int + (int \<times> int \<times> int)" where
  "seg_sizes nargc s =
     (let ts = (if uxget ux_tsize s \<noteq> 0 then pground (BADDR + btow (iwrap (uxget ux_csize s + uxget ux_tsize s))) else 0);
          lsize = iwrap (uxget ux_dsize s + uxget ux_bsize s)
      in if lsize < 0 then Inl ENOMEM
         else Inr (ts, pground (btow lsize + (if ts \<noteq> 0 then 0 else BADDR)), SSIZE + pground (btow nargc)))"

definition set_ids :: "env \<Rightarrow> nat \<Rightarrow> unit km" where
  "set_ids e ip = (\<lambda>s.
     if STRC \<notin> p_flag (k_proc s (curproc s)) then seq [
       ifs (\<lambda>s. i_mode (k_inode s ip) AND ISUID \<noteq> 0 \<and> u_uid (k_u s) \<noteq> 0)
         (modify (\<lambda>s. upd_proc (curproc s) (\<lambda>r. r\<lparr>p_uid := i_uid (k_inode s ip)\<rparr>)
            (upd_u (\<lambda>u. u\<lparr>u_uid := i_uid (k_inode s ip)\<rparr>) s))) (ret ()),
       ifs (\<lambda>s. i_mode (k_inode s ip) AND ISGID \<noteq> 0)
         (modify (\<lambda>s. upd_u (\<lambda>u. u\<lparr>u_gid := i_gid (k_inode s ip)\<rparr>) s)) (ret ())] s
     else psignal e (curproc s) 5 s)"

definition load_image :: "env \<Rightarrow> nat \<Rightarrow> int \<Rightarrow> int \<Rightarrow> int \<Rightarrow> unit km" where
  "load_image e ip ts ds ss = seq [
     xfree e,
     expand e (USIZE + ds + ss),
     modify (clear_image (USIZE + ds + ss)),
     xalloc e ip,
     bind (estabur_k ts ds 0) (\<lambda>_. ret ()),
     modify (\<lambda>s. upd_u (\<lambda>u. u\<lparr>u_base := Uaddr (6 * (if ts \<noteq> 0 then ts else BADDR)),
       u_offset := HDRSZ + uxget ux_csize s + uxget ux_tsize s, u_count := uxget ux_dsize s\<rparr>) s),
     readi e ip,
     set_ids e ip,
     modify (upd_u (\<lambda>u. u\<lparr>u_tsize := ts, u_dsize := ds, u_ssize := ss\<rparr>)),
     bind (estabur_k ts ds ss) (\<lambda>_. ret ())]"

definition getxfile :: "env \<Rightarrow> nat \<Rightarrow> int \<Rightarrow> int km" where
  "getxfile e ip nargc =
     andthen (seq [
       read_header e ip,
       ifs (\<lambda>s. uerr s \<noteq> 0) (ret ())
         (ifs (\<lambda>s. u_count (k_u s) \<noteq> 0) (modify (set_error ENOEXEC)) (\<lambda>s.
            case check_header (k_inode s ip) s of
              Inl x \<Rightarrow> Ret () (set_error x s)
            | Inr s1 \<Rightarrow>
                (case seg_sizes nargc s1 of
                   Inl x \<Rightarrow> Ret () (set_error x s1)
                 | Inr (ts, ds, ss) \<Rightarrow>
                     bind (estabur_k ts ds ss) (\<lambda>r. if r \<noteq> 0 then ret () else load_image e ip ts ds ss) s1)))]) (ret 0)"

subsection \<open>The arguments\<close>

text \<open>One string at \<open>up\<close>: \<open>nc\<close> bytes are staged, \<open>bpo\<close> is the block being filled and \<open>cp\<close> the position in
  it.  The result says whether all went well.\<close>

primrec stage_string :: "env \<Rightarrow> int \<Rightarrow> nat \<Rightarrow> int \<Rightarrow> int \<Rightarrow> bufp option \<Rightarrow> int \<Rightarrow> (bool \<times> int \<times> bufp option \<times> int) km" where
  "stage_string e bno 0 up nc bpo cp = hang"
| "stage_string e bno (Suc n) up nc bpo cp =
     andthen (guard (nc \<ge> NCARGS - 1) (modify (set_error E2BIG)))
       (bind (gets (\<lambda>s. fubyte (u_upt (k_u s)) (k_mem s) up)) (\<lambda>c.
          andthen (guard (c < 0) (modify (set_error EFAULT)))
            (ifs (\<lambda>s. uerr s \<noteq> 0) (ret (False, nc, bpo, cp))
               (bind (if nc mod BSIZE = 0 then
                        andthen (case bpo of None \<Rightarrow> ret () | Some bp \<Rightarrow> bawrite e bp)
                          (bind (getblk e (e_swapdev e) (e_swplo e + bno + nc div BSIZE)) (\<lambda>bp. ret (bp, 0)))
                      else bind (need (\<lambda>_. bpo)) (\<lambda>bp. ret (bp, cp)))
                  (\<lambda>(bp, cp).
                     andthen (modify (upd_buf bp (\<lambda>b. b\<lparr>b_data := wrb (b_data b) cp (word_of_int c)\<rparr>)))
                       (if c > 0 then stage_string e bno n (up + 1) (nc + 1) (Some bp) (cp + 1)
                        else ret (True, nc + 1, Some bp, cp + 1)))))))"

text \<open>All of them: \<open>ap\<close> and \<open>ep\<close> are the word addresses left to read of the two vectors, \<open>None\<close> for \<open>NULL\<close>.
  The result has the numbers of strings, of environment strings, and of bytes.\<close>

text \<open>The next pointer: from the argument vector, then from the environment; a zero ends it.\<close>

definition next_arg :: "kst \<Rightarrow> int option \<Rightarrow> int option \<Rightarrow> int \<Rightarrow> w48 \<times> int option \<times> int option \<times> int" where
  "next_arg s ap ep ne =
     (let w = (case ap of None \<Rightarrow> 0 | Some a \<Rightarrow> fuword (u_upt (k_u s)) (k_mem s) (6 * a));
          ap1 = map_option (\<lambda>a. a + 1) ap
      in case ep of
           None \<Rightarrow> (w, ap1, ep, ne)
         | Some p \<Rightarrow>
             if w = 0 then
               (let v = fuword (u_upt (k_u s)) (k_mem s) (6 * p)
                in if v = 0 then (0, None, ep, ne) else (v, None, Some (p + 1), ne + 1))
             else (w, ap1, ep, ne))"

primrec stage_args :: "env \<Rightarrow> int \<Rightarrow> nat \<Rightarrow> int option \<Rightarrow> int option \<Rightarrow> int \<Rightarrow> int \<Rightarrow> int \<Rightarrow> bufp option \<Rightarrow> int \<Rightarrow>
    (bool \<times> int \<times> int \<times> int \<times> bufp option) km" where
  "stage_args e bno 0 ap ep na ne nc bpo cp = hang"
| "stage_args e bno (Suc n) ap ep na ne nc bpo cp = (\<lambda>s.
     case next_arg s ap ep ne of
       (w, ap, ep, ne) \<Rightarrow>
         if w = 0 then Ret (True, na, ne, nc, bpo) s
         else andthen (guard (w = mone) (modify (set_error EFAULT)))
           (bind (stage_string e bno (nat NCARGS) (cptr w) nc bpo cp) (\<lambda>(ok, nc, bpo, cp).
              if ok then stage_args e bno n ap ep (na + 1) ne nc bpo cp
              else ret (False, na + 1, ne, nc, bpo))) s)"

text \<open>A store to the word \<open>a\<close> of the user, whose result the code does not look at.\<close>

definition put_uword :: "int \<Rightarrow> w48 \<Rightarrow> unit km" where
  "put_uword a v = modify (\<lambda>s. s\<lparr>k_mem := snd (suword (u_upt (k_u s)) (k_mem s) (6 * a) v)\<rparr>)"

definition put_ubyte :: "int \<Rightarrow> w48 \<Rightarrow> unit km" where
  "put_ubyte a v = modify (\<lambda>s. s\<lparr>k_mem := snd (subyte (u_upt (k_u s)) (k_mem s) a v)\<rparr>)"

text \<open>One string back to the user at \<open>up\<close>.\<close>

primrec unstage_string :: "env \<Rightarrow> int \<Rightarrow> nat \<Rightarrow> int \<Rightarrow> int \<Rightarrow> bufp option \<Rightarrow> int \<Rightarrow> (int \<times> int \<times> bufp option \<times> int) km" where
  "unstage_string e bno 0 up nc bpo cp = hang"
| "unstage_string e bno (Suc n) up nc bpo cp =
     bind (if nc mod BSIZE = 0 then
             andthen (brelse_opt e bpo)
               (bind (bread e (e_swapdev e) (e_swplo e + bno + nc div BSIZE)) (\<lambda>bp. ret (bp, 0)))
           else bind (need (\<lambda>_. bpo)) (\<lambda>bp. ret (bp, cp)))
       (\<lambda>(bp, cp).
          bind (gets (\<lambda>s. rdb (b_data (k_buf s bp)) cp)) (\<lambda>c.
            andthen (put_ubyte up c)
              (if c AND 255 \<noteq> 0 then unstage_string e bno n (up + 1) (nc + 1) (Some bp) (cp + 1)
               else ret (up + 1, nc + 1, Some bp, cp + 1))))"

text \<open>The vector at word \<open>ap\<close> with the strings it points to; \<open>k\<close> is \<open>na\<close>, counting down.\<close>

primrec unstage_args :: "env \<Rightarrow> int \<Rightarrow> nat \<Rightarrow> int \<Rightarrow> int \<Rightarrow> int \<Rightarrow> int \<Rightarrow> int \<Rightarrow> bufp option \<Rightarrow> int \<Rightarrow> (int \<times> int \<times> bufp option) km" where
  "unstage_args e bno 0 ap na ne up nc bpo cp = hang"
| "unstage_args e bno (Suc n) ap na ne up nc bpo cp =
     (let a1 = ap + 1; a2 = (if na = ne then a1 + 1 else a1)
      in andthen (guard (na = ne) (put_uword a1 0))
           (if na - 1 < 0 then ret (a2, up, bpo)
            else andthen (put_uword a2 (fatptr up))
              (bind (unstage_string e bno (e_fuel e) up nc bpo cp) (\<lambda>(up, nc, bpo, cp).
                 unstage_args e bno n a2 (na - 1) ne up nc bpo cp))))"

subsection \<open>Registers\<close>

primrec close_on_exec :: "env \<Rightarrow> nat list \<Rightarrow> unit km" where
  "close_on_exec e [] = ret ()"
| "close_on_exec e (i # is) = seq [
     ifs (\<lambda>s. u_pofile (k_u s) i) (seq [
       (\<lambda>s. closef e (u_ofile (k_u s) i) s),
       modify (upd_u (\<lambda>u. u\<lparr>u_ofile := (u_ofile u)(i := None), u_pofile := (u_pofile u)(i := False)\<rparr>))]) (ret ()),
     close_on_exec e is]"

definition setregs :: "env \<Rightarrow> unit km" where
  "setregs e = seq [
     modify (upd_u (\<lambda>u. u\<lparr>u_signal := (\<lambda>i. if i < NSIG \<and> u_signal u i \<noteq> 1 then 0 else u_signal u i)\<rparr>)),
     modify (upd_u (\<lambda>u. u\<lparr>u_ar0 := (\<lambda>r. if r \<in> set (take 15 regloc) then 0 else u_ar0 u r)\<rparr>)),
     modify (\<lambda>s. set_ar0 RET (u_exdata (k_u s) ux_entloc) s),
     close_on_exec e [0 ..< NOFILE],
     modify (upd_u (\<lambda>u. u\<lparr>u_acflag := u_acflag u AND NOT 1\<rparr>)),
     modify (upd_u (\<lambda>u. u\<lparr>u_comm := (\<lambda>k. if 0 \<le> k \<and> k < btow (int DIRSIZ) then u_dbuf u k else u_comm u k)\<rparr>))]"

subsection \<open>The call\<close>

definition execerr :: "kst \<Rightarrow> kst" where
  "execerr s =
     (if uerr s = 0 \<or> u_ofile (k_u s) 1 \<noteq> None then s
      else printf (''exec %s: error %d'' @ NL)
        [Pstr (map (\<lambda>c. char_of (nat (uint c))) (takeWhile (\<lambda>c. c \<noteq> 0) (map (\<lambda>i. rdb (u_dbuf (k_u s)) (int i)) [0 ..< DIRSIZ]))),
         Pint (uerr s)] s)"

text \<open>The stack of the new program, when the image is in place.\<close>

definition build_stack :: "env \<Rightarrow> int \<Rightarrow> int \<Rightarrow> int \<Rightarrow> (bufp option) km" where
  "build_stack e bno na ne =
     (let ap = USTKPAGE * PGSZ
      in andthen (seq [modify (set_ar0 R15 (wval ap)), put_uword ap (wval (na - ne))])
           (bind (unstage_args e bno (Suc (nat na)) ap na ne (6 * (ap + 1 + na + 2)) 0 None 0) (\<lambda>(ap, up, bpo).
              (let ucp = (if ptrbyte up \<noteq> 5 then ptrword up + 1 else ptrword up)
               in andthen (seq [
                    put_uword ap 0,
                    put_uword ucp 0,
                    modify (set_ar0 R15 (wval (ucp + 1))),
                    setregs e]) (ret bpo)))))"

text \<open>What lies between \<open>namei\<close> and the label \<open>bad\<close>; the result is the buffer still held and the blocks
  still allocated.\<close>

definition exec_body :: "env \<Rightarrow> nat \<Rightarrow> (bufp option \<times> int) km" where
  "exec_body e ip = bind (access e ip IEXEC) (\<lambda>r.
     if r \<noteq> 0 then ret (None, 0)
     else ifs (\<lambda>s. i_mode (k_inode s ip) AND IFMT \<noteq> IFREG \<or>
                   i_mode (k_inode s ip) AND (IEXEC OR drop_bit 3 IEXEC OR drop_bit 6 IEXEC) = 0)
       (andthen (modify (set_error EACCES)) (ret (None, 0)))
       (bind (malloc_swap ARGBLKS) (\<lambda>bno.
          if bno = 0 then panic ''Out of swap''
          else bind (\<lambda>s.
              if u_arg (k_u s) 1 = 0 then Ret (True, 0, 0, 0, None) s
              else stage_args e bno (nat NCARGS) (Some (wptr (u_arg (k_u s) 1)))
                     (if u_arg (k_u s) 2 = 0 then None else Some (wptr (u_arg (k_u s) 2))) 0 0 0 None 0 s)
            (\<lambda>(ok, na, ne, nc, bpo).
              if \<not> ok then ret (bpo, bno)
              else andthen (case bpo of None \<Rightarrow> ret () | Some bp \<Rightarrow> bawrite e bp)
                (bind (getxfile e ip (wtob (btow nc) + (na + 4) * NBPW)) (\<lambda>r.
                   ifs (\<lambda>s. r \<noteq> 0 \<or> uerr s \<noteq> 0) (ret (None, bno))
                     (bind (build_stack e bno na ne) (\<lambda>bpo. ret (bpo, bno)))))))))"

definition exece :: "env \<Rightarrow> unit km" where
  "exece e = bind (namei e uchar 0) (\<lambda>r. case r of
     None \<Rightarrow> modify execerr
   | Some ip \<Rightarrow> bind (exec_body e ip) (\<lambda>(bpo, bno). seq [
       brelse_opt e bpo,
       guard (bno \<noteq> 0) (mfree_swap ARGBLKS bno),
       iput e ip,
       modify execerr]))"

definition exec :: "env \<Rightarrow> unit km" where
  "exec e = seq [modify (upd_u (\<lambda>u. u\<lparr>u_arg := (u_arg u)(2 := 0)\<rparr>)), exece e]"

end
