(* ===== verification/Trace.thy ===== *)
theory Trace
  imports Exec
begin

section \<open>Delivering signals and tracing (kernel/sig.c, kernel/sendsig.c)\<close>

text \<open>
  What a process does with a signal: stop for its tracer, call its handler, dump core, die.  The
  frame of a handler is the saved registers, copied to the user stack with one instruction
  above them, through which the handler returns to \<open>sigret\<close>.
\<close>

subsection \<open>Growing the stack\<close>

function clear_up :: "int \<Rightarrow> int \<Rightarrow> kst \<Rightarrow> kst" where
  "clear_up a i s = (if i > 0 then clear_up (a + PGSZ) (i - PGSZ) (clearseg a s) else s)"
  by pat_completeness auto
termination by (relation "measure (\<lambda>(a, i, s). nat i)") auto

declare clear_up.simps [simp del]

definition grow :: "env \<Rightarrow> int \<Rightarrow> int km" where
  "grow e pg s =
     (if pg < USTKPAGE \<or> pg \<ge> NPAGE then Ret 0 s
      else
        (let si0 = (pg - USTKPAGE + 1) * PGSZ - u_ssize (k_u s); si = (if si0 < SINCR then SINCR else si0)
         in if si0 \<le> 0 then Ret 0 s
            else bind (estabur_k (u_tsize (k_u s)) (u_dsize (k_u s)) (u_ssize (k_u s) + si)) (\<lambda>r.
                   if r \<noteq> 0 then ret 0
                   else andthen (seq [
                     (\<lambda>s. expand e (p_size (k_proc s (curproc s)) + si) s),
                     modify (\<lambda>s. let p = k_proc s (curproc s) in clear_up (p_addr p + p_size p - si) si s)]) (ret 1)) s))"

subsection \<open>The signal frame\<close>

abbreviation (input) SPSW_MOD_RK :: int where "SPSW_MOD_RK \<equiv> 0x10"
abbreviation (input) SPSW_MOD_RR :: int where "SPSW_MOD_RR \<equiv> 0x20"
abbreviation (input) SPSW_RIGHT_INSTR :: int where "SPSW_RIGHT_INSTR \<equiv> 0x100"
abbreviation (input) SPSW_NEXT_RK :: int where "SPSW_NEXT_RK \<equiv> 0x200"
abbreviation (input) SPSW_USER :: int where "SPSW_USER \<equiv> 0x110"
abbreviation (input) RREG_C :: int where "RREG_C \<equiv> 7"

text \<open>The registers as an array of words, for the copies.\<close>

definition frame_words :: "(nat \<Rightarrow> w48) \<Rightarrow> int \<Rightarrow> w48" where
  "frame_words R i = R (nat i)"

text \<open>The pointer to a word that the compiler makes of an integer: a word address has 15 bits.\<close>

definition wptr :: "int \<Rightarrow> int" where
  "wptr w = 6 * (w mod 32768)"

definition enter_handler :: "int \<Rightarrow> int \<Rightarrow> int \<Rightarrow> (nat \<Rightarrow> w48) \<Rightarrow> nat \<Rightarrow> w48" where
  "enter_handler p signo n R = R(RACC := wval signo, R14 := wval (-1), R13 := wval (n + int NREGFRAME),
     R15 := wval (n + int NREGFRAME + 1), RET := wval p, CREG := 0, RREG := wval RREG_C,
     SPSW := R SPSW AND NOT (word_of_int (SPSW_RIGHT_INSTR OR SPSW_NEXT_RK OR SPSW_MOD_RK OR SPSW_MOD_RR)))"

definition sendsig :: "env \<Rightarrow> int \<Rightarrow> int \<Rightarrow> unit km" where
  "sendsig e p signo s =
     (let n = ival (u_ar0 (k_u s) R15)
      in bind (grow e (drop_bit 10 (n + int NREGFRAME))) (\<lambda>_ s.
           let (r1, M1) = copyout (u_upt (k_u s)) (frame_words (u_ar0 (k_u s))) 0 (wptr n) (wtob (int NREGFRAME)) (k_mem s);
               (r2, M2) = suword (u_upt (k_u s)) M1 (wptr (n + int NREGFRAME)) (e_sigcode e)
           in if r1 < 0 then exit e 9 s
              else if r2 < 0 then exit e 9 (s\<lparr>k_mem := M1\<rparr>)
              else Ret () (upd_u (\<lambda>u. u\<lparr>u_ar0 := enter_handler p signo n (u_ar0 u)\<rparr>) (s\<lparr>k_mem := M2\<rparr>))) s)"

definition sigret :: "unit km" where
  "sigret s =
     (let R = u_ar0 (k_u s);
          (r, K) = copyin (u_upt (k_u s)) (k_mem s) (wptr (ival (R R15) - (int NREGFRAME + 1))) 0 (wtob (int NREGFRAME))
                     (\<lambda>_. 0)
      in if r < 0 then Ret () (set_error EFAULT s)
         else Ret () (upd_u (\<lambda>u. u\<lparr>u_ar0 := (\<lambda>i.
                if i = SPSW then (K (int SPSW) AND word_of_int SPSW_USER) OR (R SPSW AND NOT (word_of_int SPSW_USER))
                else if i < NREGFRAME then K (int i) else R i), u_justreturn := 1\<rparr>) s))"

subsection \<open>The traced child\<close>

definition ipc_set :: "(ipc \<Rightarrow> ipc) \<Rightarrow> kst \<Rightarrow> kst" where
  "ipc_set f s = s\<lparr>k_ipc := f (k_ipc s)\<rparr>"

definition xmt_error :: "int km" where
  "xmt_error = andthen (modify (ipc_set (\<lambda>i. i\<lparr>ip_req := -1\<rparr>))) (ret 0)"

definition ip_word :: "kst \<Rightarrow> int" where
  "ip_word s = 6 * (ip_addr (k_ipc s) AND 32767)"

definition xmt_suword :: "w48 \<Rightarrow> int km" where
  "xmt_suword v = (\<lambda>s. let (r, M) = suword (u_upt (k_u s)) (k_mem s) (ip_word s) v in Ret r (s\<lparr>k_mem := M\<rparr>))"

text \<open>Request 4: a shared text must be ours alone and not sticky; it is written, and marked so.\<close>

definition xmt_wtext :: "int km" where
  "xmt_wtext = (\<lambda>s.
     let xpo = p_textp (k_proc s (curproc s));
         go = bind (\<lambda>s. estabur_k (u_tsize (k_u s)) (u_dsize (k_u s)) (u_ssize (k_u s)) s) (\<lambda>_.
                bind (xmt_suword 0) (\<lambda>i.
                  bind (\<lambda>s. xmt_suword (wval (ip_data (k_ipc s))) s) (\<lambda>_.
                    bind (\<lambda>s. estabur_k (u_tsize (k_u s)) (u_dsize (k_u s)) (u_ssize (k_u s)) s) (\<lambda>_.
                      if i < 0 then xmt_error
                      else andthen (case xpo of None \<Rightarrow> ret () | Some xp \<Rightarrow> modify (xset {XWRIT} xp)) (ret 0)))))
     in case xpo of
          None \<Rightarrow> go s
        | Some xp \<Rightarrow>
            bind (need (\<lambda>s. x_iptr (k_text s xp))) (\<lambda>ip s.
              if x_count (k_text s xp) \<noteq> 1 \<or> i_mode (k_inode s ip) AND ISVTX \<noteq> 0 then xmt_error s
              else andthen (modify (iclr {ITEXT} ip)) go s) s)"

text \<open>Request 6: only a saved register may be written, through its place in the u-area.\<close>

definition xmt_wuser :: "env \<Rightarrow> int km" where
  "xmt_wuser e = (\<lambda>s.
     let i = ip_addr (k_ipc s)
     in if i < 0 \<or> i \<ge> USIZE then xmt_error s
        else case find (\<lambda>r. i = e_frame e + int r) (take 16 regloc) of
          None \<Rightarrow> xmt_error s
        | Some r \<Rightarrow> andthen (modify (set_ar0 r (wval (ip_data (k_ipc s))))) (ret 0) s)"

definition procxmt :: "env \<Rightarrow> int km" where
  "procxmt e s =
     (if int (ip_lock (k_ipc s)) \<noteq> p_pid (k_proc s (curproc s)) then Ret 0 s
      else
        (let i = ip_req (k_ipc s)
         in andthen (seq [modify (ipc_set (\<lambda>c. c\<lparr>ip_req := 0\<rparr>)), wakeup e Ch_ipc])
              (if i = 1 \<or> i = 2 then (\<lambda>s.
                 if fubyte (u_upt (k_u s)) (k_mem s) (ip_word s) = -1 then xmt_error s
                 else Ret 0 (ipc_set (\<lambda>c. c\<lparr>ip_data := ival (fuword (u_upt (k_u s)) (k_mem s) (ip_word s))\<rparr>) s))
               else if i = 3 then (\<lambda>s.
                 if ip_addr (k_ipc s) < 0 \<or> ip_addr (k_ipc s) \<ge> USIZE then xmt_error s
                 else Ret 0 (ipc_set (\<lambda>c. c\<lparr>ip_data := ival (e_uwords e (k_u s) (ip_addr c))\<rparr>) s))
               else if i = 4 then xmt_wtext
               else if i = 5 then bind (xmt_suword 0) (\<lambda>r.
                 if r < 0 then xmt_error
                 else bind (\<lambda>s. xmt_suword (wval (ip_data (k_ipc s))) s) (\<lambda>_. ret 0))
               else if i = 6 then xmt_wuser e
               else if i = 7 then andthen (seq [
                 ifs (\<lambda>s. ip_addr (k_ipc s) \<noteq> 1) (modify (\<lambda>s. set_ar0 RET (wval (ip_addr (k_ipc s))) s)) (ret ()),
                 modify (\<lambda>s. upd_proc (curproc s) (\<lambda>r. r\<lparr>p_sig := 0\<rparr>) s),
                 ifs (\<lambda>s. ip_data (k_ipc s) \<noteq> 0) (\<lambda>s. psignal e (curproc s) (ip_data (k_ipc s)) s) (ret ())]) (ret 1)
               else if i = 8 then (\<lambda>s. exit e (int (fsig (k_proc s (curproc s)))) s)
               else xmt_error) s))"

primrec stop_loop :: "env \<Rightarrow> nat \<Rightarrow> unit km" where
  "stop_loop e 0 = hang"
| "stop_loop e (Suc n) = (\<lambda>s.
     let cp = curproc s;
         die = (\<lambda>s. exit e (int (fsig (k_proc s (curproc s)))) s)
     in if p_ppid (k_proc s cp) = 1 then die s
        else case find (\<lambda>pp. p_pid (k_proc s pp) = p_ppid (k_proc s cp)) [0 ..< NPROC] of
          None \<Rightarrow> die s
        | Some pp \<Rightarrow> andthen (seq [
            wakeup e (Ch_proc pp),
            modify (upd_proc cp (\<lambda>r. r\<lparr>p_stat := SSTOP\<rparr>)),
            swtch e])
            (\<lambda>s. if STRC \<notin> p_flag (k_proc s cp) then Ret () s
                 else bind (procxmt e) (\<lambda>r. if r \<noteq> 0 then ret () else stop_loop e n) s) s)"

definition stop :: "env \<Rightarrow> unit km" where
  "stop e = stop_loop e (e_fuel e)"

subsection \<open>The parent's side\<close>

definition ptrace :: "env \<Rightarrow> unit km" where
  "ptrace e s =
     (if argi 0 s \<le> 0 then Ret () (upd_proc (curproc s) (\<lambda>r. r\<lparr>p_flag := insert STRC (p_flag r)\<rparr>) s)
      else case find (\<lambda>p. p_stat (k_proc s p) = SSTOP \<and> p_pid (k_proc s p) = argi 1 s \<and>
                         p_ppid (k_proc s p) = p_pid (k_proc s (curproc s))) [0 ..< NPROC] of
        None \<Rightarrow> Ret () (set_error ESRCH s)
      | Some p \<Rightarrow> seq [
          whiles (e_fuel e) (\<lambda>s. ip_lock (k_ipc s) \<noteq> 0) (sleep e Ch_ipc PZERO),
          modify (\<lambda>s. ipc_set (\<lambda>_. \<lparr>ip_lock = nat (p_pid (k_proc s p)), ip_req = argi 0 s,
            ip_addr = argi 2 s, ip_data = argi 3 s\<rparr>) s),
          modify (upd_proc p (\<lambda>r. r\<lparr>p_flag := p_flag r - {SWTED}\<rparr>)),
          setrun e p,
          whiles (e_fuel e) (\<lambda>s. ip_req (k_ipc s) > 0) (sleep e Ch_ipc PZERO),
          modify (\<lambda>s. set_val1 (ip_data (k_ipc s)) s),
          ifs (\<lambda>s. ip_req (k_ipc s) < 0) (modify (set_error EIO)) (ret ()),
          modify (ipc_set (\<lambda>c. c\<lparr>ip_lock := 0\<rparr>)),
          wakeup e Ch_ipc] s)"

subsection \<open>Dying\<close>

definition core_name :: "int list" where
  "core_name = [99, 111, 114, 101]"

definition core :: "env \<Rightarrow> int km" where
  "core e =
     (let dump = (\<lambda>ip. andthen (bind (access e ip IWRITE) (\<lambda>a s.
            if a = 0 \<and> i_mode (k_inode s ip) AND IFMT = IFREG \<and> u_uid (k_u s) = u_ruid (k_u s) \<and>
               u_gid (k_u s) = u_rgid (k_u s) then seq [
              itrunc e ip,
              modify (upd_u (\<lambda>u. u\<lparr>u_offset := 0, u_base := Kaddr Kuser 0, u_count := wtob USIZE, u_segflg := 1\<rparr>)),
              writei e ip,
              (\<lambda>s. let n = p_size (k_proc s (curproc s)) - USIZE in seq [
                 bind (estabur_k 0 n 0) (\<lambda>_. ret ()),
                 modify (upd_u (\<lambda>u. u\<lparr>u_base := Uaddr 0, u_count := wtob n, u_segflg := 0\<rparr>)),
                 writei e ip] s)] s
            else Ret () s))
          (andthen (iput e ip) (gets (\<lambda>s. if uerr s = 0 then 1 else 0))))
      in andthen (modify (upd_u (\<lambda>u. u\<lparr>u_error := 0, u_dirk := core_name\<rparr>)))
           (bind (namei e schar 1) (\<lambda>r. case r of
              Some ip \<Rightarrow> dump ip
            | None \<Rightarrow> ifs (\<lambda>s. uerr s \<noteq> 0) (ret 0)
                (bind (maknode e 438) (\<lambda>r. case r of None \<Rightarrow> ret 0 | Some ip \<Rightarrow> dump ip)))))"

definition psig :: "env \<Rightarrow> unit km" where
  "psig e s =
     (let rp = curproc s
      in andthen (ifs (\<lambda>s. STRC \<in> p_flag (k_proc s rp)) (stop e) (ret ())) (\<lambda>s.
           let n = fsig (k_proc s rp)
           in if n = 0 then Ret () s
              else
                (let s = upd_proc rp (\<lambda>r. r\<lparr>p_sig := p_sig r AND NOT (sigbit n)\<rparr>) s;
                     p = u_signal (k_u s) n
                 in if p \<noteq> 0 then seq [
                      modify (upd_u (\<lambda>u. u\<lparr>u_error := 0\<rparr>)),
                      guard (n \<noteq> 4 \<and> n \<noteq> 5) (modify (upd_u (\<lambda>u. u\<lparr>u_signal := (u_signal u)(n := 0)\<rparr>))),
                      sendsig e p (int n)] s
                    else if n \<in> {3, 4, 5, 6, 7, 8, 10, 11, 12} then
                      bind (core e) (\<lambda>c. exit e (if c \<noteq> 0 then int n + 128 else int n)) s
                    else exit e (int n) s)) s)"

end
