(* ===== verification/Sysfile.thy ===== *)
theory Sysfile
  imports Trace
begin

section \<open>The system calls on files (kernel/sys2.c, kernel/sys3.c)\<close>

text \<open>
  One definition per system call, in the order of the two files.  The multiplexor flags \<open>FMPX\<close> and
  \<open>FMPY\<close> are never set in this kernel, so the tests of \<open>FMP\<close> have no counterpart.  The result of a
  call is \<open>u_val1\<close>, which \<open>r_off\<close> and \<open>r_time\<close> overlay.
\<close>

subsection \<open>Read and write\<close>

definition special :: "inode \<Rightarrow> bool" where
  "special i \<longleftrightarrow> i_mode i AND (IFCHR AND IFBLK) \<noteq> 0"

definition rdwr_file :: "env \<Rightarrow> fflag \<Rightarrow> nat \<Rightarrow> unit km" where
  "rdwr_file e mode fp s =
     (let ip = f_inode (k_file s fp) in seq [
        modify (\<lambda>s. upd_u (\<lambda>u. u\<lparr>u_offset := f_offset (k_file s fp)\<rparr>) s),
        ifs (\<lambda>s. \<not> special (k_inode s ip)) (plock e ip) (ret ()),
        if mode = FREAD then readi e ip else writei e ip,
        ifs (\<lambda>s. \<not> special (k_inode s ip)) (prele e ip) (ret ()),
        modify (\<lambda>s. upd_file fp (\<lambda>f. f\<lparr>f_offset := f_offset f + (argi 2 s - u_count (k_u s))\<rparr>) s)] s)"

definition rdwr :: "env \<Rightarrow> fflag \<Rightarrow> unit km" where
  "rdwr e mode = bind (\<lambda>s. getf (argi 0 s) s) (\<lambda>r. case r of
     None \<Rightarrow> ret ()
   | Some fp \<Rightarrow> (\<lambda>s.
       if mode \<notin> f_flag (k_file s fp) then Ret () (set_error EBADF s)
       else seq [
         modify (\<lambda>s. upd_u (\<lambda>u. u\<lparr>u_base := Uaddr (argc 1 s), u_count := argi 2 s, u_segflg := 0\<rparr>) s),
         ifs (\<lambda>s. FPIPE \<in> f_flag (k_file s fp))
           (if mode = FREAD then readp e fp else writep e fp)
           (rdwr_file e mode fp),
         modify (\<lambda>s. set_val1 (argi 2 s - u_count (k_u s)) s)] s))"

definition read_call :: "env \<Rightarrow> unit km" where
  "read_call e = rdwr e FREAD"

definition write_call :: "env \<Rightarrow> unit km" where
  "write_call e = rdwr e FWRITE"

subsection \<open>Open, creat, close\<close>

definition mode_flags :: "int \<Rightarrow> fflag set" where
  "mode_flags m = (if m AND 1 \<noteq> 0 then {FREAD} else {}) \<union> (if m AND 2 \<noteq> 0 then {FWRITE} else {})"

definition open1 :: "env \<Rightarrow> nat \<Rightarrow> int \<Rightarrow> int \<Rightarrow> unit km" where
  "open1 e ip mode trf = seq [
     guard (trf \<noteq> 2) (seq [
       guard (mode AND 1 \<noteq> 0) (bind (access e ip IREAD) (\<lambda>_. ret ())),
       guard (mode AND 2 \<noteq> 0) (seq [
         bind (access e ip IWRITE) (\<lambda>_. ret ()),
         ifs (\<lambda>s. i_mode (k_inode s ip) AND IFMT = IFDIR) (modify (set_error EISDIR)) (ret ())])]),
     ifs (\<lambda>s. uerr s \<noteq> 0) (iput e ip) (seq [
       guard (trf = 1) (itrunc e ip),
       prele e ip,
       bind (lift falloc) (\<lambda>r. case r of
         None \<Rightarrow> iput e ip
       | Some fp \<Rightarrow> seq [
           modify (upd_file fp (\<lambda>f. f\<lparr>f_flag := mode_flags mode, f_inode := ip\<rparr>)),
           bind (gets (\<lambda>s. u_val1 (k_u s))) (\<lambda>i. seq [
             openi e ip (mode AND 2),
             ifs (\<lambda>s. uerr s = 0) (ret ()) (seq [
               modify (upd_u (\<lambda>u. u\<lparr>u_ofile := (u_ofile u)(nat i := None)\<rparr>)),
               modify (upd_file fp (\<lambda>f. f\<lparr>f_count := cdec (f_count f)\<rparr>)),
               iput e ip])])])])]"

definition open_call :: "env \<Rightarrow> unit km" where
  "open_call e = bind (namei e uchar 0) (\<lambda>r. case r of
     None \<Rightarrow> ret ()
   | Some ip \<Rightarrow> (\<lambda>s. open1 e ip (argi 1 s + 1) 0 s))"

definition creat :: "env \<Rightarrow> unit km" where
  "creat e = bind (namei e uchar 1) (\<lambda>r. case r of
     None \<Rightarrow> ifs (\<lambda>s. uerr s \<noteq> 0) (ret ())
       (bind (\<lambda>s. maknode e (argi 1 s AND 4095 AND NOT ISVTX) s) (\<lambda>r. case r of
          None \<Rightarrow> ret ()
        | Some ip \<Rightarrow> open1 e ip 2 2))
   | Some ip \<Rightarrow> open1 e ip 2 1)"

definition close :: "env \<Rightarrow> unit km" where
  "close e = bind (\<lambda>s. getf (argi 0 s) s) (\<lambda>r. case r of
     None \<Rightarrow> ret ()
   | Some fp \<Rightarrow> seq [
       modify (\<lambda>s. upd_u (\<lambda>u. u\<lparr>u_ofile := (u_ofile u)(nat (argi 0 s) := None),
         u_pofile := (u_pofile u)(nat (argi 0 s) := False)\<rparr>) s),
       closef e (Some fp)])"

definition seek :: "unit km" where
  "seek = bind (\<lambda>s. getf (argi 0 s) s) (\<lambda>r. case r of
     None \<Rightarrow> ret ()
   | Some fp \<Rightarrow> (\<lambda>s.
       if FPIPE \<in> f_flag (k_file s fp) then Ret () (set_error ESPIPE s)
       else
         (let off = ival (wval (if argi 2 s = 1 then argi 1 s + f_offset (k_file s fp)
                     else if argi 2 s = 2 then argi 1 s + i_size (k_inode s (f_inode (k_file s fp)))
                     else argi 1 s))
          in Ret () (set_val1 off (upd_file fp (\<lambda>f. f\<lparr>f_offset := off\<rparr>) s)))))"

subsection \<open>Names\<close>

definition link :: "env \<Rightarrow> unit km" where
  "link e = bind (namei e uchar 0) (\<lambda>r. case r of
     None \<Rightarrow> ret ()
   | Some ip \<Rightarrow>
       bind (ifs (\<lambda>s. i_mode (k_inode s ip) AND IFMT = IFDIR) (lift suser) (ret 1)) (\<lambda>su.
         if su = 0 then iput e ip
         else seq [
           prele e ip,
           modify (\<lambda>s. upd_u (\<lambda>u. u\<lparr>u_dirp := argc 1 s\<rparr>) s),
           bind (namei e uchar 1) (\<lambda>x. case x of
             Some xp \<Rightarrow> seq [modify (set_error EEXIST), iput e xp]
           | None \<Rightarrow> ifs (\<lambda>s. uerr s \<noteq> 0) (ret ())
               (bind (need (\<lambda>s. u_pdir (k_u s))) (\<lambda>pd.
                  ifs (\<lambda>s. i_dev (k_inode s pd) \<noteq> i_dev (k_inode s ip))
                    (seq [iput e pd, modify (set_error EXDEV)])
                    (seq [
                      wdir e ip,
                      ifs (\<lambda>s. uerr s = 0)
                        (modify (\<lambda>s. iset {ICHG} ip (upd_inode ip (\<lambda>i. i\<lparr>i_nlink := i_nlink i + 1\<rparr>) s))) (ret ())])))),
           iput e ip]))"

definition mknod :: "env \<Rightarrow> unit km" where
  "mknod e = bind (lift suser) (\<lambda>su.
     bind (if su \<noteq> 0 then namei e uchar 1 else ret None) (\<lambda>r. case r of
       Some ip \<Rightarrow> seq [modify (set_error EEXIST), iput e ip]
     | None \<Rightarrow> ifs (\<lambda>s. uerr s \<noteq> 0) (ret ())
         (bind (\<lambda>s. maknode e (argi 1 s) s) (\<lambda>r. case r of
            None \<Rightarrow> ret ()
          | Some ip \<Rightarrow> seq [
              modify (\<lambda>s. upd_inode ip (\<lambda>i. i\<lparr>i_addr := (i_addr i)(0 := argi 2 s)\<rparr>) s),
              iput e ip]))))"

definition saccess :: "env \<Rightarrow> unit km" where
  "saccess e s =
     (let svuid = u_uid (k_u s); svgid = u_gid (k_u s) in seq [
        modify (upd_u (\<lambda>u. u\<lparr>u_uid := u_ruid u, u_gid := u_rgid u\<rparr>)),
        bind (namei e uchar 0) (\<lambda>r. case r of
          None \<Rightarrow> ret ()
        | Some ip \<Rightarrow> (\<lambda>s. let fmode = argi 1 s in seq [
            guard (fmode AND drop_bit 6 IREAD \<noteq> 0) (bind (access e ip IREAD) (\<lambda>_. ret ())),
            guard (fmode AND drop_bit 6 IWRITE \<noteq> 0) (bind (access e ip IWRITE) (\<lambda>_. ret ())),
            guard (fmode AND drop_bit 6 IEXEC \<noteq> 0) (bind (access e ip IEXEC) (\<lambda>_. ret ())),
            iput e ip] s)),
        modify (upd_u (\<lambda>u. u\<lparr>u_uid := svuid, u_gid := svgid\<rparr>))] s)"

subsection \<open>Status\<close>

text \<open>A structure of words given to the user at word address \<open>a\<close>: \<open>copyout\<close> of its words.\<close>

definition give_words :: "w48 list \<Rightarrow> int \<Rightarrow> kst \<Rightarrow> kst" where
  "give_words ws a s =
     (case copyout (u_upt (k_u s)) (\<lambda>i. ws ! nat i) 0 a (NBPW * int (length ws)) (k_mem s) of
        (r, M) \<Rightarrow> if r < 0 then set_error EFAULT s else s\<lparr>k_mem := M\<rparr>)"

definition stat1 :: "env \<Rightarrow> nat \<Rightarrow> int \<Rightarrow> int \<Rightarrow> unit km" where
  "stat1 e ip ub pipeadj = seq [
     (\<lambda>s. iupdat e ip (k_time s) (k_time s) s),
     (\<lambda>s. let i = k_inode s ip;
              ds = [wval (i_dev i), wval (i_number i), wval (i_mode i), wval (i_nlink i), wval (i_uid i), wval (i_gid i),
                    wval (i_addr i 0), wval (i_size i - pipeadj)];
              d = 16 * itoo (i_number i)
          in bind (bread e (i_dev i) (itod (i_number i))) (\<lambda>bp.
               bind (gets (\<lambda>s. ds @ [bword bp (d + di_atime) s, bword bp (d + di_mtime) s, bword bp (d + di_ctime) s])) (\<lambda>ws.
                 seq [brelse e bp, modify (give_words ws ub)])) s)]"

definition fstat :: "env \<Rightarrow> unit km" where
  "fstat e = bind (\<lambda>s. getf (argi 0 s) s) (\<lambda>r. case r of
     None \<Rightarrow> ret ()
   | Some fp \<Rightarrow> (\<lambda>s. stat1 e (f_inode (k_file s fp)) (argw 1 s)
       (if FPIPE \<in> f_flag (k_file s fp) then f_offset (k_file s fp) else 0) s))"

definition stat :: "env \<Rightarrow> unit km" where
  "stat e = bind (namei e uchar 0) (\<lambda>r. case r of
     None \<Rightarrow> ret ()
   | Some ip \<Rightarrow> seq [(\<lambda>s. stat1 e ip (argw 1 s) 0 s), iput e ip])"

subsection \<open>Dup\<close>

definition dup_at :: "env \<Rightarrow> nat \<Rightarrow> int \<Rightarrow> int \<Rightarrow> unit km" where
  "dup_at e fp i fdes = guard (i \<noteq> fdes) (seq [
     (\<lambda>s. closef e (u_ofile (k_u s) (nat i)) s),
     modify (upd_u (\<lambda>u. u\<lparr>u_ofile := (u_ofile u)(nat i := Some fp), u_pofile := (u_pofile u)(nat i := False)\<rparr>)),
     modify (upd_file fp (\<lambda>f. f\<lparr>f_count := cinc (f_count f)\<rparr>))])"

definition dup :: "env \<Rightarrow> unit km" where
  "dup e s =
     (let m = argi 0 s AND NOT 63; fdes = argi 0 s AND 63
      in bind (getf fdes) (\<lambda>r. case r of
           None \<Rightarrow> ret ()
         | Some fp \<Rightarrow>
             if m AND 64 = 0 then
               bind (lift ufalloc) (\<lambda>i. if i < 0 then ret () else dup_at e fp i fdes)
             else (\<lambda>s.
               if argi 1 s < 0 \<or> argi 1 s \<ge> int NOFILE then Ret () (set_error EBADF s)
               else seq [modify (set_val1 (argi 1 s)), dup_at e fp (argi 1 s) fdes] s)) s)"

subsection \<open>Mounting\<close>

definition getmdev :: "env \<Rightarrow> int km" where
  "getmdev e = bind (namei e uchar 0) (\<lambda>r. case r of
     None \<Rightarrow> ret NODEV
   | Some ip \<Rightarrow> andthen
       (ifs (\<lambda>s. i_mode (k_inode s ip) AND IFMT \<noteq> IFBLK) (modify (set_error ENOTBLK)) (ret ()))
       (bind (gets (\<lambda>s. i_addr (k_inode s ip) 0)) (\<lambda>dev.
          andthen (seq [
            guard (major dev < 0 \<or> major dev \<ge> e_nblkdev e) (modify (set_error ENXIO)),
            iput e ip]) (ret dev))))"

text \<open>The slot for a mount: none when the device is mounted already or the table is full.\<close>

definition mount_slot :: "(nat \<Rightarrow> mount) \<Rightarrow> int \<Rightarrow> nat option" where
  "mount_slot M dev =
     (if \<exists>m \<in> set [0 ..< NMOUNT]. m_bufp (M m) \<noteq> None \<and> dev = m_dev (M m) then None
      else find (\<lambda>m. m_bufp (M m) = None) [0 ..< NMOUNT])"

definition smount_at :: "env \<Rightarrow> int \<Rightarrow> nat \<Rightarrow> nat \<Rightarrow> unit km" where
  "smount_at e dev ip m = bind (bread e dev SUPERB) (\<lambda>bp.
     ifs (\<lambda>s. uerr s \<noteq> 0) (seq [brelse e bp, iput e ip])
       (bind (lift (sbcheck bp dev)) (\<lambda>bad.
          if bad \<noteq> 0 then seq [brelse e bp, modify (set_error EINVAL), iput e ip]
          else seq [
            modify (upd_mount m (\<lambda>x. x\<lparr>m_inodp := Some ip, m_dev := dev\<rparr>)),
            bind (geteblk e) (\<lambda>fp. seq [
              modify (upd_mount m (\<lambda>x. x\<lparr>m_bufp := Some fp\<rparr>)),
              modify (bcopy bp 0 fp 0 BSIZEW),
              modify (\<lambda>s. bput fp s_ronly (argi 2 s AND 1) (bput fp s_flock 0 (bput fp s_ilock 0 s)))]),
            brelse e bp,
            modify (iset {IMOUNT} ip),
            prele e ip])))"

definition smount :: "env \<Rightarrow> unit km" where
  "smount e = bind (getmdev e) (\<lambda>dev.
     ifs (\<lambda>s. uerr s \<noteq> 0) (ret ()) (seq [
       modify (\<lambda>s. upd_u (\<lambda>u. u\<lparr>u_dirp := argc 1 s\<rparr>) s),
       bind (namei e uchar 0) (\<lambda>r. case r of
         None \<Rightarrow> ret ()
       | Some ip \<Rightarrow>
           (let busy = seq [modify (set_error EBUSY), iput e ip]
            in (\<lambda>s.
              if i_count (k_inode s ip) \<noteq> 1 \<or> special (k_inode s ip) then busy s
              else case mount_slot (k_mount s) dev of
                None \<Rightarrow> busy s
              | Some m \<Rightarrow> seq [
                  (\<lambda>s. e_bopen e dev (if argi 2 s = 0 then 1 else 0) s),
                  ifs (\<lambda>s. uerr s \<noteq> 0) busy (smount_at e dev ip m)] s)))]))"

definition sumount :: "env \<Rightarrow> unit km" where
  "sumount e = bind (getmdev e) (\<lambda>dev.
     ifs (\<lambda>s. uerr s \<noteq> 0) (ret ()) (seq [
       xumount e dev,
       update e,
       (\<lambda>s. case find (\<lambda>m. m_bufp (k_mount s m) \<noteq> None \<and> dev = m_dev (k_mount s m)) [0 ..< NMOUNT] of
          None \<Rightarrow> Ret () (set_error EINVAL s)
        | Some m \<Rightarrow>
            if \<exists>ip \<in> set [0 ..< NINODE]. i_number (k_inode s ip) \<noteq> 0 \<and> dev = i_dev (k_inode s ip)
            then Ret () (set_error EBUSY s)
            else seq [
              e_bclose e dev 0,
              bind (need (\<lambda>s. m_inodp (k_mount s m))) (\<lambda>ip. seq [modify (iclr {IMOUNT} ip), plock e ip, iput e ip]),
              bind (need (\<lambda>s. m_bufp (k_mount s m))) (\<lambda>bp. seq [
                modify (upd_mount m (\<lambda>x. x\<lparr>m_bufp := None\<rparr>)),
                brelse e bp])] s)]))"

definition statfs :: "env \<Rightarrow> unit km" where
  "statfs e = bind (namei e uchar 0) (\<lambda>r. case r of
     None \<Rightarrow> ret ()
   | Some ip \<Rightarrow> (\<lambda>s.
       case find (\<lambda>m. m_bufp (k_mount s m) \<noteq> None \<and> m_dev (k_mount s m) = i_dev (k_inode s ip)) [0 ..< NMOUNT] of
         None \<Rightarrow> seq [modify (set_error ENXIO), iput e ip] s
       | Some m \<Rightarrow>
           bind (need (\<lambda>s. m_bufp (k_mount s m))) (\<lambda>fp.
             bind (gets (\<lambda>s. [bword fp s_fsize s, bword fp s_isize s, bword fp s_tfree s, bword fp s_tinode s])) (\<lambda>ws.
               seq [iput e ip, (\<lambda>s. Ret () (give_words ws (argw 1 s) s))])) s))"

end
