(* ===== verification/Sysmisc.thy ===== *)
theory Sysmisc
  imports Sysfile
begin

section \<open>The other system calls (kernel/sys4.c)\<close>

text \<open>
  Times, identities, signals, and the calls that change an inode.  \<open>unlink\<close> removes a directory
  entry by writing a zero inode number over it.
\<close>

subsection \<open>Time\<close>

definition gtime :: "unit km" where
  "gtime = modify (\<lambda>s. set_val1 (k_time s) s)"

definition ftime :: "unit km" where
  "ftime s =
     (let ms0 = k_lbolt s; over = ms0 > HZ; ms = (if over then ms0 - HZ else ms0); t = (if over then k_time s + 1 else k_time s)
      in Ret () (give_words [wval t, wval ((1000 * ms) div HZ), wval 0, wval 0] (argw 0 s) s))"

definition stime :: "unit km" where
  "stime = bind (lift suser) (\<lambda>su. guard (su \<noteq> 0) (modify (\<lambda>s. s\<lparr>k_time := argi 0 s\<rparr>)))"

definition times :: "unit km" where
  "times s = Ret () (give_words [wval (u_utime (k_u s)), wval (u_stime (k_u s)), wval (u_cutime (k_u s)), wval (u_cstime (k_u s))]
     (argw 0 s) s)"

definition profil :: "unit km" where
  "profil s = (if uint (u_arg (k_u s) 3) > 1 then Ret () (set_error EINVAL s) else Ret () s)"

definition alarm :: "unit km" where
  "alarm s =
     (let p = curproc s
      in Ret () (set_val1 (p_clktim (k_proc s p)) (upd_proc p (\<lambda>r. r\<lparr>p_clktim := argi 0 s\<rparr>) s)))"

definition pause :: "env \<Rightarrow> unit km" where
  "pause e = whiles (e_fuel e) (\<lambda>_. True) (sleep e Ch_u PSLEP)"

subsection \<open>Identity\<close>

definition setuid :: "unit km" where
  "setuid s =
     (let uid = argi 0 s
      in bind (if u_ruid (k_u s) = uid then ret 1 else lift suser) (\<lambda>ok.
           guard (ok \<noteq> 0) (modify (\<lambda>s. upd_proc (curproc s) (\<lambda>r. r\<lparr>p_uid := uid\<rparr>)
             (upd_u (\<lambda>u. u\<lparr>u_uid := uid, u_ruid := uid\<rparr>) s)))) s)"

definition getuid :: "unit km" where
  "getuid = modify (\<lambda>s. set_val2 (u_uid (k_u s)) (set_val1 (u_ruid (k_u s)) s))"

definition setgid :: "unit km" where
  "setgid s =
     (let gid = argi 0 s
      in bind (if u_rgid (k_u s) = gid then ret 1 else lift suser) (\<lambda>ok.
           guard (ok \<noteq> 0) (modify (upd_u (\<lambda>u. u\<lparr>u_gid := gid, u_rgid := gid\<rparr>)))) s)"

definition getgid :: "unit km" where
  "getgid = modify (\<lambda>s. set_val2 (u_gid (k_u s)) (set_val1 (u_rgid (k_u s)) s))"

definition getpid :: "unit km" where
  "getpid = modify (\<lambda>s. set_val2 (p_ppid (k_proc s (curproc s))) (set_val1 (p_pid (k_proc s (curproc s))) s))"

definition sync :: "env \<Rightarrow> unit km" where
  "sync e = update e"

definition nice :: "unit km" where
  "nice s =
     (let n = argi 0 s
      in bind (if n < 0 then lift suser else ret 1) (\<lambda>ok. modify (\<lambda>s.
           let n1 = (if ok = 0 then 0 else n) + p_nice (k_proc s (curproc s));
               n2 = (if n1 \<ge> 2 * NZERO then 2 * NZERO - 1 else n1);
               n3 = (if n2 < 0 then 0 else n2)
           in upd_proc (curproc s) (\<lambda>r. r\<lparr>p_nice := n3\<rparr>) s)) s)"

definition umask :: "unit km" where
  "umask s = Ret () (set_val1 (u_cmask (k_u s)) (upd_u (\<lambda>u. u\<lparr>u_cmask := argi 0 s AND 511\<rparr>) s))"

subsection \<open>Inodes\<close>

text \<open>The part of \<open>unlink\<close> with both inodes in hand.\<close>

definition unlink_entry :: "env \<Rightarrow> nat \<Rightarrow> nat \<Rightarrow> unit km" where
  "unlink_entry e pp ip =
     bind (ifs (\<lambda>s. i_mode (k_inode s ip) AND IFMT = IFDIR) (lift suser) (ret 1)) (\<lambda>su.
       if su = 0 then ret ()
       else ifs (\<lambda>s. i_dev (k_inode s ip) \<noteq> i_dev (k_inode s pp)) (modify (set_error EBUSY)) (seq [
         ifs (ihas ITEXT ip) (xrele e ip) (ret ()),
         ifs (\<lambda>s. ihas ITEXT ip s \<and> i_nlink (k_inode s ip) = 1) (modify (set_error ETXTBSY)) (seq [
           modify (upd_u (\<lambda>u. u\<lparr>u_offset := u_offset u - DIRENTSZ, u_base := Kaddr Kdent 0, u_count := DIRENTSZ,
             u_dent := (u_dent u)(0 := wval 0)\<rparr>)),
           writei e pp,
           modify (\<lambda>s. iset {ICHG} ip (upd_inode ip (\<lambda>i. i\<lparr>i_nlink := i_nlink i - 1\<rparr>) s))])]))"

definition unlink :: "env \<Rightarrow> unit km" where
  "unlink e = bind (namei e uchar 2) (\<lambda>r. case r of
     None \<Rightarrow> ret ()
   | Some pp \<Rightarrow>
       bind (ifs (\<lambda>s. i_number (k_inode s pp) = d_ino s)
               (andthen (modify (icount_inc pp)) (ret (Some pp)))
               (\<lambda>s. iget e (i_dev (k_inode s pp)) (d_ino s) s)) (\<lambda>r. case r of
         None \<Rightarrow> iput e pp
       | Some ip \<Rightarrow> seq [unlink_entry e pp ip, iput e ip, iput e pp]))"

text \<open>\<open>chdirec\<close>, for the current directory and for the root.\<close>

definition chdirec :: "env \<Rightarrow> (user \<Rightarrow> nat option) \<Rightarrow> (nat \<Rightarrow> user \<Rightarrow> user) \<Rightarrow> unit km" where
  "chdirec e old put = bind (namei e uchar 0) (\<lambda>r. case r of
     None \<Rightarrow> ret ()
   | Some ip \<Rightarrow>
       ifs (\<lambda>s. i_mode (k_inode s ip) AND IFMT \<noteq> IFDIR) (seq [modify (set_error ENOTDIR), iput e ip])
         (bind (access e ip IEXEC) (\<lambda>a.
            if a \<noteq> 0 then iput e ip
            else seq [
              prele e ip,
              (\<lambda>s. case old (k_u s) of None \<Rightarrow> Ret () s | Some d \<Rightarrow> seq [plock e d, iput e d] s),
              modify (upd_u (put ip))])))"

definition chdir :: "env \<Rightarrow> unit km" where
  "chdir e = chdirec e (\<lambda>u. Some (u_cdir u)) (\<lambda>ip u. u\<lparr>u_cdir := ip\<rparr>)"

definition chroot :: "env \<Rightarrow> unit km" where
  "chroot e = bind (lift suser) (\<lambda>su. guard (su \<noteq> 0) (chdirec e u_rdir (\<lambda>ip u. u\<lparr>u_rdir := Some ip\<rparr>)))"

definition chmod :: "env \<Rightarrow> unit km" where
  "chmod e = bind (owner e) (\<lambda>r. case r of
     None \<Rightarrow> ret ()
   | Some ip \<Rightarrow> seq [
       modify (\<lambda>s. let fmode = (if u_uid (k_u s) \<noteq> 0 then argi 1 s AND NOT ISVTX else argi 1 s)
         in iset {ICHG} ip (upd_inode ip (\<lambda>i. i\<lparr>i_mode := (i_mode i AND NOT 4095) OR (fmode AND 4095)\<rparr>) s)),
       ifs (\<lambda>s. ihas ITEXT ip s \<and> i_mode (k_inode s ip) AND ISVTX = 0) (xrele e ip) (ret ()),
       iput e ip])"

definition chown :: "env \<Rightarrow> unit km" where
  "chown e = bind (lift suser) (\<lambda>su.
     if su = 0 then ret ()
     else bind (owner e) (\<lambda>r. case r of
       None \<Rightarrow> ret ()
     | Some ip \<Rightarrow> seq [
         modify (\<lambda>s. iset {ICHG} ip (upd_inode ip (\<lambda>i. i\<lparr>i_uid := argi 1 s, i_gid := argi 2 s\<rparr>) s)),
         iput e ip]))"

definition utime :: "env \<Rightarrow> unit km" where
  "utime e = bind (owner e) (\<lambda>r. case r of
     None \<Rightarrow> ret ()
   | Some ip \<Rightarrow> (\<lambda>s.
       case copyin (u_upt (k_u s)) (k_mem s) (argw 1 s) 0 (2 * NBPW) (\<lambda>_. 0) of
         (r, tv) \<Rightarrow>
           if r \<noteq> 0 then Ret () (set_error EFAULT s)
           else seq [
             modify (iset {IACC, IUPD, ICHG} ip),
             iupdat e ip (ival (tv 0)) (ival (tv 1)),
             iput e ip] s))"

subsection \<open>Signals\<close>

definition ssig :: "unit km" where
  "ssig s =
     (let a = argi 0 s
      in if a \<le> 0 \<or> a \<ge> int NSIG \<or> a = 9 then Ret () (set_error EINVAL s)
         else Ret () (upd_proc (curproc s) (\<lambda>r. r\<lparr>p_sig := p_sig r AND NOT (sigbit (nat a))\<rparr>)
                (upd_u (\<lambda>u. u\<lparr>u_val1 := u_signal u (nat a), u_signal := (u_signal u)(nat a := argi 1 s)\<rparr>) s)))"

text \<open>Does \<open>kill\<close> send to process \<open>p\<close>?  \<open>a\<close> is the process asked for, 0 for all of the group.\<close>

definition kill_hits :: "int \<Rightarrow> bool \<Rightarrow> kst \<Rightarrow> nat \<Rightarrow> bool" where
  "kill_hits a priv s p \<longleftrightarrow>
     p_stat (k_proc s p) \<noteq> SNONE \<and> (a \<noteq> 0 \<longrightarrow> p_pid (k_proc s p) = a) \<and>
     (a = 0 \<longrightarrow> (p_pgrp (k_proc s p) = p_pgrp (k_proc s (curproc s)) \<or> priv) \<and> 1 < p) \<and>
     (u_uid (k_u s) = 0 \<or> u_uid (k_u s) = p_uid (k_proc s p))"

primrec kill_loop :: "env \<Rightarrow> int \<Rightarrow> bool \<Rightarrow> nat list \<Rightarrow> bool \<Rightarrow> bool km" where
  "kill_loop e a priv [] f = ret f"
| "kill_loop e a priv (p # ps) f = (\<lambda>s.
     if kill_hits a priv s p then andthen (psignal e p (argi 1 s)) (kill_loop e a priv ps True) s
     else kill_loop e a priv ps f s)"

definition kill :: "env \<Rightarrow> unit km" where
  "kill e s =
     (let priv = (argi 0 s = -1 \<and> u_uid (k_u s) = 0); a = (if priv then 0 else argi 0 s)
      in bind (kill_loop e a priv [0 ..< NPROC] False) (\<lambda>f. guard (\<not> f) (modify (set_error ESRCH))) s)"

end
