(* ===== verification/Irq.thy ===== *)
theory Irq
  imports Sched
begin

section \<open>Device instructions and interrupt masks (kernel/intr.c)\<close>

text \<open>
  The two instructions by which the kernel talks to the hardware, and the masks of the two
  interrupt registers.  The masks cannot be read back, so the kernel keeps a copy of each and
  changes it only through the routines here.  The interrupt level (\<open>spl\<close>) is not represented: a
  routine runs to its end or to its next sleep.
\<close>

definition ext :: "env \<Rightarrow> int \<Rightarrow> w48 \<Rightarrow> w48 km" where
  "ext e a v s = (let t = Ext a v # k_trace s in Ret (e_answer e t) (s\<lparr>k_trace := t\<rparr>))"

definition modi :: "env \<Rightarrow> int \<Rightarrow> w48 \<Rightarrow> w48 km" where
  "modi e a v s = (let t = Mod a v # k_trace s in Ret (e_answer e t) (s\<lparr>k_trace := t\<rparr>))"

text \<open>An instruction issued for its effect alone.\<close>

definition outp :: "env \<Rightarrow> int \<Rightarrow> w48 \<Rightarrow> unit km" where
  "outp e a v = bind (ext e a v) (\<lambda>_. ret ())"

definition modw :: "env \<Rightarrow> int \<Rightarrow> w48 \<Rightarrow> unit km" where
  "modw e a v = bind (modi e a v) (\<lambda>_. ret ())"

abbreviation (input) MOD_MGRP :: int where "MOD_MGRP \<equiv> 30"
abbreviation (input) MOD_GRPCLR :: int where "MOD_GRPCLR \<equiv> 31"
abbreviation (input) MOD_GRP :: int where "MOD_GRP \<equiv> 159"
abbreviation (input) EXT_PRPCLR :: int where "EXT_PRPCLR \<equiv> 24"
abbreviation (input) EXT_MPRP :: int where "EXT_MPRP \<equiv> 28"
abbreviation (input) EXT_PRPLO :: int where "EXT_PRPLO \<equiv> 0x81c"
abbreviation (input) EXT_IOERR :: int where "EXT_IOERR \<equiv> 0x81d"

abbreviation (input) GRP_TIMER :: w48 where "GRP_TIMER \<equiv> 0x8000000000"
abbreviation (input) GRP_SLAVE :: w48 where "GRP_SLAVE \<equiv> 0x1000000000"
abbreviation (input) GRP_DRUM1_FREE :: w48 where "GRP_DRUM1_FREE \<equiv> 0x200000000000"
abbreviation (input) GRP_DRUM2_FREE :: w48 where "GRP_DRUM2_FREE \<equiv> 0x100000000000"
abbreviation (input) GRP_CHAN3_FREE :: w48 where "GRP_CHAN3_FREE \<equiv> 0x10000000"
abbreviation (input) GRP_CHAN4_FREE :: w48 where "GRP_CHAN4_FREE \<equiv> 0x8000000"

definition set_mgrp :: "env \<Rightarrow> (w48 \<Rightarrow> w48) \<Rightarrow> unit km" where
  "set_mgrp e f s = (let m = f (k_mgrp s) in modw e MOD_MGRP m (s\<lparr>k_mgrp := m\<rparr>))"

definition intrinit :: "env \<Rightarrow> unit km" where
  "intrinit e = set_mgrp e (\<lambda>_. GRP_SLAVE OR GRP_TIMER)"

definition mgrpon :: "env \<Rightarrow> w48 \<Rightarrow> unit km" where
  "mgrpon e bits = set_mgrp e (\<lambda>m. m OR bits)"

definition mgrpoff :: "env \<Rightarrow> w48 \<Rightarrow> unit km" where
  "mgrpoff e bits = set_mgrp e (\<lambda>m. m AND NOT bits)"

definition mprpon :: "env \<Rightarrow> w48 \<Rightarrow> unit km" where
  "mprpon e bits s = (let m = k_mprp s OR bits in outp e EXT_MPRP m (s\<lparr>k_mprp := m\<rparr>))"

end
