(* ===== verification/Tty.thy ===== *)
theory Tty
  imports Sysfile Irq
begin

section \<open>Terminals (kernel/dev/tty.c, kernel/dev/sc.c, kernel/dev/sys.c)\<close>

text \<open>
  The line discipline and the driver of the two typewriters, of which \<open>k_tty\<close> is the array \<open>sc\<close>.
  The only routine a terminal starts its output with is \<open>scstart\<close>, so \<open>t_oproc\<close> says whether it
  has been set; the stop routine of the driver is \<open>nulldstop\<close>, which does nothing, and there is
  one line discipline.  \<open>canonb\<close> is rewritten from its third character by every call of \<open>canon\<close>, the
  two before it are zero and stay so: the line being edited is a list, newest character first.
\<close>

abbreviation (input) TANDEM :: int where "TANDEM \<equiv> 1"
abbreviation (input) CBREAK :: int where "CBREAK \<equiv> 2"
abbreviation (input) LCASE :: int where "LCASE \<equiv> 4"
abbreviation (input) ECHO :: int where "ECHO \<equiv> 8"
abbreviation (input) CRMOD :: int where "CRMOD \<equiv> 16"
abbreviation (input) RAW :: int where "RAW \<equiv> 32"
abbreviation (input) XTABS :: int where "XTABS \<equiv> 3072"
abbreviation (input) TTHIWAT :: int where "TTHIWAT \<equiv> 100"
abbreviation (input) TTLOWAT :: int where "TTLOWAT \<equiv> 50"
abbreviation (input) TTYHOG :: int where "TTYHOG \<equiv> 256"
abbreviation (input) CANBSIZ :: nat where "CANBSIZ \<equiv> 256"
abbreviation (input) TTIPRI :: int where "TTIPRI \<equiv> 28"
abbreviation (input) TTOPRI :: int where "TTOPRI \<equiv> 29"
abbreviation (input) NSC :: int where "NSC \<equiv> 2"
abbreviation (input) CEOT :: int where "CEOT \<equiv> 4"
abbreviation (input) DELIM :: int where "DELIM \<equiv> 255"

subsection \<open>The queues of a terminal\<close>

datatype qname = Rawq | Canq | Outq

primrec tq :: "qname \<Rightarrow> tty \<Rightarrow> clist" where
  "tq Rawq t = t_rawq t"
| "tq Canq t = t_canq t"
| "tq Outq t = t_outq t"

primrec tq_set :: "qname \<Rightarrow> clist \<Rightarrow> tty \<Rightarrow> tty" where
  "tq_set Rawq q t = t\<lparr>t_rawq := q\<rparr>"
| "tq_set Canq q t = t\<lparr>t_canq := q\<rparr>"
| "tq_set Outq q t = t\<lparr>t_outq := q\<rparr>"

definition qput :: "nat \<Rightarrow> qname \<Rightarrow> clist \<Rightarrow> cpool \<Rightarrow> kst \<Rightarrow> kst" where
  "qput t k q P s = (upd_tty t (tq_set k q) s)\<lparr>k_cpool := P\<rparr>"

definition tgetc :: "qname \<Rightarrow> nat \<Rightarrow> int km" where
  "tgetc k t s =
     (case getc (tq k (k_tty s t)) (k_cpool s) of
        None \<Rightarrow> Panic ''bad address'' s
      | Some (c, q, P) \<Rightarrow> Ret c (qput t k q P s))"

definition tputc :: "int \<Rightarrow> qname \<Rightarrow> nat \<Rightarrow> int km" where
  "tputc c k t s =
     (case putc c (tq k (k_tty s t)) (k_cpool s) of
        None \<Rightarrow> Panic ''bad address'' s
      | Some (r, q, P) \<Rightarrow> Ret r (qput t k q P s))"

definition tb_to_q :: "int list \<Rightarrow> qname \<Rightarrow> nat \<Rightarrow> unit km" where
  "tb_to_q cs k t s =
     (case b_to_q cs (tq k (k_tty s t)) (k_cpool s) of
        None \<Rightarrow> Panic ''bad address'' s
      | Some (r, q, P) \<Rightarrow> Ret () (qput t k q P s))"

lemma getc_shrinks: "getc q P = Some (c, q', P') \<Longrightarrow> 0 \<le> c \<Longrightarrow> nat (c_cc q') < nat (c_cc q)"
  by (auto simp: getc_def Let_def split: if_splits option.splits)

text \<open>\<open>while (getc(q) >= 0);\<close>\<close>

function drain :: "clist \<Rightarrow> cpool \<Rightarrow> (clist \<times> cpool) option" where
  "drain q P =
     (case getc q P of
        None \<Rightarrow> None
      | Some (c, q', P') \<Rightarrow> if c \<ge> 0 then drain q' P' else Some (q', P'))"
  by pat_completeness auto
termination by (relation "measure (\<lambda>(q, P). nat (c_cc q))") (auto dest: getc_shrinks)

declare drain.simps [simp del]

definition tdrain :: "qname \<Rightarrow> nat \<Rightarrow> unit km" where
  "tdrain k t s =
     (case drain (tq k (k_tty s t)) (k_cpool s) of
        None \<Rightarrow> Panic ''bad address'' s
      | Some (q, P) \<Rightarrow> Ret () (qput t k q P s))"

definition tset :: "tstate \<Rightarrow> nat \<Rightarrow> kst \<Rightarrow> kst" where
  "tset f t = upd_tty t (\<lambda>x. x\<lparr>t_state := insert f (t_state x)\<rparr>)"

definition tclr :: "tstate \<Rightarrow> nat \<Rightarrow> kst \<Rightarrow> kst" where
  "tclr f t = upd_tty t (\<lambda>x. x\<lparr>t_state := t_state x - {f}\<rparr>)"

definition thas :: "tstate \<Rightarrow> nat \<Rightarrow> kst \<Rightarrow> bool" where
  "thas f t s \<longleftrightarrow> f \<in> t_state (k_tty s t)"

definition qlen :: "qname \<Rightarrow> nat \<Rightarrow> kst \<Rightarrow> int" where
  "qlen k t s = c_cc (tq k (k_tty s t))"

subsection \<open>Starting output\<close>

definition sc_print :: "int \<Rightarrow> int" where
  "sc_print u = 124 + u"

definition scstart :: "env \<Rightarrow> nat \<Rightarrow> unit km" where
  "scstart e t = ifs (\<lambda>s. thas BUSY t s \<or> thas TTSTOP t s) (ret ())
     (bind (tgetc Outq t) (\<lambda>c.
        guard (c \<ge> 0) (seq [
          modify (upd_tty t (\<lambda>x. x\<lparr>t_char := c\<rparr>)),
          modify (tset BUSY t),
          (\<lambda>s. outp e (sc_print (t_addr (k_tty s t))) (word_of_int (c AND 255)) s),
          ifs (\<lambda>s. qlen Outq t s \<le> TTLOWAT \<and> thas ASLEEP t s)
            (seq [modify (tclr ASLEEP t), wakeup e (Ch_outq t)]) (ret ())])))"

definition call_oproc :: "env \<Rightarrow> nat \<Rightarrow> unit km" where
  "call_oproc e t = ifs (\<lambda>s. t_oproc (k_tty s t)) (scstart e t) (panic ''kernel trap'')"

definition ttstart :: "env \<Rightarrow> nat \<Rightarrow> unit km" where
  "ttstart e t = ifs (\<lambda>s. \<not> thas TTSTOP t s \<and> \<not> thas BUSY t s) (call_oproc e t) (ret ())"

subsection \<open>Flushing\<close>

definition flushtty :: "env \<Rightarrow> nat \<Rightarrow> unit km" where
  "flushtty e t = seq [
     tdrain Canq t,
     wakeup e (Ch_rawq t),
     wakeup e (Ch_outq t),
     modify (tclr TTSTOP t),
     tdrain Outq t,
     tdrain Rawq t,
     modify (upd_tty t (\<lambda>x. x\<lparr>t_delct := 0, t_echoct := 0\<rparr>))]"

definition wflushtty :: "env \<Rightarrow> nat \<Rightarrow> unit km" where
  "wflushtty e t = seq [
     whiles (e_fuel e) (\<lambda>s. qlen Outq t s \<noteq> 0 \<and> thas CARR_ON t s)
       (seq [call_oproc e t, modify (tset ASLEEP t), sleep e (Ch_outq t) TTOPRI]),
     flushtty e t]"

definition ttyopen :: "int \<Rightarrow> nat \<Rightarrow> kst \<Rightarrow> kst" where
  "ttyopen dev t s =
     (let pp = curproc s;
          s = upd_tty t (\<lambda>x. x\<lparr>t_dev := dev\<rparr>) s;
          s = (if p_pgrp (k_proc s pp) = 0 then
                 (let s = upd_u (\<lambda>u. u\<lparr>u_ttyp := Some t, u_ttyd := dev\<rparr>) s;
                      s = (if t_pgrp (k_tty s t) = 0 then upd_tty t (\<lambda>x. x\<lparr>t_pgrp := p_pid (k_proc s pp)\<rparr>) s else s)
                  in upd_proc pp (\<lambda>r. r\<lparr>p_pgrp := t_pgrp (k_tty s t)\<rparr>) s)
               else s)
      in tset ISOPEN t (tclr WOPEN t s))"

definition ttychars :: "tty \<Rightarrow> tty" where
  "ttychars x = x\<lparr>t_intrc := 3, t_quitc := 28, t_startc := 17, t_stopc := 19, t_eofc := CEOT, t_brkc := 255,
     t_erase := 127, t_kill := 21\<rparr>"

definition ttyclose :: "env \<Rightarrow> nat \<Rightarrow> unit km" where
  "ttyclose e t = seq [
     modify (upd_tty t (\<lambda>x. x\<lparr>t_pgrp := 0\<rparr>)),
     wflushtty e t,
     modify (upd_tty t (\<lambda>x. x\<lparr>t_state := {}\<rparr>))]"

subsection \<open>Output\<close>

definition partab :: "int list" where
  "partab =
    [1, 129, 129, 1, 129, 1, 1, 129, 130, 4, 3, 129, 5, 134, 129, 1,
     129, 1, 1, 129, 1, 129, 129, 1, 1, 129, 129, 1, 129, 1, 1, 129,
     128, 0, 0, 128, 0, 128, 128, 0, 0, 128, 128, 0, 128, 0, 0, 128,
     0, 128, 128, 0, 128, 0, 0, 128, 128, 0, 0, 128, 0, 128, 128, 0,
     128, 0, 0, 128, 0, 128, 128, 0, 0, 128, 128, 0, 128, 0, 0, 128,
     0, 128, 128, 0, 128, 0, 0, 128, 128, 0, 0, 128, 0, 128, 128, 0,
     0, 128, 128, 0, 128, 0, 0, 128, 128, 0, 0, 128, 0, 128, 128, 0,
     128, 0, 0, 128, 0, 128, 128, 0, 0, 128, 128, 0, 128, 0, 0, 129]"

definition col_after :: "int \<Rightarrow> int \<Rightarrow> int" where
  "col_after c col =
     (if c \<ge> 128 then if c AND 192 \<noteq> 128 then cinc col else col
      else
        (let k = (partab ! nat c) AND 63
         in if k = 0 then cinc col
            else if k = 2 then if col \<noteq> 0 then col - 1 else col
            else if k = 3 \<or> k = 6 then 0
            else if k = 4 then cinc (col OR 7)
            else col))"

text \<open>For an upper-case terminal: whether a character is printed behind a backslash, and as what.\<close>

definition lcase_esc :: "int \<Rightarrow> bool \<times> int" where
  "lcase_esc c =
     (if c = 123 then (True, 40) else if c = 125 then (True, 41) else if c = 124 then (True, 33)
      else if c = 126 then (True, 94) else if c = 96 then (True, 39) else (False, c))"

definition upcase :: "int \<Rightarrow> int" where
  "upcase c = (if 97 \<le> c \<and> c \<le> 122 then c - 32 else c)"

primrec tab_loop :: "nat \<Rightarrow> nat \<Rightarrow> unit km \<Rightarrow> unit km" where
  "tab_loop 0 t out = out"
| "tab_loop (Suc n) t out = seq [out, ifs (\<lambda>s. t_col (k_tty s t) AND 7 \<noteq> 0) (tab_loop n t out) (ret ())]"

definition put_col :: "nat \<Rightarrow> int \<Rightarrow> unit km" where
  "put_col t c = bind (tputc c Outq t) (\<lambda>_. modify (upd_tty t (\<lambda>x. x\<lparr>t_col := col_after c (t_col x)\<rparr>)))"

function ttyoutput :: "nat \<Rightarrow> int \<Rightarrow> unit km" where
  "ttyoutput t c0 = andthen (modify (\<lambda>s. s\<lparr>k_tk_nout := k_tk_nout s + 1\<rparr>)) (\<lambda>s.
     let fl = t_flags (k_tty s t); c = c0 AND 255; lc = fl AND LCASE \<noteq> 0;
         d = (if lc then upcase (snd (lcase_esc c)) else c)
     in if fl AND RAW \<noteq> 0 then bind (tputc c0 Outq t) (\<lambda>_. ret ()) s
        else if c = CEOT then Ret () s
        else if c = 9 \<and> fl AND XTABS = XTABS then tab_loop 8 t (ttyoutput t 32) s
        else seq [
          (if lc \<and> fst (lcase_esc c) then ttyoutput t 92 else ret ()),
          (if d = 10 \<and> fl AND CRMOD \<noteq> 0 then ttyoutput t 13 else ret ()),
          put_col t d] s)"
  by pat_completeness auto
termination
  by (relation "measure (\<lambda>(t, c). if c AND 255 \<in> {9, 10, 123, 124, 125, 126, 96} then 1 else 0)")
    (auto simp: lcase_esc_def upcase_def split: if_splits)

declare ttyoutput.simps [simp del]

subsection \<open>Input\<close>

definition ttyblock :: "env \<Rightarrow> nat \<Rightarrow> unit km" where
  "ttyblock e t s =
     (let x = qlen Rawq t s + qlen Canq t s in seq [
        ifs (\<lambda>s. qlen Rawq t s > TTYHOG) (seq [flushtty e t, modify (tclr TBLOCK t)]) (ret ()),
        guard (x \<ge> 128) (bind (\<lambda>s. tputc (t_stopc (k_tty s t)) Outq t s) (\<lambda>r.
          guard (r = 0) (seq [
            modify (tset TBLOCK t),
            modify (upd_tty t (\<lambda>x. x\<lparr>t_char := cinc (t_char x)\<rparr>)),
            ttstart e t])))] s)"

text \<open>The echo: the erase character rubs out one of the columns this layer printed.\<close>

definition tty_echo :: "int \<Rightarrow> int \<Rightarrow> nat \<Rightarrow> unit km" where
  "tty_echo fl c t s =
     (let x = k_tty s t; cooked = (fl AND (RAW OR CBREAK) = 0)
      in if c = t_erase x \<and> cooked then
           guard (t_echoct x \<noteq> 0) (seq [
             ttyoutput t 8, ttyoutput t 32, ttyoutput t 8,
             modify (upd_tty t (\<lambda>x. x\<lparr>t_echoct := cdec (t_echoct x)\<rparr>))]) s
         else seq [
           ttyoutput t c,
           guard (c = t_kill x \<and> cooked) (ttyoutput t 10),
           modify (upd_tty t (\<lambda>y.
             if c = 10 \<or> c = t_eofc y \<or> c = t_brkc y \<or> c = t_kill y then y\<lparr>t_echoct := 0\<rparr>
             else if t_col y > t_col x \<and> t_echoct y < 255 then y\<lparr>t_echoct := t_echoct y + 1\<rparr>
             else y))] s)"

definition tty_queue :: "env \<Rightarrow> int \<Rightarrow> int \<Rightarrow> nat \<Rightarrow> unit km" where
  "tty_queue e fl c0 t =
     (let c = (if fl AND LCASE \<noteq> 0 \<and> 65 \<le> c0 \<and> c0 \<le> 90 then c0 + 32 else c0)
      in ifs (\<lambda>s. qlen Rawq t s > TTYHOG) (flushtty e t) (seq [
           bind (tputc c Rawq t) (\<lambda>_. ret ()),
           ifs (\<lambda>s. fl AND (RAW OR CBREAK) \<noteq> 0 \<or> c = 10 \<or> c = t_eofc (k_tty s t) \<or> c = t_brkc (k_tty s t))
             (seq [
               guard (fl AND (RAW OR CBREAK) = 0) (bind (tputc DELIM Rawq t) (\<lambda>r.
                 guard (r = 0) (modify (upd_tty t (\<lambda>x. x\<lparr>t_delct := cinc (t_delct x)\<rparr>))))),
               wakeup e (Ch_rawq t)]) (ret ()),
           guard (fl AND ECHO \<noteq> 0) (seq [tty_echo fl c t, ttstart e t])]))"

definition tty_special :: "env \<Rightarrow> int \<Rightarrow> int \<Rightarrow> nat \<Rightarrow> unit km" where
  "tty_special e fl c t s =
     (if c = t_quitc (k_tty s t) \<or> c = t_intrc (k_tty s t) then seq [
        flushtty e t,
        (\<lambda>s. signal e (t_pgrp (k_tty s t)) (if c = t_intrc (k_tty s t) then 2 else 3) s)] s
      else tty_queue e fl (if c = 13 \<and> fl AND CRMOD \<noteq> 0 then 10 else c) t s)"

definition tty_cooked :: "env \<Rightarrow> int \<Rightarrow> int \<Rightarrow> nat \<Rightarrow> unit km" where
  "tty_cooked e fl c t s =
     (if c = DELIM then Ret () s
      else if thas TTSTOP t s then
        (if c = t_startc (k_tty s t) then seq [modify (tclr TTSTOP t), ttstart e t] s
         else if c = t_stopc (k_tty s t) then Ret () s
         else seq [modify (tclr TTSTOP t), ttstart e t, tty_special e fl c t] s)
      else if c = t_stopc (k_tty s t) then Ret () (tset TTSTOP t s)
      else if c = t_startc (k_tty s t) then Ret () s
      else tty_special e fl c t s)"

definition ttyinput :: "env \<Rightarrow> int \<Rightarrow> nat \<Rightarrow> unit km" where
  "ttyinput e c0 t s =
     (let c = c0 AND 255; fl = t_flags (k_tty s t) in seq [
        modify (\<lambda>s. s\<lparr>k_tk_nin := k_tk_nin s + 1\<rparr>),
        guard (fl AND TANDEM \<noteq> 0) (ttyblock e t),
        (if fl AND RAW = 0 then tty_cooked e fl c t else tty_queue e fl c t)] s)"

primrec ttyrend_loop :: "env \<Rightarrow> nat \<Rightarrow> int list \<Rightarrow> unit km" where
  "ttyrend_loop e t [] = ret ()"
| "ttyrend_loop e t (c # cs) = seq [ttyinput e c t, ttyrend_loop e t cs]"

definition ttyrend :: "env \<Rightarrow> nat \<Rightarrow> int list \<Rightarrow> unit km" where
  "ttyrend e t cs s =
     (let tandem = t_flags (k_tty s t) AND TANDEM in seq [
        ifs (\<lambda>s. t_flags (k_tty s t) AND RAW \<noteq> 0)
          (seq [tb_to_q cs Rawq t, wakeup e (Ch_rawq t)])
          (seq [
            modify (upd_tty t (\<lambda>x. x\<lparr>t_flags := t_flags x AND NOT TANDEM\<rparr>)),
            ttyrend_loop e t cs,
            modify (upd_tty t (\<lambda>x. x\<lparr>t_flags := t_flags x OR tandem\<rparr>))]),
        guard (tandem \<noteq> 0) (ttyblock e t)] s)"

subsection \<open>Canonical input\<close>

definition maptab :: "int list" where
  "maptab =
    [0, 0, 0, 0, 0, 0, 0, 0, 0, 0, 0, 0, 0, 0, 0, 0,
     0, 0, 0, 0, 0, 0, 0, 0, 0, 0, 0, 0, 0, 0, 0, 0,
     0, 124, 0, 0, 0, 0, 0, 96, 123, 125, 0, 0, 0, 0, 0, 0,
     0, 0, 0, 0, 0, 0, 0, 0, 0, 0, 0, 0, 0, 0, 0, 0,
     0, 0, 0, 0, 0, 0, 0, 0, 0, 0, 0, 0, 0, 0, 0, 0,
     0, 0, 0, 0, 0, 0, 0, 0, 0, 0, 0, 0, 0, 0, 126, 0,
     0, 65, 66, 67, 68, 69, 70, 71, 72, 73, 74, 75, 76, 77, 78, 79,
     80, 81, 82, 83, 84, 85, 86, 87, 88, 89, 90, 0, 0, 0, 0, 0]"

datatype cact = Cdelim | Ckill | Cskip "int list" | Cstore "int list"

definition prev1 :: "int list \<Rightarrow> int" where
  "prev1 L = (case L of [] \<Rightarrow> 0 | a # _ \<Rightarrow> a)"

definition prev2 :: "int list \<Rightarrow> int" where
  "prev2 L = prev1 (tl L)"

text \<open>One character, not one byte: first the continuation bytes of a UTF-8 sequence.\<close>

definition erase1 :: "int list \<Rightarrow> int list" where
  "erase1 L = tl (dropWhile (\<lambda>b. b AND 192 = 128) L)"

definition canon_char :: "tty \<Rightarrow> int \<Rightarrow> int list \<Rightarrow> cact" where
  "canon_char x c L =
     (if t_flags x AND (RAW OR CBREAK) \<noteq> 0 then Cstore (c # L)
      else if c = DELIM then Cdelim
      else if prev1 L \<noteq> 92 then
        if c = t_erase x then Cskip (erase1 L)
        else if c = t_kill x then Ckill
        else if c = t_eofc x then Cskip L
        else Cstore (c # L)
      else
        (let m = (if c = t_erase x \<or> c = t_kill x then c else if c < 128 then maptab ! nat c else 0)
         in if m \<noteq> 0 \<and> (m = c \<or> t_flags x AND LCASE \<noteq> 0)
            then Cstore ((if prev2 L \<noteq> 92 then m else c) # tl L)
            else Cstore (c # L)))"

text \<open>The loop over the raw queue; the flag of the result says that a delimiter ended it.\<close>

function canon_scan :: "tty \<Rightarrow> clist \<Rightarrow> cpool \<Rightarrow> int list \<Rightarrow> (int list \<times> bool \<times> clist \<times> cpool) option" where
  "canon_scan x q P L =
     (case getc q P of
        None \<Rightarrow> None
      | Some (c, q', P') \<Rightarrow>
          if c < 0 then Some (L, False, q', P')
          else case canon_char x c L of
            Cdelim \<Rightarrow> Some (L, True, q', P')
          | Ckill \<Rightarrow> canon_scan x q' P' []
          | Cskip L' \<Rightarrow> canon_scan x q' P' L'
          | Cstore L' \<Rightarrow> if length L' + 2 \<ge> CANBSIZ then Some (L', False, q', P') else canon_scan x q' P' L')"
  by pat_completeness auto
termination by (relation "measure (\<lambda>(x, q, P, L). nat (c_cc q))") (auto dest: getc_shrinks)

declare canon_scan.simps [simp del]

definition canon_blocked :: "nat \<Rightarrow> kst \<Rightarrow> bool" where
  "canon_blocked t s \<longleftrightarrow>
     (if t_flags (k_tty s t) AND (RAW OR CBREAK) = 0 then t_delct (k_tty s t) = 0 else qlen Rawq t s = 0)"

primrec canon_wait :: "env \<Rightarrow> nat \<Rightarrow> nat \<Rightarrow> bool km" where
  "canon_wait e 0 t = hang"
| "canon_wait e (Suc n) t = ifs (canon_blocked t)
     (ifs (thas CARR_ON t) (andthen (sleep e (Ch_rawq t) TTIPRI) (canon_wait e n t)) (ret False)) (ret True)"

definition canon_line :: "nat \<Rightarrow> nat km" where
  "canon_line t s =
     (case canon_scan (k_tty s t) (t_rawq (k_tty s t)) (k_cpool s) [] of
        None \<Rightarrow> Panic ''bad address'' s
      | Some (L, d, q, P) \<Rightarrow>
          andthen (seq [
            guard d (modify (upd_tty t (\<lambda>x. x\<lparr>t_delct := cdec (t_delct x)\<rparr>))),
            tb_to_q (rev L) Canq t]) (ret (length L)) (qput t Rawq q P s))"

definition canon :: "env \<Rightarrow> nat \<Rightarrow> nat km" where
  "canon e t = bind (canon_wait e (e_fuel e) t) (\<lambda>go.
     if \<not> go then ret 0
     else bind (canon_line t) (\<lambda>n.
       andthen (ifs (\<lambda>s. thas TBLOCK t s \<and> qlen Rawq t s < 51)
         (seq [
           bind (\<lambda>s. tputc (t_startc (k_tty s t)) Outq t s) (\<lambda>r.
             guard (r = 0) (seq [modify (tclr TBLOCK t), ttstart e t])),
           modify (upd_tty t (\<lambda>x. x\<lparr>t_char := 0\<rparr>))]) (ret ())) (ret n)))"

subsection \<open>Read and write\<close>

primrec tt_pass :: "env \<Rightarrow> nat \<Rightarrow> nat \<Rightarrow> unit km" where
  "tt_pass e 0 t = hang"
| "tt_pass e (Suc n) t = ifs (\<lambda>s. qlen Canq t s = 0) (ret ())
     (bind (tgetc Canq t) (\<lambda>c. bind (passc e (word_of_int c)) (\<lambda>r.
        if r \<ge> 0 then tt_pass e n t else ret ())))"

definition ttread :: "env \<Rightarrow> nat \<Rightarrow> unit km" where
  "ttread e t = ifs (\<lambda>s. \<not> thas CARR_ON t s) (ret ())
     (bind (ifs (\<lambda>s. qlen Canq t s \<noteq> 0) (ret True) (bind (canon e t) (\<lambda>n. ret (n \<noteq> 0)))) (\<lambda>go.
        if go then (\<lambda>s. tt_pass e (Suc (nat (qlen Canq t s))) t s) else ret ()))"

primrec tt_hiwat :: "env \<Rightarrow> nat \<Rightarrow> nat \<Rightarrow> unit km" where
  "tt_hiwat e 0 t = hang"
| "tt_hiwat e (Suc n) t = ifs (\<lambda>s. qlen Outq t s > TTHIWAT)
     (seq [
       ttstart e t,
       ifs (\<lambda>s. qlen Outq t s = 0) (ret ())
         (seq [modify (tset ASLEEP t), sleep e (Ch_outq t) TTOPRI, tt_hiwat e n t])]) (ret ())"

primrec tt_send :: "env \<Rightarrow> nat \<Rightarrow> nat \<Rightarrow> unit km" where
  "tt_send e 0 t = hang"
| "tt_send e (Suc n) t = ifs (\<lambda>s. u_count (k_u s) = 0) (ret ())
     (seq [
       tt_hiwat e (e_fuel e) t,
       bind (cpass e) (\<lambda>c. if c < 0 then ret () else seq [ttyoutput t c, tt_send e n t])])"

definition ttwrite :: "env \<Rightarrow> nat \<Rightarrow> unit km" where
  "ttwrite e t = ifs (\<lambda>s. \<not> thas CARR_ON t s) (ret ())
     (seq [tt_send e (e_fuel e) t, ttstart e t])"

subsection \<open>Control\<close>

text \<open>The structures \<open>sgttyb\<close> and \<open>tchars\<close> as words.  The two bytes of padding behind the characters of
  \<open>sgttyb\<close>, which the C leaves open, are zero.\<close>

definition pack_chars :: "int list \<Rightarrow> w48" where
  "pack_chars cs = fold (\<lambda>(j, c) w. set_wbyte w j (word_of_int c)) (enumerate 0 cs) 0"

definition char_at :: "w48 \<Rightarrow> nat \<Rightarrow> int" where
  "char_at w j = uint (wbyte w j)"

definition take_words :: "int \<Rightarrow> int \<Rightarrow> kst \<Rightarrow> (int \<Rightarrow> w48) option" where
  "take_words a n s =
     (case copyin (u_upt (k_u s)) (k_mem s) a 0 (NBPW * n) (\<lambda>_. 0) of
        (r, K) \<Rightarrow> if r < 0 then None else Some K)"

definition setp :: "nat \<Rightarrow> int \<Rightarrow> kst \<Rightarrow> kst" where
  "setp t a s =
     (case take_words a 2 s of
        None \<Rightarrow> set_error EFAULT s
      | Some K \<Rightarrow> upd_tty t (\<lambda>x. x\<lparr>t_ispeed := char_at (K 0) 0, t_ospeed := char_at (K 0) 1,
          t_erase := char_at (K 0) 2, t_kill := char_at (K 0) 3, t_flags := ival (K 1)\<rparr>) s)"

definition setd :: "nat \<Rightarrow> int \<Rightarrow> unit km" where
  "setd t a s =
     (case take_words a 1 s of
        None \<Rightarrow> Ret () (set_error EFAULT s)
      | Some K \<Rightarrow>
          if uint (K 0) \<ge> 1 then Ret () (set_error ENXIO s)
          else if t_line (k_tty s t) \<noteq> 0 then Panic ''bad address'' s
          else Ret () (if uerr s = 0 then upd_tty t (\<lambda>x. x\<lparr>t_line := 0\<rparr>) s else s))"

definition ttioccomm :: "env \<Rightarrow> int \<Rightarrow> nat \<Rightarrow> int \<Rightarrow> int \<Rightarrow> int km" where
  "ttioccomm e com t a dev =
     (let one = (\<lambda>m. andthen m (ret 1))
      in if com = 29696 then one (\<lambda>s. Ret () (give_words [word_of_int (t_line (k_tty s t))] a s))
         else if com = 29697 then one (setd t a)
         else if com = 29709 then one (modify (tset XCLUDE t))
         else if com = 29710 then one (modify (tclr XCLUDE t))
         else if com = 29705 then one (seq [wflushtty e t, modify (setp t a)])
         else if com = 29706 then one (modify (setp t a))
         else if com = 29704 then one (\<lambda>s. let x = k_tty s t in
           Ret () (give_words [pack_chars [t_ispeed x, t_ospeed x, t_erase x, t_kill x], wval (t_flags x)] a s))
         else if com = 29698 then one (modify (tset HUPCLS t))
         else if com = 29712 then one (flushtty e t)
         else if com = 25608 \<or> com = 25609 then
           one (ifs (\<lambda>s. t_line (k_tty s t) = 0) (ret ()) (panic ''bad address''))
         else if com = 29713 then one (\<lambda>s. case take_words a 1 s of
             None \<Rightarrow> Ret () (set_error EFAULT s)
           | Some K \<Rightarrow> Ret () (upd_tty t (\<lambda>x. x\<lparr>t_intrc := char_at (K 0) 0, t_quitc := char_at (K 0) 1,
               t_startc := char_at (K 0) 2, t_stopc := char_at (K 0) 3, t_eofc := char_at (K 0) 4,
               t_brkc := char_at (K 0) 5\<rparr>) s))
         else if com = 29714 then one (\<lambda>s. let x = k_tty s t in
           Ret () (give_words [pack_chars [t_intrc x, t_quitc x, t_startc x, t_stopc x, t_eofc x, t_brkc x]] a s))
         else ret 0)"

definition fflag_bits :: "fflag set \<Rightarrow> int" where
  "fflag_bits F = (if FREAD \<in> F then 1 else 0) + (if FWRITE \<in> F then 2 else 0) + (if FPIPE \<in> F then 4 else 0)"

definition ioctl :: "env \<Rightarrow> unit km" where
  "ioctl e = bind (\<lambda>s. getf (argi 0 s) s) (\<lambda>r. case r of
     None \<Rightarrow> ret ()
   | Some fp \<Rightarrow> (\<lambda>s.
       let fd = nat (argi 0 s); cmd = argi 1 s; i = k_inode s (f_inode (k_file s fp)); fmt = i_mode i AND IFMT
       in if cmd = 26113 then Ret () (upd_u (\<lambda>u. u\<lparr>u_pofile := (u_pofile u)(fd := True)\<rparr>) s)
          else if cmd = 26114 then Ret () (upd_u (\<lambda>u. u\<lparr>u_pofile := (u_pofile u)(fd := False)\<rparr>) s)
          else if \<not> is_cdev fmt then Ret () (set_error ENOTTY s)
          else e_cioctl e (i_addr i 0) cmd (argc 2 s) (fflag_bits (f_flag (k_file s fp))) s))"

definition tty_args :: "w48 \<Rightarrow> kst \<Rightarrow> kst" where
  "tty_args cmd = upd_u (\<lambda>u. u\<lparr>u_arg := (u_arg u)(2 := u_arg u 1, 1 := cmd)\<rparr>)"

definition stty :: "env \<Rightarrow> unit km" where
  "stty e = seq [modify (tty_args 29705), ioctl e]"

definition gtty :: "env \<Rightarrow> unit km" where
  "gtty e = seq [modify (tty_args 29704), ioctl e]"

subsection \<open>The typewriters\<close>

definition sc_input :: "nat \<Rightarrow> w48" where
  "sc_input u = drop_bit u 2048"

definition sc_done :: "nat \<Rightarrow> w48" where
  "sc_done u = drop_bit u 512"

definition scinit :: "env \<Rightarrow> nat \<Rightarrow> unit km" where
  "scinit e u = seq [
     outp e EXT_PRPCLR (NOT (sc_input u OR sc_done u)),
     mprpon e (sc_input u OR sc_done u)]"

definition scopen :: "env \<Rightarrow> int \<Rightarrow> int \<Rightarrow> unit km" where
  "scopen e dev flag =
     (if minor dev \<ge> NSC then modify (set_error ENXIO)
      else
        (let t = nat (minor dev) in seq [
           modify (upd_tty t (\<lambda>x. x\<lparr>t_addr := minor dev, t_oproc := True\<rparr>)),
           ifs (thas ISOPEN t) (ret ()) (seq [
             modify (upd_tty t (\<lambda>x. ttychars (x\<lparr>t_state := {ISOPEN, CARR_ON}, t_flags := ECHO OR CRMOD OR XTABS\<rparr>))),
             scinit e t]),
           modify (ttyopen dev t)]))"

definition scclose :: "env \<Rightarrow> int \<Rightarrow> int \<Rightarrow> unit km" where
  "scclose e dev flag = ttyclose e (nat (minor dev))"

definition scread :: "env \<Rightarrow> int \<Rightarrow> unit km" where
  "scread e dev = ttread e (nat (minor dev))"

definition scwrite :: "env \<Rightarrow> int \<Rightarrow> unit km" where
  "scwrite e dev = ttwrite e (nat (minor dev))"

definition scioctl :: "env \<Rightarrow> int \<Rightarrow> int \<Rightarrow> int \<Rightarrow> int \<Rightarrow> unit km" where
  "scioctl e dev command a flag = bind (ttioccomm e command (nat (minor dev)) a dev) (\<lambda>r.
     guard (r = 0) (modify (set_error ENOTTY)))"

definition scintr_unit :: "env \<Rightarrow> w48 \<Rightarrow> nat \<Rightarrow> unit km" where
  "scintr_unit e prp u =
     (let inp = prp AND sc_input u \<noteq> 0; done = prp AND sc_done u \<noteq> 0; rd = 2172 + int u in
      ifs (\<lambda>s. \<not> thas ISOPEN u s)
        (seq [
          guard inp (seq [outp e EXT_PRPCLR (NOT (sc_input u)), outp e rd 0]),
          guard done (outp e EXT_PRPCLR (NOT (sc_done u)))])
        (seq [
          guard inp (seq [
            outp e EXT_PRPCLR (NOT (sc_input u)),
            bind (ext e rd 0) (\<lambda>w. ttyinput e (uint w AND 255) u)]),
          guard done (seq [
            outp e EXT_PRPCLR (NOT (sc_done u)),
            modify (tclr BUSY u),
            ttstart e u])]))"

definition scintr :: "env \<Rightarrow> unit km" where
  "scintr e = bind (ext e EXT_PRPLO 0) (\<lambda>prp. seq [scintr_unit e prp 0, scintr_unit e prp 1])"

subsection \<open>The controlling terminal\<close>

definition syopen :: "env \<Rightarrow> int \<Rightarrow> int \<Rightarrow> unit km" where
  "syopen e dev flag = (\<lambda>s.
     if u_ttyp (k_u s) = None then Ret () (set_error ENXIO s) else e_copen e (u_ttyd (k_u s)) flag s)"

definition syread :: "env \<Rightarrow> int \<Rightarrow> unit km" where
  "syread e dev = (\<lambda>s. e_cread e (u_ttyd (k_u s)) s)"

definition sywrite :: "env \<Rightarrow> int \<Rightarrow> unit km" where
  "sywrite e dev = (\<lambda>s. e_cwrite e (u_ttyd (k_u s)) s)"

definition sysioctl :: "env \<Rightarrow> int \<Rightarrow> int \<Rightarrow> int \<Rightarrow> int \<Rightarrow> unit km" where
  "sysioctl e dev cmd a flag = (\<lambda>s. e_cioctl e (u_ttyd (k_u s)) cmd a flag s)"

end
