(* ===== verification/Kctl.thy ===== *)
theory Kctl
  imports Sysfile
begin

section \<open>Kernel variables for programs (kernel/kctl.c)\<close>

text \<open>
  The call by which \<open>ps\<close>, \<open>pstat\<close> and their like read the kernel: a variable of the table by its name,
  the names, a variable's address and size, and one record per process.  The words of the kernel's
  variables are \<open>e_kwords\<close>, and the address and size of each row of the table come from the linker and the
  compiler (\<open>e_ksym\<close>).  The fields of a saved u-area are read through \<open>e_uread\<close>, as the switch reads them.
\<close>

abbreviation (input) KSYMLEN :: nat where "KSYMLEN \<equiv> 12"

definition ksym_names :: "string list" where
  "ksym_names = [''proc'', ''text'', ''inode'', ''file'', ''mount'', ''sc'', ''uhome'', ''lbolt'', ''time'',
     ''msgbuf'', ''msgbufp'', ''coremap'', ''swapmap'', ''nswap'', ''swplo'', ''swapdev'',
     ''dk_time'', ''dk_numb'', ''dk_wds'', ''tk_nin'', ''tk_nout'',
     ''nintr'', ''nsyscall'', ''ntrap'', ''nswtch'', ''nswapin'', ''nswapout'',
     ''ntextin'', ''ntextout'', ''ntextjoin'', ''niobulk'', ''nioedge'', ''nioshift'']"

definition ks_name :: "string \<Rightarrow> int list" where
  "ks_name n = map of_char n @ replicate (KSYMLEN - length n) 0"

definition ks_addr :: "env \<Rightarrow> nat \<Rightarrow> int" where
  "ks_addr e i = fst (snd (e_ksym e ! i))"

definition ks_size :: "env \<Rightarrow> nat \<Rightarrow> int" where
  "ks_size e i = snd (snd (e_ksym e ! i))"

primrec ksymname_loop :: "nat \<Rightarrow> int \<Rightarrow> int list \<Rightarrow> kst \<Rightarrow> int + int list" where
  "ksymname_loop 0 cp kn s = Inl EINVAL"
| "ksymname_loop (Suc n) cp kn s =
     (let c = fubyte (u_upt (k_u s)) (k_mem s) cp
      in if c < 0 then Inl EFAULT
         else if c = 0 then Inr (kn @ 0 # replicate n 0)
         else ksymname_loop n (cp + 1) (kn @ [c]) s)"

definition ksymname :: "kst \<Rightarrow> int + int list" where
  "ksymname s = ksymname_loop KSYMLEN (u_dirp (k_u s)) [] s"

definition ksymfind :: "int list \<Rightarrow> nat option" where
  "ksymfind kn = find (\<lambda>i. kn = ks_name (ksym_names ! i)) [0 ..< length ksym_names]"

text \<open>Bytes of the kernel words \<open>K\<close> from byte \<open>src\<close> to the user, with the copy's own counters.\<close>

definition give_bytes :: "(int \<Rightarrow> w48) \<Rightarrow> int \<Rightarrow> int \<Rightarrow> int \<Rightarrow> kst \<Rightarrow> int \<times> kst" where
  "give_bytes K src buf n s =
     (case copyoutb (u_upt (k_u s)) K src buf n (k_mem s) of
        (r, M, bulk, edge, shft) \<Rightarrow> (r, count_io bulk edge shft (s\<lparr>k_mem := M\<rparr>)))"

definition ksymout :: "(int \<Rightarrow> w48) \<Rightarrow> int \<Rightarrow> int \<Rightarrow> int \<Rightarrow> int \<Rightarrow> kst \<Rightarrow> kst" where
  "ksymout K src n buf len s =
     (if len \<le> 0 then set_val1 n s
      else
        (let n = min n len; (r, s) = give_bytes K src buf n s
         in if r < 0 then set_error EFAULT s else set_val1 n s))"

text \<open>The bytes of a list as the words of memory that hold them, the first at byte 0.\<close>

definition list_words :: "int list \<Rightarrow> int \<Rightarrow> w48" where
  "list_words cs w = fold (\<lambda>j v. set_wbyte v j
     (if 6 * nat w + j < length cs then word_of_int (cs ! (6 * nat w + j)) else 0)) [0 ..< 6] 0"

primrec ksymlist_loop :: "nat list \<Rightarrow> int \<Rightarrow> int \<Rightarrow> kst \<Rightarrow> kst" where
  "ksymlist_loop [] buf n s = set_val1 n s"
| "ksymlist_loop (r # rs) buf n s =
     (let i = 12 * int r; k = min 12 (n - i);
          (x, s) = give_bytes (list_words (ks_name (ksym_names ! r))) 0 (buf + i) k s
      in if x < 0 then set_error EFAULT s else ksymlist_loop rs buf n s)"

definition ksymlist :: "int \<Rightarrow> int \<Rightarrow> kst \<Rightarrow> kst" where
  "ksymlist buf len s =
     (let n = 12 * int (length ksym_names)
      in if len \<le> 0 then set_val1 n s
         else let n = min n len in ksymlist_loop [0 ..< nat ((n + 11) div 12)] buf n s)"

text \<open>A record of \<open>struct psinfo\<close>: four numbers and, in three words, the command's name.\<close>

definition psfill :: "env \<Rightarrow> kst \<Rightarrow> nat \<Rightarrow> w48 list" where
  "psfill e s i =
     (let p = k_proc s i;
          row = (\<lambda>t n c. [wval (p_pid p), wval t, wval n, c 0, c 1, c 2]);
          u = (if p_addr p = k_uhome s then k_u s else e_uread e (\<lambda>w. k_mem s (p_addr p + w)))
      in if p_stat p = SNONE \<or> p_stat p = SZOMB \<or> SLOAD \<notin> p_flag p then row 0 (-1) (\<lambda>_. 0)
         else row (u_utime u + u_stime u)
           (case u_ttyp u of None \<Rightarrow> -1 | Some t \<Rightarrow> if t < 2 then int t else -1) (u_comm u))"

primrec ksympsinfo_loop :: "env \<Rightarrow> nat list \<Rightarrow> int \<Rightarrow> int \<Rightarrow> kst \<Rightarrow> kst" where
  "ksympsinfo_loop e [] buf n s = set_val1 n s"
| "ksympsinfo_loop e (r # rs) buf n s =
     (let i = 36 * int r; k = min 36 (n - i); ws = psfill e s r
      in case copyout (u_upt (k_u s)) (\<lambda>j. ws ! nat j) 0 (buf + i) k (k_mem s) of
           (x, M) \<Rightarrow> if x < 0 then set_error EFAULT s else ksympsinfo_loop e rs buf n (s\<lparr>k_mem := M\<rparr>))"

definition ksympsinfo :: "env \<Rightarrow> int \<Rightarrow> int \<Rightarrow> kst \<Rightarrow> kst" where
  "ksympsinfo e buf len s =
     (let n = 36 * int NPROC
      in if len \<le> 0 then set_val1 n s
         else let n = min n len in ksympsinfo_loop e [0 ..< nat ((n + 35) div 36)] buf n s)"

definition kctl :: "env \<Rightarrow> unit km" where
  "kctl e s = Ret ()
     (let op = argi 1 s; buf = argc 2 s; len = argi 3 s
      in if op = 2 then ksymlist buf len s
         else if op = 4 then ksympsinfo e buf len s
         else case ksymname s of
           Inl er \<Rightarrow> set_error er s
         | Inr kn \<Rightarrow>
             (case ksymfind kn of
                None \<Rightarrow> set_error ENOENT s
              | Some i \<Rightarrow>
                  if op = 0 then ksymout (e_kwords e s) (6 * ks_addr e i) (ks_size e i) buf len s
                  else if op = 3 then
                    ksymout (\<lambda>j. [wval (ks_addr e i), wval (ks_size e i), 1] ! nat j) 0 18 buf len s
                  else set_error EINVAL s))"

end
