(* ===== verification/Gate.thy ===== *)
theory Gate
  imports Sysmisc Tty Kctl
begin

section \<open>The gates (kernel/syscall.c, kernel/sysent.c, kernel/trap.c, sysphys of kernel/machdep.c)\<close>

text \<open>
  A process enters the kernel by the extracode 077, by one of the other extracodes, or by a fault.  Its
  registers are in the frame \<open>u_ar0\<close>, which the return reloads.  The arguments of a system call lie on the
  user's stack, the last one in the accumulator; the result goes back through the accumulator and the
  registers 12 and 14.  A sleep that a signal ends jumps back to the gate (\<open>Jump\<close>).
\<close>

subsection \<open>Catching the jump\<close>

primrec catchr :: "('s, 'a) run \<Rightarrow> ('s \<Rightarrow> ('s, 'a) run) \<Rightarrow> ('s, 'a) run" where
  "catchr (Ret a s) h = Ret a s"
| "catchr (Panic m s) h = Panic m s"
| "catchr (Jump s) h = h s"
| "catchr (Swtch s k) h = Swtch s (\<lambda>s'. catchr (k s') h)"
| "catchr Hang h = Hang"

definition catch :: "('s \<Rightarrow> ('s, 'a) run) \<Rightarrow> ('s \<Rightarrow> ('s, 'a) run) \<Rightarrow> 's \<Rightarrow> ('s, 'a) run" where
  "catch m h s = catchr (m s) h"

subsection \<open>The table of system calls\<close>

definition nosys :: "unit km" where
  "nosys = modify (set_error EINVAL)"

definition nullsys :: "unit km" where
  "nullsys = ret ()"

definition sysphys :: "unit km" where
  "sysphys = bind (lift suser) (\<lambda>su. guard (su \<noteq> 0) (modify (set_error EINVAL)))"

definition sysent :: "env \<Rightarrow> (nat \<times> unit km) list" where
  "sysent e = [
     (0, nullsys), (1, rexit e), (0, fork e), (3, read_call e), (3, write_call e), (2, open_call e), (1, close e), (0, wait e),
     (2, creat e), (2, link e), (1, unlink e), (2, exec e), (1, chdir e), (0, gtime), (3, mknod e), (2, chmod e),
     (3, chown e), (1, sbreak e), (2, stat e), (3, seek), (0, getpid), (3, smount e), (1, sumount e), (1, setuid),
     (0, getuid), (1, stime), (4, ptrace e), (1, alarm), (2, fstat e), (0, pause e), (2, utime e), (2, stty e),
     (2, gtty e), (2, saccess e), (1, nice), (1, ftime), (0, sync e), (2, kill e), (0, nullsys), (0, nullsys),
     (1, nosys), (2, dup e), (0, pipe e), (1, times), (4, profil), (0, sigret), (1, setgid), (0, getgid),
     (2, ssig), (4, kctl e), (2, statfs e), (1, sysacct e), (3, sysphys), (1, syslock), (3, ioctl e), (0, nosys),
     (0, nosys), (0, nosys), (0, nosys), (3, exece e), (1, umask), (1, chroot e), (0, nosys), (0, nosys)]"

definition callp :: "env \<Rightarrow> int \<Rightarrow> nat \<times> unit km" where
  "callp e code = (if code < 64 then sysent e ! nat code else (0, nosys))"

subsection \<open>System calls\<close>

definition sysret :: "env \<Rightarrow> unit km" where
  "sysret e = seq [
     bind issig (\<lambda>n. guard (n \<noteq> 0) (psig e)),
     modify (\<lambda>s. let (p, s) = setpri (curproc s) s in s\<lparr>k_curpri := p\<rparr>),
     ifs (\<lambda>s. k_runrun s \<noteq> 0) (qswtch e) (ret ())]"

text \<open>Argument \<open>i\<close> of \<open>n\<close>: the last in the accumulator, the others below the stack pointer.\<close>

definition arg_word :: "nat \<Rightarrow> kst \<Rightarrow> nat \<Rightarrow> w48" where
  "arg_word n s i =
     (let R = u_ar0 (k_u s)
      in if Suc i = n then R RACC
         else fuword (u_upt (k_u s)) (k_mem s) (6 * ((ival (R R15) - (int n - 1) + int i) AND 32767)))"

definition marshal :: "nat \<Rightarrow> kst \<Rightarrow> kst" where
  "marshal n s =
     (let s1 = upd_u (\<lambda>u. u\<lparr>u_arg := (\<lambda>i. if i < n then arg_word n s i else u_arg u i)\<rparr>) s
      in if n \<ge> 2 then set_ar0 R15 (wval (ival (u_ar0 (k_u s) R15) - (int n - 1))) s1 else s1)"

definition call_init :: "kst \<Rightarrow> kst" where
  "call_init = upd_u (\<lambda>u. u\<lparr>u_dirp := cptr (u_arg u 0), u_val1 := 0, u_val2 := 0, u_justreturn := 0\<rparr>)"

definition give_result :: "kst \<Rightarrow> kst" where
  "give_result s =
     (if u_justreturn (k_u s) \<noteq> 0 then s
      else if uerr s \<noteq> 0 then set_ar0 R14 (wval (uerr s)) (set_ar0 RACC (wval (-1)) s)
      else set_ar0 R14 0 (set_ar0 R12 (wval (u_val2 (k_u s))) (set_ar0 RACC (wval (u_val1 (k_u s))) s)))"

definition interrupted :: "unit km" where
  "interrupted = modify (\<lambda>s. if uerr s = 0 then set_error EINTR s else s)"

definition syscall :: "env \<Rightarrow> unit km" where
  "syscall e s =
     (let (n, call) = callp e (uint (u_ar0 (k_u s) R14)) in seq [
        modify (\<lambda>s. upd_u (\<lambda>u. u\<lparr>u_error := 0\<rparr>) (s\<lparr>k_nsyscall := k_nsyscall s + 1\<rparr>)),
        modify (marshal n),
        modify call_init,
        catch call interrupted,
        modify give_result,
        sysret e] s)"

definition badextr :: "env \<Rightarrow> unit km" where
  "badextr e = seq [\<lambda>s. psignal e (curproc s) 4 s, sysret e]"

subsection \<open>Faults\<close>

abbreviation (input) GRP_OPRND_PROT :: w48 where "GRP_OPRND_PROT \<equiv> 0x80000"
abbreviation (input) GRP_INSN_PROT :: w48 where "GRP_INSN_PROT \<equiv> 0x2000"
abbreviation (input) GRP_ILL_INSN :: w48 where "GRP_ILL_INSN \<equiv> 0x1000"
abbreviation (input) GRP_INSN_CHECK :: w48 where "GRP_INSN_CHECK \<equiv> 0x4000"
abbreviation (input) GRP_BREAKPOINT :: w48 where "GRP_BREAKPOINT \<equiv> 0x800"
abbreviation (input) GRP_DIVZERO :: w48 where "GRP_DIVZERO \<equiv> 0x700000"
abbreviation (input) GRP_OVERFLOW :: w48 where "GRP_OVERFLOW \<equiv> 0x300000"
abbreviation (input) GRP_RAM_CHECK :: w48 where "GRP_RAM_CHECK \<equiv> 8"

text \<open>The machine saved the address of the next word: the frame is put back on the faulting one.\<close>

definition back_up :: "(nat \<Rightarrow> w48) \<Rightarrow> nat \<Rightarrow> w48" where
  "back_up R =
     (if R SPSW AND word_of_int SPSW_NEXT_RK \<noteq> 0
      then R(RET := wval (ival (R RET) - 1), SPSW := R SPSW AND NOT (word_of_int SPSW_NEXT_RK)) else R)"

definition fault_page :: "w48 \<Rightarrow> int" where
  "fault_page grp = uint (drop_bit 4 (grp AND 496))"

text \<open>The cause of a fault: the bits to clear, and the signal; none when nothing is pending.\<close>

definition fault_cause :: "w48 \<Rightarrow> (w48 \<times> int) option" where
  "fault_cause grp =
     (if grp AND GRP_OPRND_PROT \<noteq> 0 then Some (GRP_OPRND_PROT, 11)
      else if grp AND GRP_INSN_PROT \<noteq> 0 then Some (GRP_INSN_PROT, 11)
      else if grp AND GRP_ILL_INSN \<noteq> 0 then Some (GRP_ILL_INSN, 4)
      else if grp AND GRP_INSN_CHECK \<noteq> 0 then Some (GRP_INSN_CHECK, 4)
      else if grp AND GRP_BREAKPOINT \<noteq> 0 then Some (GRP_BREAKPOINT, 5)
      else if grp AND GRP_DIVZERO = GRP_DIVZERO then Some (GRP_DIVZERO OR GRP_RAM_CHECK, 8)
      else if grp AND GRP_OVERFLOW = GRP_OVERFLOW then Some (GRP_OVERFLOW OR GRP_RAM_CHECK, 8)
      else None)"

definition dumpregs :: "w48 \<Rightarrow> kst \<Rightarrow> kst" where
  "dumpregs grp s =
     (let R = u_ar0 (k_u s); w = (\<lambda>r. Pint (ival (R r)));
          page = (if grp AND GRP_OPRND_PROT \<noteq> 0 then fault_page grp else 0);
          s = printf (''acc=%o r13=%o r14=%o r15=%o'' @ NL) [w RACC, w R13, w R14, w R15] s;
          s = printf (''ret=%o spsw=%o grp=%o page=%o'' @ NL) [w RET, w SPSW, Pint (ival grp), Pint page] s
      in printf (''R=%o RMR=%o C=%o'' @ NL) [w RREG, w 2, w CREG] s)"

definition ktrap :: "env \<Rightarrow> unit km" where
  "ktrap e = seq [
     modify (upd_u (\<lambda>u. u\<lparr>u_ar0 := back_up (u_ar0 u)\<rparr>)),
     bind (modi e MOD_GRP 0) (\<lambda>grp. seq [
       modw e MOD_GRPCLR (NOT (GRP_DIVZERO OR GRP_OVERFLOW OR GRP_RAM_CHECK OR GRP_OPRND_PROT OR GRP_INSN_PROT OR
         GRP_ILL_INSN OR GRP_INSN_CHECK OR GRP_BREAKPOINT)),
       modify (dumpregs grp),
       panic ''kernel trap''])]"

definition trap_signal :: "env \<Rightarrow> int \<Rightarrow> unit km" where
  "trap_signal e i = seq [
     modify (printf (''** SIGNAL %d **'' @ NL) [Pint i]),
     (\<lambda>s. psignal e (curproc s) i s)]"

definition trap :: "env \<Rightarrow> unit km" where
  "trap e = seq [
     modify (\<lambda>s. upd_u (\<lambda>u. u\<lparr>u_ar0 := back_up (u_ar0 u)\<rparr>) (s\<lparr>k_ntrap := k_ntrap s + 1\<rparr>)),
     bind (modi e MOD_GRP 0) (\<lambda>grp. case fault_cause grp of
       None \<Rightarrow> seq [modify (dumpregs grp), panic ''trap'']
     | Some (bits, i) \<Rightarrow> seq [
         modw e MOD_GRPCLR (NOT bits),
         (if bits = GRP_OPRND_PROT then bind (grow e (fault_page grp)) (\<lambda>r. guard (r = 0) (trap_signal e i))
          else trap_signal e i)]),
     sysret e]"

definition stray :: "int \<Rightarrow> unit km" where
  "stray dev = modify (printf (''stray interrupt %d ignored'' @ NL) [Pint (dev AND NOT 32)])"

end
