(* ===== verification/Drum.thy ===== *)
theory Drum
  imports Bio Irq
begin

section \<open>The drum driver (kernel/dev/mb.c)\<close>

text \<open>
  The two drums are one space of sectors of 256 words.  A request is a chain of exchanges, each of
  one sector or of one whole zone, of which one at most is running; its control word names the
  drum, the zone, the sector and the quarter of the memory page.  The head of the queue is the
  device header \<open>mbtab\<close> (\<open>Dtab 1\<close>), whose fields \<open>b_actf\<close>, \<open>b_actl\<close> and \<open>b_active\<close> are \<open>av_forw\<close>, \<open>av_back\<close> and
  \<open>b_wcount\<close>.  What the exchange moves is the hardware's doing; the write cache drain
  (\<open>drainbrz\<close>) has no counterpart.  There are fewer buffer headers than \<open>DEVFUEL\<close>, so a pass over the queue
  ends within it.
\<close>

abbreviation (input) DEVFUEL :: nat where "DEVFUEL \<equiv> 24"
abbreviation (input) BUFBASE :: int where "BUFBASE \<equiv> 22528"
abbreviation (input) MBSECT :: int where "MBSECT \<equiv> 256"
abbreviation (input) MBSPP :: int where "MBSPP \<equiv> 4"
abbreviation (input) MBSPB :: int where "MBSPB \<equiv> 2"
abbreviation (input) MBNZONE :: int where "MBNZONE \<equiv> 256"
abbreviation (input) MBNSECT :: int where "MBNSECT \<equiv> 2048"
abbreviation (input) CW_PAGE_MODE :: int where "CW_PAGE_MODE \<equiv> 0x40000"
abbreviation (input) CW_READ :: int where "CW_READ \<equiv> 0x20000"
abbreviation (input) mbtab :: bufp where "mbtab \<equiv> Dtab 1"

definition bufpaddr :: "bufp \<Rightarrow> kst \<Rightarrow> int" where
  "bufpaddr bp s =
     (if B_PHYS \<in> b_flags (k_buf s bp) then b_paddr (k_buf s bp)
      else case bp of Buf i \<Rightarrow> BUFBASE + BSIZEW * int i | _ \<Rightarrow> 0)"

definition cwpage :: "int \<Rightarrow> int" where
  "cwpage pg = push_bit 12 (pg AND 31) OR push_bit 23 (drop_bit 5 pg AND 15)"

text \<open>A request is failed at once: all of it is left over.\<close>

definition refuse :: "env \<Rightarrow> bufp \<Rightarrow> unit km" where
  "refuse e bp = seq [
     modify (\<lambda>s. upd_buf bp (\<lambda>b. b\<lparr>b_flags := insert B_ERROR (b_flags b), b_resid := b_wcount b\<rparr>) s),
     iodone e bp]"

definition enqueue :: "bufp \<Rightarrow> bufp \<Rightarrow> kst \<Rightarrow> kst" where
  "enqueue tab bp s =
     (let s = upd_buf bp (\<lambda>b. b\<lparr>av_forw := Nobuf\<rparr>) s;
          s = (if av_forw (k_buf s tab) = Nobuf then upd_buf tab (\<lambda>b. b\<lparr>av_forw := bp\<rparr>) s
               else upd_buf (av_back (k_buf s tab)) (\<lambda>b. b\<lparr>av_forw := bp\<rparr>) s)
      in upd_buf tab (\<lambda>b. b\<lparr>av_back := bp\<rparr>) s)"

definition upd_mb :: "(mbst \<Rightarrow> mbst) \<Rightarrow> kst \<Rightarrow> kst" where
  "upd_mb f s = s\<lparr>k_mb := f (k_mb s)\<rparr>"

definition mbopen :: "int \<Rightarrow> int \<Rightarrow> unit km" where
  "mbopen dev rw = guard (minor dev \<noteq> 0) (modify (set_error ENXIO))"

text \<open>The drum, the control word and the length of the next exchange of a request.\<close>

definition mb_exchange :: "bool \<Rightarrow> int \<Rightarrow> int \<Rightarrow> int \<Rightarrow> int \<times> int \<times> int" where
  "mb_exchange rd pa sec left =
     (let ctlr = sec div (MBNZONE * MBSPP); zone = sec div MBSPP mod MBNZONE;
          cw = (cwpage (drop_bit 10 pa) OR push_bit 2 zone) OR (if rd then CW_READ else 0)
      in if sec mod MBSPP = 0 \<and> pa AND (PGSZ - 1) = 0 \<and> left \<ge> PGSZ then (ctlr, cw OR CW_PAGE_MODE, PGSZ)
         else (ctlr, cw OR (push_bit 10 (drop_bit 8 pa AND 3) OR sec mod MBSPP), MBSECT))"

definition mb_arm :: "env \<Rightarrow> int \<Rightarrow> unit km" where
  "mb_arm e ctlr s =
     (let bit = drop_bit (nat ctlr) GRP_DRUM1_FREE; old = mbarm (k_mb s) in seq [
        guard (old \<noteq> 0 \<and> old \<noteq> bit) (mgrpoff e old),
        modify (upd_mb (\<lambda>m. m\<lparr>mbarm := bit\<rparr>)),
        mgrpon e bit,
        modify (upd_buf mbtab (\<lambda>b. b\<lparr>b_wcount := 1\<rparr>)),
        modify (\<lambda>s. s\<lparr>k_dk_busy := k_dk_busy s OR 2\<rparr>)] s)"

definition mb_idle :: "env \<Rightarrow> unit km" where
  "mb_idle e s =
     (let old = mbarm (k_mb s) in seq [
        guard (old \<noteq> 0) (seq [mgrpoff e old, modify (upd_mb (\<lambda>m. m\<lparr>mbarm := 0\<rparr>))]),
        modify (upd_buf mbtab (\<lambda>b. b\<lparr>b_wcount := 0\<rparr>)),
        modify (\<lambda>s. s\<lparr>k_dk_busy := k_dk_busy s AND NOT 2\<rparr>)] s)"

primrec mbstart_loop :: "env \<Rightarrow> nat \<Rightarrow> unit km" where
  "mbstart_loop e 0 = hang"
| "mbstart_loop e (Suc n) = (\<lambda>s.
     let bp = av_forw (k_buf s mbtab); b = k_buf s bp; done = mbdone (k_mb s);
         (ctlr, cw, nw) = mb_exchange (B_READ \<in> b_flags b) (bufpaddr bp s + done) (b_blkno b * MBSPB + done div MBSECT)
                            (b_wcount b - done)
     in if bp = Nobuf then mb_idle e s
        else seq [
          modify (upd_mb (\<lambda>m. m\<lparr>mbnw := nw\<rparr>)),
          outp e (ctlr + 1) (word_of_int cw),
          bind (ext e EXT_IOERR 0) (\<lambda>w.
            if w AND drop_bit (nat ctlr) 64 = 0 then mb_arm e ctlr
            else seq [
              modify (upd_buf bp (\<lambda>b. b\<lparr>b_flags := insert B_ERROR (b_flags b), b_resid := b_wcount b - done\<rparr>)),
              modify (upd_mb (\<lambda>m. m\<lparr>mbdone := 0\<rparr>)),
              modify (\<lambda>s. upd_buf mbtab (\<lambda>t. t\<lparr>av_forw := av_forw (k_buf s bp)\<rparr>) s),
              iodone e bp,
              mbstart_loop e n])] s)"

definition mbstart :: "env \<Rightarrow> unit km" where
  "mbstart e = mbstart_loop e DEVFUEL"

definition mb_ok :: "bufp \<Rightarrow> kst \<Rightarrow> bool" where
  "mb_ok bp s \<longleftrightarrow>
     (let b = k_buf s bp
      in \<not> (b_wcount b = 0 \<or> b_wcount b AND (MBSECT - 1) \<noteq> 0) \<and> bufpaddr bp s AND (MBSECT - 1) = 0 \<and>
         \<not> b_blkno b < 0 \<and> \<not> b_blkno b * MBSPB + b_wcount b div MBSECT > MBNSECT)"

definition mbstrategy :: "env \<Rightarrow> bufp \<Rightarrow> unit km" where
  "mbstrategy e bp = ifs (mb_ok bp)
     (seq [
       modify (enqueue mbtab bp),
       ifs (\<lambda>s. b_wcount (k_buf s mbtab) = 0) (mbstart e) (ret ())])
     (refuse e bp)"

definition mbintr :: "env \<Rightarrow> unit km" where
  "mbintr e = ifs (\<lambda>s. b_wcount (k_buf s mbtab) = 0)
     (seq [mgrpoff e (GRP_DRUM1_FREE OR GRP_DRUM2_FREE), modify (upd_mb (\<lambda>m. m\<lparr>mbarm := 0\<rparr>))])
     (\<lambda>s. let bp = av_forw (k_buf s mbtab) in seq [
        modify (\<lambda>s. s\<lparr>k_dk_numb := (k_dk_numb s)(1 := k_dk_numb s 1 + 1),
          k_dk_wds := (k_dk_wds s)(1 := k_dk_wds s 1 + mbnw (k_mb s))\<rparr>),
        modify (upd_mb (\<lambda>m. m\<lparr>mbdone := mbdone m + mbnw m\<rparr>)),
        ifs (\<lambda>s. mbdone (k_mb s) < b_wcount (k_buf s bp)) (mbstart e) (seq [
          modify (upd_mb (\<lambda>m. m\<lparr>mbdone := 0\<rparr>)),
          modify (upd_buf bp (\<lambda>b. b\<lparr>b_resid := 0\<rparr>)),
          modify (\<lambda>s. upd_buf mbtab (\<lambda>t. t\<lparr>av_forw := av_forw (k_buf s bp)\<rparr>) s),
          iodone e bp,
          mbstart e])] s)"

definition mbread :: "env \<Rightarrow> int \<Rightarrow> unit km" where
  "mbread e dev = physio e (mbstrategy e) (Rawbuf 1) dev {B_READ}"

definition mbwrite :: "env \<Rightarrow> int \<Rightarrow> unit km" where
  "mbwrite e dev = physio e (mbstrategy e) (Rawbuf 1) dev {}"

end
