(* ===== verification/Disk.thy ===== *)
theory Disk
  imports Drum Prf
begin

section \<open>The disk driver (kernel/dev/md.c)\<close>

text \<open>
  A disk exchange takes four instructions: group, drive, control word, track address; the last one
  starts it.  It moves one half-zone of 512 words or one zone of 1024.  A drive that refuses the
  exchange ends the request at once, one that failed in it interrupts all the same and is asked
  again, up to \<open>MDRETRY\<close> times.  The service words of the two controllers are the words 030 to 047 of memory.
  The head of the queue is \<open>mdtab\<close> (\<open>Dtab 0\<close>), with the fields renamed as for the drum and \<open>b_errcnt\<close> for
  \<open>b_resid\<close>.
\<close>

abbreviation (input) MDTRACK :: int where "MDTRACK \<equiv> 512"
abbreviation (input) MDTPZ :: int where "MDTPZ \<equiv> 2"
abbreviation (input) MDNBLK :: int where "MDNBLK \<equiv> 2000"
abbreviation (input) MDNUNIT :: int where "MDNUNIT \<equiv> 64"
abbreviation (input) MDSYS :: int where "MDSYS \<equiv> 24"
abbreviation (input) MDRETRY :: int where "MDRETRY \<equiv> 10"
abbreviation (input) DISK_HALFPAGE :: int where "DISK_HALFPAGE \<equiv> 0x800"
abbreviation (input) MDST_READY :: int where "MDST_READY \<equiv> 256"
abbreviation (input) MDST_READONLY :: int where "MDST_READONLY \<equiv> 0x80000"
abbreviation (input) mdtab :: bufp where "mdtab \<equiv> Dtab 0"

definition upd_md :: "(mdst \<Rightarrow> mdst) \<Rightarrow> kst \<Rightarrow> kst" where
  "upd_md f s = s\<lparr>k_md := f (k_md s)\<rparr>"

definition mdstat :: "env \<Rightarrow> int \<Rightarrow> w48 \<Rightarrow> w48 km" where
  "mdstat e ctlr cmd = andthen (outp e (ctlr + 19) cmd) (ext e (ctlr + 0x803) 0)"

text \<open>The control word, the track address and the length of the next exchange.\<close>

definition md_exchange :: "bool \<Rightarrow> int \<Rightarrow> int \<Rightarrow> int \<Rightarrow> int \<times> int \<times> int" where
  "md_exchange rd pa blk left =
     (let zone = blk div MDTPZ; track = blk mod MDTPZ;
          cw = cwpage (drop_bit 10 pa) OR (if rd then CW_READ else 0);
          cmd = (0x800 OR push_bit 1 zone) OR track
      in if track = 0 \<and> pa AND (PGSZ - 1) = 0 \<and> left \<ge> PGSZ then (cw OR CW_PAGE_MODE, cmd, PGSZ)
         else (if pa AND MDTRACK \<noteq> 0 then cw OR DISK_HALFPAGE else cw, cmd, MDTRACK))"

text \<open>The sector header that a write puts on the pack: the address and the mark of the volume.\<close>

definition md_header :: "int \<Rightarrow> int \<Rightarrow> bool \<Rightarrow> w48 \<Rightarrow> (int \<Rightarrow> w48) \<Rightarrow> int \<Rightarrow> w48" where
  "md_header ctlr blk whole vol M =
     (let sys = MDSYS + ctlr * 8; zone = blk div MDTPZ; track = blk mod MDTPZ
      in if whole then
           M(sys := push_bit 36 (word_of_int (zone * MDTPZ)), sys + 4 := push_bit 36 (word_of_int (zone * MDTPZ + 1)),
             sys + 1 := vol, sys + 4 + 1 := vol)
         else M(sys + track * 4 := push_bit 36 (word_of_int blk), sys + track * 4 + 1 := vol))"

definition md_arm :: "env \<Rightarrow> int \<Rightarrow> unit km" where
  "md_arm e ctlr s =
     (let bit = drop_bit (nat ctlr) GRP_CHAN3_FREE; old = mdarm (k_md s) in seq [
        guard (old \<noteq> 0 \<and> old \<noteq> bit) (mgrpoff e old),
        modify (upd_md (\<lambda>m. m\<lparr>mdarm := bit\<rparr>)),
        mgrpon e bit,
        modify (upd_buf mdtab (\<lambda>b. b\<lparr>b_wcount := 1\<rparr>)),
        modify (\<lambda>s. s\<lparr>k_dk_busy := k_dk_busy s OR 1\<rparr>)] s)"

definition md_idle :: "env \<Rightarrow> unit km" where
  "md_idle e s =
     (let old = mdarm (k_md s) in seq [
        guard (old \<noteq> 0) (seq [mgrpoff e old, modify (upd_md (\<lambda>m. m\<lparr>mdarm := 0\<rparr>))]),
        modify (upd_buf mdtab (\<lambda>b. b\<lparr>b_wcount := 0\<rparr>)),
        modify (\<lambda>s. s\<lparr>k_dk_busy := k_dk_busy s AND NOT 1\<rparr>)] s)"

text \<open>The request at the head of the queue is given up.\<close>

definition md_fail :: "env \<Rightarrow> bufp \<Rightarrow> unit km" where
  "md_fail e bp = seq [
     modify (\<lambda>s. deverror bp (mdstatus (k_md s)) (b_resid (k_buf s mdtab)) s),
     modify (\<lambda>s. upd_buf bp (\<lambda>b. b\<lparr>b_flags := insert B_ERROR (b_flags b), b_resid := b_wcount b - mddone (k_md s)\<rparr>) s),
     modify (upd_md (\<lambda>m. m\<lparr>mddone := 0\<rparr>)),
     modify (\<lambda>s. upd_buf mdtab (\<lambda>t. t\<lparr>b_resid := 0, av_forw := av_forw (k_buf s bp)\<rparr>) s),
     iodone e bp]"

text \<open>The four instructions of an exchange.\<close>

definition md_issue :: "env \<Rightarrow> int \<Rightarrow> int \<Rightarrow> int \<Rightarrow> unit km" where
  "md_issue e dev cw cmd =
     (let ctlr = drop_bit 5 dev; group = drop_bit 3 dev AND 3; unit = dev AND 7 in seq [
        outp e (ctlr + 19) (word_of_int (0x300 OR group)),
        outp e (ctlr + 19) (word_of_int (0x400 OR push_bit (nat unit) 1)),
        outp e (ctlr + 3) (word_of_int cw),
        outp e (ctlr + 19) (word_of_int cmd)])"

definition md_status :: "env \<Rightarrow> int \<Rightarrow> unit km" where
  "md_status e ctlr = bind (mdstat e ctlr 9) (\<lambda>lo. bind (mdstat e ctlr 25) (\<lambda>hi.
     modify (upd_md (\<lambda>m. m\<lparr>mdstatus := (uint lo AND 4095) OR push_bit 12 (uint hi AND 4095)\<rparr>))))"

primrec mdstart_loop :: "env \<Rightarrow> nat \<Rightarrow> unit km" where
  "mdstart_loop e 0 = hang"
| "mdstart_loop e (Suc n) = (\<lambda>s.
     let bp = av_forw (k_buf s mdtab); b = k_buf s bp; done = mddone (k_md s); dev = minor (b_dev b);
         ctlr = drop_bit 5 dev; blk = b_blkno b + done div MDTRACK; rd = B_READ \<in> b_flags b;
         (cw, cmd, nw) = md_exchange rd (bufpaddr bp s + done) blk (b_wcount b - done)
     in if bp = Nobuf then md_idle e s
        else seq [
          modify (upd_md (\<lambda>m. m\<lparr>mdnw := nw\<rparr>)),
          guard (\<not> rd) (modify (\<lambda>s. s\<lparr>k_mem :=
            md_header ctlr blk (cw AND CW_PAGE_MODE \<noteq> 0) (mdvol (k_md s) (nat dev)) (k_mem s)\<rparr>)),
          md_issue e dev cw cmd,
          modify (upd_md (\<lambda>m. m\<lparr>mderr := 0\<rparr>)),
          bind (ext e EXT_IOERR 0) (\<lambda>w.
            if w AND drop_bit (nat ctlr) 16 = 0 then md_arm e ctlr
            else seq [
              md_status e ctlr,
              ifs (\<lambda>s. mdstatus (k_md s) AND MDST_READY = 0 \<or> \<not> rd \<and> mdstatus (k_md s) AND MDST_READONLY \<noteq> 0)
                (seq [md_fail e bp, mdstart_loop e n])
                (seq [modify (upd_md (\<lambda>m. m\<lparr>mderr := 1\<rparr>)), md_arm e ctlr])])] s)"

definition mdstart :: "env \<Rightarrow> unit km" where
  "mdstart e = mdstart_loop e DEVFUEL"

definition md_ok :: "bufp \<Rightarrow> kst \<Rightarrow> bool" where
  "md_ok bp s \<longleftrightarrow>
     (let b = k_buf s bp
      in \<not> (b_wcount b = 0 \<or> b_wcount b AND (MDTRACK - 1) \<noteq> 0) \<and> bufpaddr bp s AND (MDTRACK - 1) = 0 \<and>
         \<not> b_blkno b < 0 \<and> \<not> minor (b_dev b) \<ge> MDNUNIT \<and> \<not> b_blkno b + b_wcount b div MDTRACK > MDNBLK)"

definition mdstrategy :: "env \<Rightarrow> bufp \<Rightarrow> unit km" where
  "mdstrategy e bp = ifs (md_ok bp)
     (seq [
       ifs (\<lambda>s. av_forw (k_buf s mdtab) = Nobuf) (modify (upd_md (\<lambda>m. m\<lparr>mdretries := 0\<rparr>))) (ret ()),
       modify (enqueue mdtab bp),
       ifs (\<lambda>s. b_wcount (k_buf s mdtab) = 0) (mdstart e) (ret ())])
     (refuse e bp)"

definition mdlabel :: "env \<Rightarrow> int \<Rightarrow> unit km" where
  "mdlabel e dev = ifs (\<lambda>s. mdvol (k_md s) (nat (minor dev)) \<noteq> 0) (ret ())
     (bind (geteblk e) (\<lambda>bp. seq [
        modify (upd_buf bp (\<lambda>b. b\<lparr>b_dev := dev, b_blkno := 0, b_wcount := BSIZEW, b_flags := insert B_READ (b_flags b)\<rparr>)),
        mdstrategy e bp,
        bind (gets uerr) (\<lambda>oerr. seq [iowait e bp, modify (upd_u (\<lambda>u. u\<lparr>u_error := oerr\<rparr>))]),
        modify (upd_buf bp (\<lambda>b. b\<lparr>b_dev := NODEV\<rparr>)),
        brelse e bp]))"

definition mdopen :: "env \<Rightarrow> int \<Rightarrow> int \<Rightarrow> unit km" where
  "mdopen e dev rw =
     (if minor dev \<ge> MDNUNIT then modify (set_error ENXIO) else guard (rw \<noteq> 0) (mdlabel e dev))"

text \<open>A chunk has landed: a read brings the volume's mark, and the counters move on.\<close>

definition md_landed :: "bufp \<Rightarrow> kst \<Rightarrow> kst" where
  "md_landed bp s =
     (let s = upd_buf mdtab (\<lambda>t. t\<lparr>b_resid := 0\<rparr>) s;
          b = k_buf s bp; dev = minor (b_dev b); blk = b_blkno b + mddone (k_md s) div MDTRACK;
          vol = k_mem s (MDSYS + drop_bit 5 dev * 8 + blk mod MDTPZ * 4 + 1);
          s = (if B_READ \<in> b_flags b then upd_md (\<lambda>m. m\<lparr>mdvol := (mdvol m)(nat dev := vol)\<rparr>) s else s);
          s = s\<lparr>k_dk_numb := (k_dk_numb s)(0 := k_dk_numb s 0 + 1),
                k_dk_wds := (k_dk_wds s)(0 := k_dk_wds s 0 + mdnw (k_md s))\<rparr>
      in upd_md (\<lambda>m. m\<lparr>mddone := mddone m + mdnw m\<rparr>) s)"

definition mdintr :: "env \<Rightarrow> unit km" where
  "mdintr e = ifs (\<lambda>s. b_wcount (k_buf s mdtab) = 0)
     (seq [mgrpoff e (GRP_CHAN3_FREE OR GRP_CHAN4_FREE), modify (upd_md (\<lambda>m. m\<lparr>mdarm := 0\<rparr>))])
     (\<lambda>s. let bp = av_forw (k_buf s mdtab) in
        ifs (\<lambda>s. mderr (k_md s) \<noteq> 0)
          (seq [
            modify (upd_md (\<lambda>m. m\<lparr>mderr := 0\<rparr>)),
            modify (upd_buf mdtab (\<lambda>t. t\<lparr>b_resid := b_resid t + 1\<rparr>)),
            ifs (\<lambda>s. b_resid (k_buf s mdtab) \<le> MDRETRY)
              (seq [modify (upd_md (\<lambda>m. m\<lparr>mdretries := mdretries m + 1\<rparr>)), mdstart e])
              (seq [md_fail e bp, mdstart e])])
          (seq [
            modify (md_landed bp),
            ifs (\<lambda>s. mddone (k_md s) < b_wcount (k_buf s bp)) (mdstart e) (seq [
              modify (upd_md (\<lambda>m. m\<lparr>mddone := 0\<rparr>)),
              modify (upd_buf bp (\<lambda>b. b\<lparr>b_resid := 0\<rparr>)),
              modify (\<lambda>s. upd_buf mdtab (\<lambda>t. t\<lparr>av_forw := av_forw (k_buf s bp)\<rparr>) s),
              iodone e bp,
              mdstart e])]) s)"

definition mdread :: "env \<Rightarrow> int \<Rightarrow> unit km" where
  "mdread e dev = physio e (mdstrategy e) (Rawbuf 0) dev {B_READ}"

definition mdwrite :: "env \<Rightarrow> int \<Rightarrow> unit km" where
  "mdwrite e dev = physio e (mdstrategy e) (Rawbuf 0) dev {}"

end
