(* ===== verification/Queues.thy ===== *)
theory Queues
  imports Sched
begin

section \<open>The sleep queues and the run queue\<close>

text \<open>
  The invariant \<open>queues\<close> of the process table: each bucket of \<open>slpque\<close> is a finite list of
  exactly the processes that sleep on a channel of that bucket, and the run queue is one of
  runnable processes, none of which sleeps.  The lemmas follow \<open>wakeup\<close>, \<open>setrun\<close> and
  \<open>sleep\<close> through it.
\<close>

subsection \<open>Lists linked through p\_link\<close>

text \<open>\<open>seg P a xs b\<close>: following \<open>p_link\<close> from \<open>a\<close> passes through \<open>xs\<close> and arrives at \<open>b\<close>.\<close>

fun seg :: "(nat \<Rightarrow> proc) \<Rightarrow> nat option \<Rightarrow> nat list \<Rightarrow> nat option \<Rightarrow> bool" where
  "seg P a [] b = (a = b)"
| "seg P a (x # xs) b = (a = Some x \<and> seg P (p_link (P x)) xs b)"

lemma seg_append: "seg P a (xs @ ys) c \<longleftrightarrow> (\<exists>b. seg P a xs b \<and> seg P b ys c)"
  by (induction xs arbitrary: a) auto

lemma seg_cong: "(\<And>x. x \<in> set xs \<Longrightarrow> p_link (P x) = p_link (P' x)) \<Longrightarrow> seg P a xs b = seg P' a xs b"
  by (induction xs arbitrary: a) auto

lemma seg_upd_other [simp]: "p \<notin> set xs \<Longrightarrow> seg (P(p := r)) a xs b = seg P a xs b"
  by (rule seg_cong) auto

lemma seg_unlink:
  assumes "seg P a (pre @ p # rest) None" "distinct (pre @ p # rest)" "pre \<noteq> []"
  shows "seg (P(last pre := (P (last pre))\<lparr>p_link := p_link (P p)\<rparr>)) a (pre @ rest) None"
proof -
  obtain xs q where pre: "pre = xs @ [q]" using assms(3) by (metis rev_exhaust)
  from assms(1,2) show ?thesis
    unfolding pre by (auto simp: seg_append)
qed

lemma on_runq_seg:
  "seg P a xs None \<Longrightarrow> length xs < f \<Longrightarrow> on_runq f P a p = Some (p \<in> set xs)"
proof (induction xs arbitrary: a f)
  case Nil
  then show ?case by (cases f) auto
next
  case (Cons x xs)
  then show ?case by (cases f) auto
qed

subsection \<open>The invariant\<close>

definition queues_on :: "env \<Rightarrow> (nat \<Rightarrow> proc) \<Rightarrow> (nat \<Rightarrow> nat option) \<Rightarrow> nat option \<Rightarrow> (nat \<Rightarrow> nat list) \<Rightarrow> nat list \<Rightarrow> bool" where
  "queues_on e P S r Q R \<longleftrightarrow>
     (\<forall>h. seg P (S h) (Q h) None) \<and> seg P r R None \<and>
     (\<forall>h. distinct (Q h)) \<and> distinct R \<and>
     (\<forall>h p. p \<in> set (Q h) \<longleftrightarrow> p < NPROC \<and> (\<exists>c. p_wchan (P p) = Some c \<and> hash e c = h)) \<and>
     (\<forall>p < NPROC. p_wchan (P p) \<noteq> None \<longrightarrow> p_stat (P p) = SSLEEP) \<and>
     (\<forall>p \<in> set R. p < NPROC \<and> p_stat (P p) = SRUN \<and> p_wchan (P p) = None)"

abbreviation queues :: "env \<Rightarrow> kst \<Rightarrow> (nat \<Rightarrow> nat list) \<Rightarrow> nat list \<Rightarrow> bool" where
  "queues e s \<equiv> queues_on e (k_proc s) (k_slpque s) (k_runq s)"

lemma length_bound: "distinct xs \<Longrightarrow> (\<And>p. p \<in> set xs \<Longrightarrow> p < n) \<Longrightarrow> length xs \<le> n" for xs :: "nat list"
  using card_mono[of "{..<n}" "set xs"] by (auto simp: distinct_card[symmetric])

lemma queuesD:
  assumes "queues_on e P S r Q R"
  shows "seg P (S h) (Q h) None" "seg P r R None" "distinct (Q h)" "distinct R"
    and "p \<in> set (Q h) \<Longrightarrow> p < NPROC" "p \<in> set (Q h) \<Longrightarrow> \<exists>c. p_wchan (P p) = Some c \<and> hash e c = h"
    and "p < NPROC \<Longrightarrow> p_wchan (P p) = Some c \<Longrightarrow> p \<in> set (Q (hash e c))"
    and "p < NPROC \<Longrightarrow> p_wchan (P p) \<noteq> None \<Longrightarrow> p_stat (P p) = SSLEEP"
    and "p \<in> set R \<Longrightarrow> p < NPROC" "p \<in> set R \<Longrightarrow> p_stat (P p) = SRUN" "p \<in> set R \<Longrightarrow> p_wchan (P p) = None"
    and "p \<in> set (Q h) \<Longrightarrow> p \<notin> set R"
  using assms unfolding queues_on_def by (blast, blast, blast, blast, blast, blast, blast, blast, blast, blast, blast, fastforce)

lemma queues_length:
  assumes "queues_on e P S r Q R"
  shows "length (Q h) \<le> NPROC" and "length R \<le> NPROC"
  using assms unfolding queues_on_def by (auto intro!: length_bound)

text \<open>Waking one process: unlinking it from its bucket and putting it on the run queue.\<close>

definition unlinked :: "(nat \<Rightarrow> proc) \<Rightarrow> nat list \<Rightarrow> nat \<Rightarrow> nat \<Rightarrow> proc" where
  "unlinked P pre p = (if pre = [] then P else P(last pre := (P (last pre))\<lparr>p_link := p_link (P p)\<rparr>))"

definition runnable :: "proc \<Rightarrow> nat option \<Rightarrow> proc" where
  "runnable r l = r\<lparr>p_wchan := None, p_stat := SRUN, p_link := l\<rparr>"

lemma unlinked_simps [simp]:
  "p_wchan (unlinked P pre p x) = p_wchan (P x)" "p_stat (unlinked P pre p x) = p_stat (P x)"
  "p_flag (unlinked P pre p x) = p_flag (P x)"
  by (auto simp: unlinked_def)

lemma seg_unlinked_other:
  "set pre \<inter> set xs = {} \<Longrightarrow> seg (unlinked P pre p) a xs b = seg P a xs b"
  by (rule seg_cong) (auto simp: unlinked_def dest: last_in_set)

lemma queues_wake:
  assumes q: "queues_on e P S r Q R" and Qh: "Q h = pre @ p # rest"
  shows "queues_on e ((unlinked P pre p)(p := runnable (unlinked P pre p p) r))
           (if pre = [] then S(h := p_link (P p)) else S) (Some p) (Q(h := pre @ rest)) (p # R)"
    (is "queues_on e ?P ?S _ ?Q _")
proof -
  note d = q[unfolded queues_on_def]
  have dis: "distinct (pre @ p # rest)" using d Qh by metis
  have disj: "x \<notin> set (Q i)" if "x \<in> set (Q h)" "i \<noteq> h" for x i
    using d that by (metis option.inject)
  have pR: "x \<notin> set R" if "x \<in> set (Q i)" for x i
    using d that by (metis option.distinct(1))
  have sh: "seg P (S h) (pre @ p # rest) None" using d Qh by metis
  have seg_h: "seg ?P (?S h) (pre @ rest) None"
  proof (cases "pre = []")
    case True
    with sh dis show ?thesis by (auto simp: unlinked_def)
  next
    case False
    with seg_unlink[OF sh dis False] dis show ?thesis by (auto simp: unlinked_def)
  qed
  have seg_i: "seg ?P (?S i) (Q i) None" if "i \<noteq> h" for i
  proof -
    have "set pre \<inter> set (Q i) = {}" "p \<notin> set (Q i)" using disj[OF _ that] Qh by auto
    moreover have "seg P (S i) (Q i) None" using d by blast
    ultimately show ?thesis using that by (auto simp: seg_unlinked_other)
  qed
  have seg_r: "seg ?P (Some p) (p # R) None"
  proof -
    have "set pre \<inter> set R = {}" "p \<notin> set R" using pR[of _ h] Qh by auto
    moreover have "seg P r R None" using d by blast
    ultimately show ?thesis by (auto simp: runnable_def seg_unlinked_other)
  qed
  have mem: "x \<in> set (?Q i) \<longleftrightarrow> x < NPROC \<and> (\<exists>c. p_wchan (?P x) = Some c \<and> hash e c = i)" for x i
  proof (cases "x = p")
    case True
    with dis disj[of p i] Qh show ?thesis by (auto simp: runnable_def)
  next
    case False
    have "x \<in> set (?Q i) \<longleftrightarrow> x \<in> set (Q i)" using False Qh by auto
    with False d show ?thesis by (simp add: runnable_def)
  qed
  have "p < NPROC" using d Qh by (metis in_set_conv_decomp)
  moreover have "distinct (?Q i)" for i using d dis by auto
  moreover have "distinct (p # R)" using d pR[of p h] Qh by auto
  moreover have "p_stat (?P x) = SSLEEP" if "x < NPROC" "p_wchan (?P x) \<noteq> None" for x
    using that d by (auto simp: runnable_def split: if_splits)
  moreover have "x < NPROC \<and> p_stat (?P x) = SRUN \<and> p_wchan (?P x) = None" if "x \<in> set (p # R)" for x
    using that d \<open>p < NPROC\<close> by (auto simp: runnable_def)
  ultimately show ?thesis
    unfolding queues_on_def using seg_h seg_i seg_r mem by auto
qed

subsection \<open>What wakeup does\<close>

text \<open>\<open>woken X P P'\<close>: the processes of \<open>X\<close> have become runnable, and nothing but \<open>p_link\<close> has changed
  otherwise.  \<open>sched_only\<close>: the rest of the kernel is untouched.\<close>

definition woken :: "nat set \<Rightarrow> (nat \<Rightarrow> proc) \<Rightarrow> (nat \<Rightarrow> proc) \<Rightarrow> bool" where
  "woken X P P' \<longleftrightarrow> (\<forall>x. P' x =
     (if x \<in> X then (P x)\<lparr>p_wchan := None, p_stat := SRUN\<rparr> else P x)\<lparr>p_link := p_link (P' x)\<rparr>)"

definition sched_only :: "kst \<Rightarrow> kst \<Rightarrow> bool" where
  "sched_only s s' \<longleftrightarrow> (\<exists>P S r a b. s' = s\<lparr>k_proc := P, k_slpque := S, k_runq := r, k_runrun := a, k_runout := b\<rparr>)"

lemma sched_only_trans: "sched_only s s' \<Longrightarrow> sched_only s' s'' \<Longrightarrow> sched_only s s''"
  unfolding sched_only_def by (elim exE) (simp, blast)

lemma sched_only_runout: "sched_only s s' \<Longrightarrow> sched_only s (s'\<lparr>k_runout := v\<rparr>)"
  unfolding sched_only_def by (elim exE) (simp, blast)

lemma sched_only_refl [simp]: "sched_only s s"
  proof -
  have "s = s\<lparr>k_proc := k_proc s, k_slpque := k_slpque s, k_runq := k_runq s, k_runrun := k_runrun s,
    k_runout := k_runout s\<rparr>" by simp
  then show ?thesis unfolding sched_only_def by blast
qed

lemma wokenD:
  assumes "woken X P P'"
  shows "p_wchan (P' x) = (if x \<in> X then None else p_wchan (P x))"
    and "p_stat (P' x) = (if x \<in> X then SRUN else p_stat (P x))"
    and "p_flag (P' x) = p_flag (P x)" and "p_pri (P' x) = p_pri (P x)"
    and "p_sig (P' x) = p_sig (P x)"
proof -
  have eq: "P' x = (if x \<in> X then (P x)\<lparr>p_wchan := None, p_stat := SRUN\<rparr> else P x)\<lparr>p_link := p_link (P' x)\<rparr>"
    using assms unfolding woken_def by blast
  show "p_wchan (P' x) = (if x \<in> X then None else p_wchan (P x))" by (subst eq) simp
  show "p_stat (P' x) = (if x \<in> X then SRUN else p_stat (P x))" by (subst eq) simp
  show "p_flag (P' x) = p_flag (P x)" by (subst eq) simp
  show "p_pri (P' x) = p_pri (P x)" by (subst eq) simp
  show "p_sig (P' x) = p_sig (P x)" by (subst eq) simp
qed

lemma woken_trans: "woken X P P' \<Longrightarrow> woken Y P' P'' \<Longrightarrow> woken (X \<union> Y) P P''"
  unfolding woken_def
proof (rule allI, goal_cases)
  case (1 x)
  have e1: "P' x = (if x \<in> X then (P x)\<lparr>p_wchan := None, p_stat := SRUN\<rparr> else P x)\<lparr>p_link := p_link (P' x)\<rparr>"
    using 1 by blast
  have e2: "P'' x = (if x \<in> Y then (P' x)\<lparr>p_wchan := None, p_stat := SRUN\<rparr> else P' x)\<lparr>p_link := p_link (P'' x)\<rparr>"
    using 1 by blast
  obtain l' where l': "P' x = (if x \<in> X then (P x)\<lparr>p_wchan := None, p_stat := SRUN\<rparr> else P x)\<lparr>p_link := l'\<rparr>"
    using e1 by blast
  obtain l'' where l'': "p_link (P'' x) = l''" by blast
  from e2 show ?case unfolding l'' l' by simp
qed

lemma woken_empty [simp]: "woken {} P P"
  by (simp add: woken_def)

lemma setrun_f_queued:
  assumes "p_stat (k_proc s p) \<noteq> SNONE" "p_stat (k_proc s p) \<noteq> SZOMB" "p_wchan (k_proc s p) = None"
    and "seg (k_proc s) (k_runq s) R None" "length R \<le> NPROC" "p \<notin> set R"
  defines "s1 \<equiv> s\<lparr>k_proc := (k_proc s)(p := (k_proc s p)\<lparr>p_stat := SRUN, p_link := k_runq s\<rparr>), k_runq := Some p,
    k_runrun := (if p_pri (k_proc s p) < k_curpri s then cinc (k_runrun s) else k_runrun s)\<rparr>"
  shows "setrun_f e (Suc f) p s =
    (if k_runout s \<noteq> 0 \<and> SLOAD \<notin> p_flag (k_proc s p)
     then wakeup_loop e f Ch_runout (k_slpque s (hash e Ch_runout)) None (s1\<lparr>k_runout := 0\<rparr>)
     else Ret () s1)"
proof -
  let ?P = "(k_proc s)(p := (k_proc s p)\<lparr>p_stat := SRUN\<rparr>)"
  have "seg ?P (k_runq s) R None" using assms(4,6) by simp
  then have "on_runq (Suc NPROC) ?P (k_runq s) p = Some False"
    using on_runq_seg[of ?P "k_runq s" R "Suc NPROC" p] assms(5,6) by simp
  then show ?thesis using assms(1-3) unfolding s1_def
    by (simp add: setrq_def upd_proc_def Let_def del: on_runq.simps)
qed

text \<open>The state after \<open>wakeup_loop\<close> has woken \<open>p\<close>, whose predecessors in the bucket \<open>h\<close> are \<open>pre\<close>.\<close>

definition wake_one :: "nat \<Rightarrow> nat list \<Rightarrow> nat \<Rightarrow> kst \<Rightarrow> kst" where
  "wake_one h pre p s = s\<lparr>
     k_proc := (unlinked (k_proc s) pre p)(p := runnable (unlinked (k_proc s) pre p p) (k_runq s)),
     k_slpque := (if pre = [] then (k_slpque s)(h := p_link (k_proc s p)) else k_slpque s),
     k_runq := Some p,
     k_runrun := (if p_pri (k_proc s p) < k_curpri s then cinc (k_runrun s) else k_runrun s)\<rparr>"

abbreviation last_opt :: "nat list \<Rightarrow> nat option" where
  "last_opt xs \<equiv> if xs = [] then None else Some (last xs)"

abbreviation hd_opt :: "nat list \<Rightarrow> nat option" where
  "hd_opt xs \<equiv> case xs of [] \<Rightarrow> None | x # _ \<Rightarrow> Some x"

lemma wake_one_queues:
  "queues e s Q R \<Longrightarrow> Q h = pre @ p # rest \<Longrightarrow> queues e (wake_one h pre p s) (Q(h := pre @ rest)) (p # R)"
  using queues_wake[of e "k_proc s" "k_slpque s" "k_runq s" Q R h pre p rest] by (simp add: wake_one_def)

lemma wake_one_woken:
  "distinct (pre @ p # rest) \<Longrightarrow> woken {p} (k_proc s) (k_proc (wake_one h pre p s))"
  by (auto simp: woken_def wake_one_def unlinked_def runnable_def)

lemma wake_one_only: "sched_only s (wake_one h pre p s)"
proof -
  have "wake_one h pre p s = s\<lparr>k_proc := k_proc (wake_one h pre p s), k_slpque := k_slpque (wake_one h pre p s),
     k_runq := k_runq (wake_one h pre p s), k_runrun := k_runrun (wake_one h pre p s), k_runout := k_runout s\<rparr>"
    by (simp add: wake_one_def)
  then show ?thesis unfolding sched_only_def by blast
qed

lemma wake_one_other [simp]:
  "k_runout (wake_one h pre p s) = k_runout s" "k_curpri (wake_one h pre p s) = k_curpri s"
  by (simp_all add: wake_one_def)

lemma wakeup_step:
  assumes q: "queues e s Q R" and Qh: "Q (hash e ch) = pre @ p # rest" and w: "p_wchan (k_proc s p) = Some ch"
  shows "wakeup_loop e (Suc (Suc f)) ch (Some p) (last_opt pre) s =
    bindr (if k_runout s \<noteq> 0 \<and> SLOAD \<notin> p_flag (k_proc s p)
           then wakeup_loop e f Ch_runout (k_slpque (wake_one (hash e ch) pre p s) (hash e Ch_runout)) None
                  ((wake_one (hash e ch) pre p s)\<lparr>k_runout := 0\<rparr>)
           else Ret () (wake_one (hash e ch) pre p s))
      (\<lambda>_. wakeup_loop e (Suc f) ch (hd_opt rest) (last_opt pre))"
proof -
  have inQ: "x \<in> set (Q (hash e ch))" if "x \<in> set (pre @ p # rest)" for x using that Qh by simp
  have dis: "distinct (pre @ p # rest)" using queuesD(3)[OF q] Qh by metis
  have pn: "p < NPROC" by (rule queuesD(5)[OF q inQ]) simp
  have st: "p_stat (k_proc s p) = SSLEEP" by (rule queuesD(8)[OF q pn]) (simp add: w)
  have pR: "p \<notin> set R" by (rule queuesD(12)[OF q inQ]) simp
  have preR: "set pre \<inter> set R = {}" using queuesD(12)[OF q inQ] by auto
  have sg: "seg (k_proc s) (k_slpque s (hash e ch)) (pre @ p # rest) None" using queuesD(1)[OF q] Qh by metis
  then have lk: "p_link (k_proc s p) = hd_opt rest"
    by (cases rest) (auto simp: seg_append)
  define s1 where "s1 = (case last_opt pre of None \<Rightarrow> s\<lparr>k_slpque := (k_slpque s)(hash e ch := p_link (k_proc s p))\<rparr>
    | Some q' \<Rightarrow> upd_proc q' (\<lambda>r. r\<lparr>p_link := p_link (k_proc s p)\<rparr>) s)"
  define s2 where "s2 = upd_proc p (\<lambda>r. r\<lparr>p_wchan := None\<rparr>) s1"
  have P1: "k_proc s1 = unlinked (k_proc s) pre p"
    by (simp add: s1_def unlinked_def upd_proc_def)
  have P2: "k_proc s2 = (unlinked (k_proc s) pre p)(p := (unlinked (k_proc s) pre p p)\<lparr>p_wchan := None\<rparr>)"
    by (simp add: s2_def P1 upd_proc_def)
  have rq: "k_runq s2 = k_runq s" "k_runout s2 = k_runout s" "k_curpri s2 = k_curpri s" "k_runrun s2 = k_runrun s"
    by (simp_all add: s2_def s1_def upd_proc_def)
  have unl: "unlinked (k_proc s) pre p p = k_proc s p" using dis by (auto simp: unlinked_def dest: last_in_set)
  have sr: "seg (k_proc s2) (k_runq s2) R None"
    unfolding P2 rq using queuesD(2)[OF q] pR preR by (simp add: seg_unlinked_other)
  have w1: "s2\<lparr>k_proc := (k_proc s2)(p := (k_proc s2 p)\<lparr>p_stat := SRUN, p_link := k_runq s2\<rparr>), k_runq := Some p,
    k_runrun := (if p_pri (k_proc s2 p) < k_curpri s2 then cinc (k_runrun s2) else k_runrun s2)\<rparr>
    = wake_one (hash e ch) pre p s"
    unfolding P2 rq using unl
    by (simp add: wake_one_def s2_def s1_def upd_proc_def unlinked_def runnable_def)
  have sq: "k_slpque s2 = k_slpque (wake_one (hash e ch) pre p s)"
    by (simp add: wake_one_def s2_def s1_def upd_proc_def)
  have set: "setrun_f e (Suc f) p s2 =
    (if k_runout s \<noteq> 0 \<and> SLOAD \<notin> p_flag (k_proc s p)
     then wakeup_loop e f Ch_runout (k_slpque (wake_one (hash e ch) pre p s) (hash e Ch_runout)) None
            ((wake_one (hash e ch) pre p s)\<lparr>k_runout := 0\<rparr>)
     else Ret () (wake_one (hash e ch) pre p s))"
    using setrun_f_queued[of s2 p R e f, unfolded w1] st sr pR queues_length(2)[OF q]
    by (simp add: P2 rq sq)
  have "wakeup_loop e (Suc (Suc f)) ch (Some p) (last_opt pre) s =
    bindr (setrun_f e (Suc f) p s2) (\<lambda>_. wakeup_loop e (Suc f) ch (p_link (k_proc s p)) (last_opt pre))"
    unfolding wakeup_loop.simps(3) Let_def s2_def s1_def w st by simp
  then show ?thesis unfolding set lk .
qed

text \<open>Without nesting: nobody waits for a swapped-out process, or nobody swapped out is woken.\<close>

lemma wakeup_plain:
  assumes "queues e s Q R" "Q (hash e ch) = pre @ suf" "\<forall>p \<in> set pre. p_wchan (k_proc s p) \<noteq> Some ch"
    and "k_runout s = 0 \<or> (\<forall>p \<in> set suf. p_wchan (k_proc s p) = Some ch \<longrightarrow> SLOAD \<in> p_flag (k_proc s p))"
    and "length suf + 2 \<le> f"
  shows "\<exists>s' R'. wakeup_loop e f ch (hd_opt suf) (last_opt pre) s = Ret () s' \<and>
    queues e s' (Q(hash e ch := filter (\<lambda>p. p_wchan (k_proc s p) \<noteq> Some ch) (pre @ suf))) R' \<and>
    set R' = set R \<union> {p \<in> set suf. p_wchan (k_proc s p) = Some ch} \<and>
    woken {p \<in> set suf. p_wchan (k_proc s p) = Some ch} (k_proc s) (k_proc s') \<and>
    sched_only s s' \<and> k_runout s' = k_runout s"
  using assms
proof (induction suf arbitrary: s Q R pre f)
  case Nil
  then obtain f' where "f = Suc f'" by (cases f) auto
  moreover have "filter (\<lambda>p. p_wchan (k_proc s p) \<noteq> Some ch) pre = pre" using Nil.prems(3) by (simp add: filter_id_conv)
  ultimately show ?case using Nil.prems(1,2) by (auto simp: fun_upd_idem)
next
  case (Cons p rest)
  let ?h = "hash e ch"
  obtain f' where f: "f = Suc (Suc f')" using Cons.prems(5) by (cases f; cases "f - 1") auto
  have sg: "seg (k_proc s) (k_slpque s ?h) (pre @ p # rest) None" using queuesD(1)[OF Cons.prems(1)] Cons.prems(2) by metis
  have lk: "p_link (k_proc s p) = hd_opt rest" using sg by (cases rest) (auto simp: seg_append)
  have dis: "distinct (pre @ p # rest)" using queuesD(3)[OF Cons.prems(1)] Cons.prems(2) by metis
  show ?case
  proof (cases "p_wchan (k_proc s p) = Some ch")
    case False
    have step: "wakeup_loop e f ch (hd_opt (p # rest)) (last_opt pre) s = wakeup_loop e (Suc f') ch (hd_opt rest) (last_opt (pre @ [p])) s"
      using False by (simp add: f lk)
    have "Q ?h = (pre @ [p]) @ rest" using Cons.prems(2) by simp
    moreover have "\<forall>x \<in> set (pre @ [p]). p_wchan (k_proc s x) \<noteq> Some ch" using Cons.prems(3) False by auto
    moreover have "k_runout s = 0 \<or> (\<forall>p \<in> set rest. p_wchan (k_proc s p) = Some ch \<longrightarrow> SLOAD \<in> p_flag (k_proc s p))"
      using Cons.prems(4) by auto
    moreover have "length rest + 2 \<le> Suc f'" using Cons.prems(5) f by simp
    moreover have "{x \<in> set (p # rest). p_wchan (k_proc s x) = Some ch} = {x \<in> set rest. p_wchan (k_proc s x) = Some ch}"
      using False by auto
    ultimately show ?thesis using Cons.IH[OF Cons.prems(1), of "pre @ [p]" "Suc f'"] unfolding step by simp
  next
    case True
    let ?t = "wake_one ?h pre p s"
    have nn: "\<not> (k_runout s \<noteq> 0 \<and> SLOAD \<notin> p_flag (k_proc s p))" using Cons.prems(4) True by auto
    have step: "wakeup_loop e f ch (hd_opt (p # rest)) (last_opt pre) s = wakeup_loop e (Suc f') ch (hd_opt rest) (last_opt pre) ?t"
      using wakeup_step[OF Cons.prems(1,2) True, of f'] nn by (simp add: f del: wakeup_loop.simps)
    have q: "queues e ?t (Q(?h := pre @ rest)) (p # R)" by (rule wake_one_queues[OF Cons.prems(1,2)])
    have wk: "woken {p} (k_proc s) (k_proc ?t)" by (rule wake_one_woken[OF dis])
    have wc: "p_wchan (k_proc ?t x) = p_wchan (k_proc s x)" "p_flag (k_proc ?t x) = p_flag (k_proc s x)" if "x \<noteq> p" for x
      using wokenD(1,3)[OF wk, of x] that by auto
    have np: "p \<notin> set pre" "p \<notin> set rest" using dis by auto
    have ws: "{x \<in> set rest. p_wchan (k_proc ?t x) = Some ch} = {x \<in> set rest. p_wchan (k_proc s x) = Some ch}"
      using wc np by (metis (mono_tags, lifting))
    have fl: "filter (\<lambda>x. p_wchan (k_proc ?t x) \<noteq> Some ch) (pre @ rest) = filter (\<lambda>x. p_wchan (k_proc s x) \<noteq> Some ch) (pre @ rest)"
      by (rule filter_cong[OF refl]) (metis wc(1) np Un_iff set_append)
    have "\<exists>s' R'. wakeup_loop e (Suc f') ch (hd_opt rest) (last_opt pre) ?t = Ret () s' \<and>
      queues e s' ((Q(?h := pre @ rest))(?h := filter (\<lambda>x. p_wchan (k_proc ?t x) \<noteq> Some ch) (pre @ rest))) R' \<and>
      set R' = set (p # R) \<union> {x \<in> set rest. p_wchan (k_proc ?t x) = Some ch} \<and>
      woken {x \<in> set rest. p_wchan (k_proc ?t x) = Some ch} (k_proc ?t) (k_proc s') \<and>
      sched_only ?t s' \<and> k_runout s' = k_runout ?t"
    proof (rule Cons.IH[OF q])
      show "(Q(?h := pre @ rest)) ?h = pre @ rest" by simp
      show "\<forall>x \<in> set pre. p_wchan (k_proc ?t x) \<noteq> Some ch" using Cons.prems(3) wc np by metis
      show "k_runout ?t = 0 \<or> (\<forall>x \<in> set rest. p_wchan (k_proc ?t x) = Some ch \<longrightarrow> SLOAD \<in> p_flag (k_proc ?t x))"
        using Cons.prems(4) wc np by (metis list.set_intros(2) wake_one_other(1))
      show "length rest + 2 \<le> Suc f'" using Cons.prems(5) f by simp
    qed
    then obtain s' R' where r: "wakeup_loop e (Suc f') ch (hd_opt rest) (last_opt pre) ?t = Ret () s'"
      "queues e s' (Q(?h := filter (\<lambda>x. p_wchan (k_proc s x) \<noteq> Some ch) (pre @ rest))) R'"
      "set R' = set (p # R) \<union> {x \<in> set rest. p_wchan (k_proc s x) = Some ch}"
      "woken {x \<in> set rest. p_wchan (k_proc s x) = Some ch} (k_proc ?t) (k_proc s')"
      "sched_only ?t s'" "k_runout s' = k_runout s"
      unfolding ws fl by auto
    have X: "{x \<in> set (p # rest). p_wchan (k_proc s x) = Some ch} = {p} \<union> {x \<in> set rest. p_wchan (k_proc s x) = Some ch}"
      using True by auto
    have "woken {x \<in> set (p # rest). p_wchan (k_proc s x) = Some ch} (k_proc s) (k_proc s')"
      unfolding X by (rule woken_trans[OF wk r(4)])
    then have w: "woken {x \<in> set (p # rest). p_wchan (k_proc s x) = Some ch} (k_proc s) (k_proc s')" .
    have o: "sched_only s s'" by (rule sched_only_trans[OF wake_one_only r(5)])
    have R: "set R' = set R \<union> {x \<in> set (p # rest). p_wchan (k_proc s x) = Some ch}" unfolding X using r(3) by auto
    have Qe: "filter (\<lambda>x. p_wchan (k_proc s x) \<noteq> Some ch) (pre @ p # rest) = filter (\<lambda>x. p_wchan (k_proc s x) \<noteq> Some ch) (pre @ rest)"
      using True by simp
    show ?thesis unfolding step Qe
      by (intro exI[of _ s'] exI[of _ R'] conjI) (rule r(1), rule r(2), rule R, rule w, rule o, rule r(6))
  qed
qed

text \<open>The outcome in general: besides the sleepers on the channel, those in \<open>Y\<close> wake, which are
  sleepers on \<open>runout\<close>.\<close>

definition wakes :: "env \<Rightarrow> nat set \<Rightarrow> kst \<Rightarrow> nat list \<Rightarrow> (kst, unit) run \<Rightarrow> bool" where
  "wakes e X s R r \<longleftrightarrow> (\<exists>s' Q' R' Y. r = Ret () s' \<and> queues e s' Q' R' \<and> set R' = set R \<union> X \<union> Y \<and>
     woken (X \<union> Y) (k_proc s) (k_proc s') \<and> sched_only s s' \<and> (k_runout s = 0 \<longrightarrow> k_runout s' = 0) \<and>
     Y \<subseteq> {p. p < NPROC \<and> p_wchan (k_proc s p) = Some Ch_runout} \<and> (k_runout s = 0 \<longrightarrow> Y = {}))"

lemma wakeup_plain_wakes:
  assumes "queues e s Q R" "Q (hash e ch) = pre @ suf" "\<forall>p \<in> set pre. p_wchan (k_proc s p) \<noteq> Some ch"
    and "k_runout s = 0 \<or> (\<forall>p \<in> set suf. p_wchan (k_proc s p) = Some ch \<longrightarrow> SLOAD \<in> p_flag (k_proc s p))"
    and "length suf + 2 \<le> f"
  shows "wakes e {p \<in> set suf. p_wchan (k_proc s p) = Some ch} s R (wakeup_loop e f ch (hd_opt suf) (last_opt pre) s)"
proof -
  from wakeup_plain[OF assms] obtain s' R' where r:
    "wakeup_loop e f ch (hd_opt suf) (last_opt pre) s = Ret () s'"
    "queues e s' (Q(hash e ch := filter (\<lambda>p. p_wchan (k_proc s p) \<noteq> Some ch) (pre @ suf))) R'"
    "set R' = set R \<union> {p \<in> set suf. p_wchan (k_proc s p) = Some ch}"
    "woken {p \<in> set suf. p_wchan (k_proc s p) = Some ch} (k_proc s) (k_proc s')"
    "sched_only s s'" "k_runout s' = k_runout s"
    by (elim exE conjE) rule
  show ?thesis unfolding wakes_def
    by (rule exI[of _ s'], rule exI, rule exI[of _ R'], rule exI[of _ "{}"], intro conjI, rule r(1), rule r(2))
      (simp_all add: r(3-6))
qed

text \<open>With nesting: the sleepers on \<open>runout\<close>, which are in another bucket, are woken in between.\<close>

lemma wakeup_nested:
  assumes q: "queues e s Q R" and Qh: "Q (hash e ch) = pre @ p # rest" and w: "p_wchan (k_proc s p) = Some ch"
    and pre: "\<forall>x \<in> set pre. p_wchan (k_proc s x) \<noteq> Some ch"
    and out: "k_runout s \<noteq> 0" "SLOAD \<notin> p_flag (k_proc s p)" and h: "hash e ch \<noteq> hash e Ch_runout"
    and f: "NPROC + 3 \<le> f"
  shows "wakes e {x \<in> set (p # rest). p_wchan (k_proc s x) = Some ch} s R
    (wakeup_loop e (Suc (Suc f)) ch (Some p) (last_opt pre) s)"
proof -
  let ?h = "hash e ch" and ?h2 = "hash e Ch_runout"
  let ?t = "wake_one ?h pre p s" and ?Q = "Q(?h := pre @ rest)"
  let ?tz = "?t\<lparr>k_runout := 0\<rparr>"
  have dis: "distinct (pre @ p # rest)" using queuesD(3)[OF q] Qh by metis
  have qt: "queues e ?t ?Q (p # R)" by (rule wake_one_queues[OF q Qh])
  have wt: "woken {p} (k_proc s) (k_proc ?t)" by (rule wake_one_woken[OF dis])
  have len: "length (?Q i) \<le> NPROC" for i by (rule queues_length(1)[OF qt])
  let ?Y = "{x \<in> set (Q ?h2). p_wchan (k_proc ?t x) = Some Ch_runout}"
  have "\<exists>s1 R1. wakeup_loop e f Ch_runout (hd_opt (?Q ?h2)) (last_opt []) ?tz = Ret () s1 \<and>
    queues e s1 (?Q(?h2 := filter (\<lambda>x. p_wchan (k_proc ?tz x) \<noteq> Some Ch_runout) ([] @ ?Q ?h2))) R1 \<and>
    set R1 = set (p # R) \<union> {x \<in> set (?Q ?h2). p_wchan (k_proc ?tz x) = Some Ch_runout} \<and>
    woken {x \<in> set (?Q ?h2). p_wchan (k_proc ?tz x) = Some Ch_runout} (k_proc ?tz) (k_proc s1) \<and>
    sched_only ?tz s1 \<and> k_runout s1 = k_runout ?tz"
  proof (rule wakeup_plain)
    have "k_proc ?tz = k_proc ?t" "k_slpque ?tz = k_slpque ?t" "k_runq ?tz = k_runq ?t" by simp_all
    then show "queues e ?tz ?Q (p # R)" using qt by metis
    show "length (?Q ?h2) + 2 \<le> f" using len[of ?h2] f by linarith
  qed simp_all
  then obtain s1 R1 where
    r: "wakeup_loop e f Ch_runout (hd_opt (?Q ?h2)) None ?tz = Ret () s1"
      "queues e s1 (?Q(?h2 := filter (\<lambda>x. p_wchan (k_proc ?t x) \<noteq> Some Ch_runout) (?Q ?h2))) R1"
      "set R1 = set (p # R) \<union> ?Y" "woken ?Y (k_proc ?t) (k_proc s1)" "sched_only ?tz s1" "k_runout s1 = 0"
    using h by auto
  have head: "k_slpque ?t ?h2 = hd_opt (?Q ?h2)"
  proof -
    have "seg (k_proc ?t) (k_slpque ?t ?h2) (?Q ?h2) None" by (rule queuesD(1)[OF qt])
    then show ?thesis by (cases "?Q ?h2") auto
  qed
  have same: "p_wchan (k_proc s1 x) = p_wchan (k_proc s x)" if "x \<in> set (pre @ rest)" for x
  proof -
    have "x \<in> set (?Q ?h)" using that by simp
    then obtain c where c: "p_wchan (k_proc ?t x) = Some c" "hash e c = ?h" using queuesD(6)[OF qt] by blast
    then have "x \<notin> ?Y" using h by auto
    moreover have "x \<noteq> p" using that dis by auto
    ultimately show ?thesis using wokenD(1)[OF r(4), of x] wokenD(1)[OF wt, of x] by simp
  qed
  let ?Z = "{x \<in> set rest. p_wchan (k_proc s x) = Some ch}"
  have Z: "{x \<in> set rest. p_wchan (k_proc s1 x) = Some ch} = ?Z" using same by auto
  have "wakes e {x \<in> set rest. p_wchan (k_proc s1 x) = Some ch} s1 R1
    (wakeup_loop e (Suc f) ch (hd_opt rest) (last_opt pre) s1)"
  proof (rule wakeup_plain_wakes[OF r(2)])
    show "(?Q(?h2 := filter (\<lambda>x. p_wchan (k_proc ?t x) \<noteq> Some Ch_runout) (?Q ?h2))) ?h = pre @ rest" using h by simp
    show "\<forall>x \<in> set pre. p_wchan (k_proc s1 x) \<noteq> Some ch" using pre same by simp
    show "length rest + 2 \<le> Suc f" using len[of ?h] f by simp
  qed (simp add: r(6))
  then obtain s2 Q2 R2 where
    u: "wakeup_loop e (Suc f) ch (hd_opt rest) (last_opt pre) s1 = Ret () s2" "queues e s2 Q2 R2"
      "set R2 = set R1 \<union> ?Z" "woken ?Z (k_proc s1) (k_proc s2)" "sched_only s1 s2"
    unfolding wakes_def Z using r(6) by auto
  have X: "{x \<in> set (p # rest). p_wchan (k_proc s x) = Some ch} = insert p ?Z" using w by auto
  have Y: "?Y \<subseteq> {x. x < NPROC \<and> p_wchan (k_proc s x) = Some Ch_runout}"
    using queuesD(5)[OF q] wokenD(1)[OF wt] by (auto split: if_splits)
  have wk: "woken (insert p ?Z \<union> ?Y) (k_proc s) (k_proc s2)"
    using woken_trans[OF woken_trans[OF wt r(4)] u(4)] by (simp add: Un_ac)
  have "sched_only s ?tz" by (rule sched_only_runout[OF wake_one_only])
  then have so: "sched_only s s2" by (metis sched_only_trans r(5) u(5))
  have "wakeup_loop e (Suc (Suc f)) ch (Some p) (last_opt pre) s = Ret () s2"
    using wakeup_step[OF q Qh w, of f] out u(1) r(1) head by simp
  then show ?thesis unfolding wakes_def X
    by (intro exI[of _ s2] exI[of _ Q2] exI[of _ R2] exI[of _ ?Y] conjI)
      (use u(2,3) r(3) wk so Y out in auto)
qed

lemma wakes_insert:
  assumes t: "woken {p} (k_proc s) (k_proc t)" "sched_only s t" "k_runout t = k_runout s"
    and r: "wakes e Z t (p # R) r"
  shows "wakes e (insert p Z) s R r"
proof -
  from r obtain s' Q' R' Y where
    u: "r = Ret () s'" "queues e s' Q' R'" "set R' = set (p # R) \<union> Z \<union> Y" "woken (Z \<union> Y) (k_proc t) (k_proc s')"
      "sched_only t s'" "k_runout t = 0 \<longrightarrow> k_runout s' = 0"
      "Y \<subseteq> {x. x < NPROC \<and> p_wchan (k_proc t x) = Some Ch_runout}" "k_runout t = 0 \<longrightarrow> Y = {}"
    unfolding wakes_def by blast
  have wk: "woken (insert p Z \<union> Y) (k_proc s) (k_proc s')" using woken_trans[OF t(1) u(4)] by simp
  have so: "sched_only s s'" by (rule sched_only_trans[OF t(2) u(5)])
  have "Y \<subseteq> {x. x < NPROC \<and> p_wchan (k_proc s x) = Some Ch_runout}"
    using u(7) wokenD(1)[OF t(1)] by (auto split: if_splits)
  with u wk so t(3) show ?thesis unfolding wakes_def
    by (intro exI[of _ s'] exI[of _ Q'] exI[of _ R'] exI[of _ Y] conjI) auto
qed

lemma wakeup_wakes:
  assumes "queues e s Q R" "Q (hash e ch) = pre @ suf" "\<forall>p \<in> set pre. p_wchan (k_proc s p) \<noteq> Some ch"
    and h: "hash e ch \<noteq> hash e Ch_runout" and "length suf + NPROC + 5 \<le> f"
  shows "wakes e {p \<in> set suf. p_wchan (k_proc s p) = Some ch} s R (wakeup_loop e f ch (hd_opt suf) (last_opt pre) s)"
  using assms(1-3,5)
proof (induction suf arbitrary: s Q R pre f)
  case Nil
  show ?case by (rule wakeup_plain_wakes[OF Nil.prems(1-3)]) (use Nil.prems(4) in simp_all)
next
  case (Cons p rest)
  let ?h = "hash e ch"
  obtain f' where f: "f = Suc (Suc f')" using Cons.prems(4) by (cases f; cases "f - 1") auto
  have sg: "seg (k_proc s) (k_slpque s ?h) (pre @ p # rest) None" using queuesD(1)[OF Cons.prems(1)] Cons.prems(2) by metis
  have lk: "p_link (k_proc s p) = hd_opt rest" using sg by (cases rest) (auto simp: seg_append)
  have dis: "distinct (pre @ p # rest)" using queuesD(3)[OF Cons.prems(1)] Cons.prems(2) by metis
  consider (skip) "p_wchan (k_proc s p) \<noteq> Some ch"
    | (nest) "p_wchan (k_proc s p) = Some ch" "k_runout s \<noteq> 0" "SLOAD \<notin> p_flag (k_proc s p)"
    | (plain) "p_wchan (k_proc s p) = Some ch" "\<not> (k_runout s \<noteq> 0 \<and> SLOAD \<notin> p_flag (k_proc s p))" by blast
  then show ?case
  proof cases
    case skip
    then have step: "wakeup_loop e f ch (hd_opt (p # rest)) (last_opt pre) s =
        wakeup_loop e (Suc f') ch (hd_opt rest) (last_opt (pre @ [p])) s" by (simp add: f lk)
    have X: "{x \<in> set (p # rest). p_wchan (k_proc s x) = Some ch} = {x \<in> set rest. p_wchan (k_proc s x) = Some ch}"
      using skip by auto
    show ?thesis unfolding step X
    proof (rule Cons.IH[OF Cons.prems(1)])
      show "Q ?h = (pre @ [p]) @ rest" using Cons.prems(2) by simp
      show "\<forall>x \<in> set (pre @ [p]). p_wchan (k_proc s x) \<noteq> Some ch" using Cons.prems(3) skip by simp
      show "length rest + NPROC + 5 \<le> Suc f'" using Cons.prems(4) f by simp
    qed
  next
    case nest
    have "NPROC + 3 \<le> f'" using Cons.prems(4) f by simp
    then show ?thesis using wakeup_nested[OF Cons.prems(1,2) nest(1) Cons.prems(3) nest(2,3) h] by (simp add: f del: wakeup_loop.simps)
  next
    case plain
    let ?t = "wake_one ?h pre p s"
    have step: "wakeup_loop e f ch (hd_opt (p # rest)) (last_opt pre) s = wakeup_loop e (Suc f') ch (hd_opt rest) (last_opt pre) ?t"
      using wakeup_step[OF Cons.prems(1,2) plain(1), of f'] plain(2) by (simp add: f del: wakeup_loop.simps)
    have wk: "woken {p} (k_proc s) (k_proc ?t)" by (rule wake_one_woken[OF dis])
    have wc: "p_wchan (k_proc ?t x) = p_wchan (k_proc s x)" if "x \<in> set (pre @ rest)" for x
      using wokenD(1)[OF wk, of x] that dis by auto
    have "wakes e {x \<in> set rest. p_wchan (k_proc ?t x) = Some ch} ?t (p # R)
      (wakeup_loop e (Suc f') ch (hd_opt rest) (last_opt pre) ?t)"
    proof (rule Cons.IH[OF wake_one_queues[OF Cons.prems(1,2)]])
      show "(Q(?h := pre @ rest)) ?h = pre @ rest" by simp
      show "\<forall>x \<in> set pre. p_wchan (k_proc ?t x) \<noteq> Some ch" using Cons.prems(3) wc by simp
      show "length rest + NPROC + 5 \<le> Suc f'" using Cons.prems(4) f by simp
    qed
    moreover have "{x \<in> set rest. p_wchan (k_proc ?t x) = Some ch} = {x \<in> set rest. p_wchan (k_proc s x) = Some ch}"
      using wc by auto
    moreover have "{x \<in> set (p # rest). p_wchan (k_proc s x) = Some ch} = insert p {x \<in> set rest. p_wchan (k_proc s x) = Some ch}"
      using plain(1) by auto
    ultimately show ?thesis unfolding step by (simp only: wakes_insert[OF wk wake_one_only wake_one_other(1)])
  qed
qed

text \<open>The precondition that clients keep: while the swapper waits on \<open>runout\<close>, no swapped-out process
  sleeps in the swapper's bucket.\<close>

definition no_clash :: "env \<Rightarrow> kst \<Rightarrow> bool" where
  "no_clash e s \<longleftrightarrow> k_runout s = 0 \<or> (\<forall>p < NPROC. \<forall>c. p_wchan (k_proc s p) = Some c \<longrightarrow>
     SLOAD \<notin> p_flag (k_proc s p) \<longrightarrow> hash e c \<noteq> hash e Ch_runout)"

lemma wakeup_loop_ok:
  assumes q: "queues e s Q R" and c: "no_clash e s" and f: "2 * NPROC + 5 \<le> f"
  shows "wakes e {p. p < NPROC \<and> p_wchan (k_proc s p) = Some ch} s R (wakeup_loop e f ch (k_slpque s (hash e ch)) None s)"
proof -
  let ?h = "hash e ch"
  have X: "{p \<in> set (Q ?h). p_wchan (k_proc s p) = Some ch} = {p. p < NPROC \<and> p_wchan (k_proc s p) = Some ch}"
    using queuesD(5,7)[OF q] by auto
  have sg: "seg (k_proc s) (k_slpque s ?h) (Q ?h) None" by (rule queuesD(1)[OF q])
  then have hd: "k_slpque s ?h = hd_opt (Q ?h)" by (cases "Q ?h") auto
  have len: "length (Q ?h) \<le> NPROC" by (rule queues_length(1)[OF q])
  have w: "wakeup_loop e f ch (k_slpque s ?h) None s = wakeup_loop e f ch (hd_opt (Q ?h)) (last_opt []) s"
    unfolding hd by simp
  have e: "Q ?h = [] @ Q ?h" "\<forall>p \<in> set []. p_wchan (k_proc s p) \<noteq> Some ch" by simp_all
  show ?thesis unfolding w X[symmetric]
  proof (cases "k_runout s = 0 \<or> (\<forall>p \<in> set (Q ?h). p_wchan (k_proc s p) = Some ch \<longrightarrow> SLOAD \<in> p_flag (k_proc s p))")
    case True
    have "length (Q ?h) + 2 \<le> f" using len f by linarith
    then show "wakes e {p \<in> set (Q ?h). p_wchan (k_proc s p) = Some ch} s R (wakeup_loop e f ch (hd_opt (Q ?h)) (last_opt []) s)"
      by (rule wakeup_plain_wakes[OF q e True])
  next
    case False
    then obtain p where p: "p \<in> set (Q ?h)" "p_wchan (k_proc s p) = Some ch" "SLOAD \<notin> p_flag (k_proc s p)" "k_runout s \<noteq> 0"
      by blast
    have "p < NPROC" by (rule queuesD(5)[OF q p(1)])
    with p c have h: "?h \<noteq> hash e Ch_runout" unfolding no_clash_def by blast
    have "length (Q ?h) + NPROC + 5 \<le> f" using len f by linarith
    then show "wakes e {p \<in> set (Q ?h). p_wchan (k_proc s p) = Some ch} s R (wakeup_loop e f ch (hd_opt (Q ?h)) (last_opt []) s)"
      by (rule wakeup_wakes[OF q e h])
  qed
qed

lemma wakeup_ok:
  assumes "queues e s Q R" "no_clash e s"
  shows "wakes e {p. p < NPROC \<and> p_wchan (k_proc s p) = Some ch} s R (wakeup e ch s)"
  unfolding wakeup_def by (rule wakeup_loop_ok[OF assms]) simp

text \<open>Setting a sleeping process running wakes everybody on its channel.\<close>

lemma setrun_ok:
  assumes "queues e s Q R" "no_clash e s" "p < NPROC" "p_wchan (k_proc s p) = Some w"
  shows "wakes e {p. p < NPROC \<and> p_wchan (k_proc s p) = Some w} s R (setrun e p s)"
proof -
  have F: "QFUEL = Suc (2 * NPROC + 7)" by simp
  have "p_stat (k_proc s p) = SSLEEP" using queuesD(8)[OF assms(1,3)] assms(4) by simp
  then have "setrun e p s = wakeup_loop e (2 * NPROC + 7) w (k_slpque s (hash e w)) None s"
    unfolding setrun_def F using assms(4) by (simp only: setrun_f.simps) simp
  then show ?thesis using wakeup_loop_ok[OF assms(1,2), of "2 * NPROC + 7" w] by simp
qed

subsection \<open>Sleeping\<close>

lemma queues_sleep:
  assumes q: "queues_on e P S r Q R" and p: "p < NPROC" "p_wchan (P p) = None" "p \<notin> set R"
  shows "queues_on e (P(p := (P p)\<lparr>p_stat := SSLEEP, p_wchan := Some ch, p_pri := pri, p_link := S (hash e ch)\<rparr>))
    (S(hash e ch := Some p)) r (Q(hash e ch := p # Q (hash e ch))) R" (is "queues_on e ?P ?S r ?Q R")
proof -
  have nq: "p \<notin> set (Q i)" for i using queuesD(6)[OF q, of p i] p(2) by auto
  have "seg ?P (?S i) (?Q i) None" for i
    using queuesD(1)[OF q, of i] nq[of i] by (cases "i = hash e ch") simp_all
  moreover have "seg ?P r R None" using queuesD(2)[OF q] p(3) by simp
  moreover have "distinct (?Q i)" for i using queuesD(3)[OF q, of i] nq[of i] by (cases "i = hash e ch") simp_all
  moreover have "x \<in> set (?Q i) \<longleftrightarrow> x < NPROC \<and> (\<exists>c. p_wchan (?P x) = Some c \<and> hash e c = i)" for x i
  proof (cases "x = p")
    case True
    then show ?thesis using nq[of i] p(1) by auto
  next
    case False
    have "x \<in> set (Q i) \<longleftrightarrow> x < NPROC \<and> (\<exists>c. p_wchan (P x) = Some c \<and> hash e c = i)"
      using q unfolding queues_on_def by blast
    then show ?thesis using False by auto
  qed
  moreover have "p_stat (?P x) = SSLEEP" if "x < NPROC" "p_wchan (?P x) \<noteq> None" for x
    using that queuesD(8)[OF q, of x] by (cases "x = p") auto
  moreover have "x < NPROC \<and> p_stat (?P x) = SRUN \<and> p_wchan (?P x) = None" if "x \<in> set R" for x
    using that p(3) queuesD(9-11)[OF q that] by auto
  ultimately show ?thesis unfolding queues_on_def using queuesD(4)[OF q] by blast
qed

text \<open>The state of a process that runs: it is loaded, and on no queue.\<close>

definition on_cpu :: "env \<Rightarrow> kst \<Rightarrow> bool" where
  "on_cpu e s \<longleftrightarrow> (\<exists>Q R. queues e s Q R \<and> curproc s \<notin> set R) \<and> curproc s < NPROC \<and>
     p_wchan (k_proc s (curproc s)) = None \<and> SLOAD \<in> p_flag (k_proc s (curproc s)) \<and> no_clash e s"

text \<open>The current process on its sleep queue, as it stands when \<open>swtch\<close> is called.\<close>

definition asleep :: "env \<Rightarrow> chan \<Rightarrow> int \<Rightarrow> kst \<Rightarrow> kst" where
  "asleep e ch pri s = s\<lparr>k_proc := (k_proc s)(curproc s := (k_proc s (curproc s))\<lparr>p_stat := SSLEEP,
     p_wchan := Some ch, p_pri := pri, p_link := k_slpque s (hash e ch)\<rparr>),
     k_slpque := (k_slpque s)(hash e ch := Some (curproc s))\<rparr>"

lemma sleep_kernel:
  "pri \<le> PZERO \<Longrightarrow> sleep e ch pri s = swtch e (asleep e ch pri s)"
  by (simp add: sleep_def asleep_def run_defs upd_proc_def Let_def)

lemma asleep_queues:
  assumes "queues e s Q R" "curproc s < NPROC" "p_wchan (k_proc s (curproc s)) = None" "curproc s \<notin> set R"
  shows "queues e (asleep e ch pri s) (Q(hash e ch := curproc s # Q (hash e ch))) R"
  using queues_sleep[OF assms] by (simp add: asleep_def)

lemma asleep_no_clash:
  assumes "no_clash e s" "SLOAD \<in> p_flag (k_proc s (curproc s))"
  shows "no_clash e (asleep e ch pri s)"
  using assms unfolding no_clash_def asleep_def by auto

lemma resume_u_sched [simp]:
  "k_proc (resume_u e a s) = k_proc s" "k_slpque (resume_u e a s) = k_slpque s" "k_runq (resume_u e a s) = k_runq s"
  "k_runout (resume_u e a s) = k_runout s" "k_buf (resume_u e a s) = k_buf s" "k_inode (resume_u e a s) = k_inode s"
  by (simp_all add: resume_u_def uload_def uflush_def)

lemma no_clash_resume [simp]: "no_clash e (resume_u e' a s) = no_clash e s"
  by (simp add: no_clash_def)

subsection \<open>When the buckets clash\<close>

lemma wakeup_walk:
  "seg (k_proc s) a xs None \<Longrightarrow> (\<And>x. x \<in> set xs \<Longrightarrow> p_wchan (k_proc s x) \<noteq> Some ch) \<Longrightarrow> length xs < f \<Longrightarrow>
     wakeup_loop e f ch a q s = Ret () s"
proof (induction xs arbitrary: a q f)
  case Nil
  then show ?case by (cases f) auto
next
  case (Cons x xs)
  then obtain f' where "f = Suc f'" by (cases f) auto
  with Cons show ?case by auto
qed

text \<open>The swapper is next in the bucket, the first sleeper woken is swapped out: the scan goes
  on along the run queue, and whoever is behind in the bucket sleeps on.\<close>

lemma wakeup_clash:
  assumes q: "queues e s Q R" and Qh: "Q (hash e ch) = p # z # rest"
    and p: "p_wchan (k_proc s p) = Some ch" "SLOAD \<notin> p_flag (k_proc s p)"
    and z: "p_wchan (k_proc s z) = Some Ch_runout" and out: "k_runout s \<noteq> 0" and ch: "ch \<noteq> Ch_runout"
  shows "\<exists>s'. wakeup e ch s = Ret () s' \<and> (\<forall>x \<in> set rest. p_wchan (k_proc s x) = Some ch \<longrightarrow> p_wchan (k_proc s' x) = Some ch)"
proof -
  let ?h = "hash e ch"
  have zQ: "z \<in> set (Q ?h)" using Qh by simp
  have h: "hash e Ch_runout = ?h" using queuesD(6)[OF q zQ] z by auto
  have dis: "distinct ([] @ p # z # rest)" using queuesD(3)[OF q, of ?h] Qh by simp
  let ?t = "wake_one ?h [] p s"
  let ?tz = "?t\<lparr>k_runout := 0\<rparr>" and ?Q = "Q(?h := z # rest)"
  have Qh': "Q ?h = [] @ p # z # rest" using Qh by simp
  have qt: "queues e ?t ?Q (p # R)" using wake_one_queues[OF q Qh'] by simp
  then have qz: "queues e ?tz ?Q (p # R)" by simp
  have wt: "woken {p} (k_proc s) (k_proc ?t)" by (rule wake_one_woken[OF dis])
  have wc: "p_wchan (k_proc ?t x) = p_wchan (k_proc s x)" if "x \<noteq> p" for x using wokenD(1)[OF wt, of x] that by simp
  have len: "length (?Q i) \<le> NPROC" for i by (rule queues_length(1)[OF qt])
  define f where "f = NPROC + NPROC + (6::nat)"
  have F: "QFUEL = Suc (Suc f)" by (simp add: f_def)
  have "\<exists>s1 R1. wakeup_loop e f Ch_runout (hd_opt (z # rest)) (last_opt []) ?tz = Ret () s1 \<and>
    queues e s1 (?Q(hash e Ch_runout := filter (\<lambda>x. p_wchan (k_proc ?tz x) \<noteq> Some Ch_runout) ([] @ z # rest))) R1 \<and>
    set R1 = set (p # R) \<union> {x \<in> set (z # rest). p_wchan (k_proc ?tz x) = Some Ch_runout} \<and>
    woken {x \<in> set (z # rest). p_wchan (k_proc ?tz x) = Some Ch_runout} (k_proc ?tz) (k_proc s1) \<and>
    sched_only ?tz s1 \<and> k_runout s1 = k_runout ?tz"
  proof (rule wakeup_plain[OF qz])
    show "?Q (hash e Ch_runout) = [] @ z # rest" using h by simp
    show "length (z # rest) + 2 \<le> f" using len[of ?h] unfolding f_def by simp
  qed simp_all
  then obtain s1 Q1 R1 Y where
    r: "wakeup_loop e f Ch_runout (Some z) None ?tz = Ret () s1" "queues e s1 Q1 R1"
      "set R1 = set (p # R) \<union> Y" "woken Y (k_proc ?t) (k_proc s1)"
      "Y = {x \<in> set (z # rest). p_wchan (k_proc ?t x) = Some Ch_runout}" by auto
  have "z \<in> Y" using r(5) z dis wc[of z] by auto
  then have "z \<in> set R1" using r(3) by simp
  then obtain us vs where R1: "R1 = us @ z # vs" by (auto dest: split_list)
  have sg: "seg (k_proc s1) (Some z) (z # vs) None" using queuesD(2)[OF r(2)] by (auto simp: R1 seg_append)
  have sq: "k_slpque ?t (hash e Ch_runout) = Some z"
    using queuesD(1)[OF qt, of ?h] h by simp
  have "length (z # vs) < Suc f" using queues_length(2)[OF r(2)] unfolding R1 f_def by simp
  then have walk: "wakeup_loop e (Suc f) ch (Some z) None s1 = Ret () s1"
    by (intro wakeup_walk[OF sg]) (use queuesD(11)[OF r(2)] R1 in auto)
  have "wakeup e ch s = wakeup_loop e (Suc (Suc f)) ch (Some p) (last_opt []) s"
    using queuesD(1)[OF q, of ?h] Qh unfolding wakeup_def F by simp
  also have "\<dots> = Ret () s1"
    using wakeup_step[OF q Qh' p(1), of f] p(2) out r(1) sq walk by (simp del: wakeup_loop.simps)
  finally have "wakeup e ch s = Ret () s1" .
  moreover have "p_wchan (k_proc s1 x) = Some ch" if "x \<in> set rest" "p_wchan (k_proc s x) = Some ch" for x
  proof -
    have "x \<noteq> p" using that(1) dis by auto
    from wc[OF this] that(2) ch have "x \<notin> Y" using r(5) by simp
    with wokenD(1)[OF r(4), of x] wc[OF \<open>x \<noteq> p\<close>] that(2) show ?thesis by simp
  qed
  ultimately show ?thesis by blast
qed

end
