(* ===== verification/Dispatch.thy ===== *)
theory Dispatch
  imports Queues
begin

section \<open>Sleep and wakeup, the dispatcher, priorities and signals: the properties\<close>

text \<open>
  The search of the dispatcher through the run queue, the value of a user priority, the choice
  of a pending signal, and the theorems of this component.
\<close>

subsection \<open>The search\<close>

abbreviation eligible :: "proc \<Rightarrow> bool" where
  "eligible r \<equiv> p_stat r = SRUN \<and> SLOAD \<in> p_flag r"

text \<open>The process before \<open>p\<close> when the list \<open>us\<close> comes before it and \<open>q\<close> before that.\<close>

abbreviation before :: "nat option \<Rightarrow> nat list \<Rightarrow> nat option" where
  "before q us \<equiv> if us = [] then q else Some (last us)"

lemma swtch_loop_seg:
  assumes "seg P a xs None" "length xs < f"
  shows "(swtch_loop f P a q pp pq n = Some (pp, pq, n) \<and> (\<forall>x \<in> set xs. eligible (P x) \<longrightarrow> n \<le> p_pri (P x))) \<or>
    (\<exists>us p vs. xs = us @ p # vs \<and> swtch_loop f P a q pp pq n = Some (Some p, before q us, p_pri (P p)) \<and>
       eligible (P p) \<and> p_pri (P p) < n \<and>
       (\<forall>x \<in> set us. eligible (P x) \<longrightarrow> p_pri (P p) < p_pri (P x)) \<and>
       (\<forall>x \<in> set vs. eligible (P x) \<longrightarrow> p_pri (P p) \<le> p_pri (P x)))"
  using assms
proof (induction xs arbitrary: a f q pp pq n)
  case Nil
  then show ?case by (cases f) auto
next
  case (Cons x xs)
  obtain f' where f: "f = Suc f'" using Cons.prems(2) by (cases f) auto
  have sg: "seg P (p_link (P x)) xs None" "length xs < f'" and a: "a = Some x" using Cons.prems f by auto
  show ?case
  proof (cases "eligible (P x) \<and> p_pri (P x) < n")
    case True
    then have step: "swtch_loop f P a q pp pq n = swtch_loop f' P (p_link (P x)) (Some x) (Some x) q (p_pri (P x))"
      by (simp add: f a)
    from Cons.IH[OF sg, of "Some x" "Some x" q "p_pri (P x)"] show ?thesis
    proof
      assume "swtch_loop f' P (p_link (P x)) (Some x) (Some x) q (p_pri (P x)) = Some (Some x, q, p_pri (P x)) \<and>
        (\<forall>y \<in> set xs. eligible (P y) \<longrightarrow> p_pri (P x) \<le> p_pri (P y))"
      then show ?thesis using True unfolding step by (intro disjI2 exI[of _ "[]"] exI[of _ x] exI[of _ xs]) auto
    next
      assume "\<exists>us p vs. xs = us @ p # vs \<and>
        swtch_loop f' P (p_link (P x)) (Some x) (Some x) q (p_pri (P x)) = Some (Some p, before (Some x) us, p_pri (P p)) \<and>
        eligible (P p) \<and> p_pri (P p) < p_pri (P x) \<and>
        (\<forall>x \<in> set us. eligible (P x) \<longrightarrow> p_pri (P p) < p_pri (P x)) \<and> (\<forall>x \<in> set vs. eligible (P x) \<longrightarrow> p_pri (P p) \<le> p_pri (P x))"
      then obtain us p vs where u: "xs = us @ p # vs"
        "swtch_loop f' P (p_link (P x)) (Some x) (Some x) q (p_pri (P x)) = Some (Some p, before (Some x) us, p_pri (P p))"
        "eligible (P p)" "p_pri (P p) < p_pri (P x)" "\<forall>x \<in> set us. eligible (P x) \<longrightarrow> p_pri (P p) < p_pri (P x)"
        "\<forall>x \<in> set vs. eligible (P x) \<longrightarrow> p_pri (P p) \<le> p_pri (P x)" by blast
      show ?thesis unfolding step using u True
        by (intro disjI2 exI[of _ "x # us"] exI[of _ p] exI[of _ vs]) auto
    qed
  next
    case False
    then have step: "swtch_loop f P a q pp pq n = swtch_loop f' P (p_link (P x)) (Some x) pp pq n" by (auto simp: f a)
    from Cons.IH[OF sg, of "Some x" pp pq n] show ?thesis
    proof
      assume "swtch_loop f' P (p_link (P x)) (Some x) pp pq n = Some (pp, pq, n) \<and> (\<forall>x \<in> set xs. eligible (P x) \<longrightarrow> n \<le> p_pri (P x))"
      then show ?thesis using False unfolding step by auto
    next
      assume "\<exists>us p vs. xs = us @ p # vs \<and>
        swtch_loop f' P (p_link (P x)) (Some x) pp pq n = Some (Some p, before (Some x) us, p_pri (P p)) \<and>
        eligible (P p) \<and> p_pri (P p) < n \<and>
        (\<forall>x \<in> set us. eligible (P x) \<longrightarrow> p_pri (P p) < p_pri (P x)) \<and> (\<forall>x \<in> set vs. eligible (P x) \<longrightarrow> p_pri (P p) \<le> p_pri (P x))"
      then obtain us p vs where u: "xs = us @ p # vs"
        "swtch_loop f' P (p_link (P x)) (Some x) pp pq n = Some (Some p, before (Some x) us, p_pri (P p))"
        "eligible (P p)" "p_pri (P p) < n" "\<forall>x \<in> set us. eligible (P x) \<longrightarrow> p_pri (P p) < p_pri (P x)"
        "\<forall>x \<in> set vs. eligible (P x) \<longrightarrow> p_pri (P p) \<le> p_pri (P x)" by blast
      show ?thesis unfolding step using u False
        by (intro disjI2 exI[of _ "x # us"] exI[of _ p] exI[of _ vs]) auto
    qed
  qed
qed

text \<open>Taking a process off the run queue.\<close>

lemma queues_take:
  assumes q: "queues_on e P S r Q R" and R: "R = us @ p # vs"
  shows "queues_on e (if us = [] then P else P(last us := (P (last us))\<lparr>p_link := p_link (P p)\<rparr>)) S
    (if us = [] then p_link (P p) else r) Q (us @ vs)" (is "queues_on e ?P S ?r Q _")
proof -
  have sg: "seg P r (us @ p # vs) None" and dis: "distinct (us @ p # vs)" using queuesD(2,4)[OF q] R by auto
  have "seg ?P ?r (us @ vs) None"
  proof (cases "us = []")
    case True
    then show ?thesis using sg by auto
  next
    case False
    then show ?thesis using seg_unlink[OF sg dis False] by simp
  qed
  moreover have "seg ?P (S h) (Q h) None" for h
  proof -
    have "last us \<notin> set (Q h)" if "us \<noteq> []" using queuesD(12)[OF q, of "last us" h] that R by auto
    then show ?thesis using queuesD(1)[OF q, of h] by auto
  qed
  moreover have f: "p_wchan (?P x) = p_wchan (P x)" "p_stat (?P x) = p_stat (P x)" for x by auto
  moreover have "x < NPROC \<and> p_stat (?P x) = SRUN \<and> p_wchan (?P x) = None" if "x \<in> set (us @ vs)" for x
    using queuesD(9-11)[OF q, of x] that R f by auto
  moreover have "distinct (us @ vs)" using dis by auto
  ultimately show ?thesis using q unfolding queues_on_def by auto
qed

lemma swtch_search_ok:
  assumes q: "queues e s Q R"
  shows "(swtch_search s = Ret None (s\<lparr>k_runrun := 0\<rparr>) \<and> (\<forall>x \<in> set R. SLOAD \<in> p_flag (k_proc s x) \<longrightarrow> 128 \<le> p_pri (k_proc s x))) \<or>
    (\<exists>us p vs s'. R = us @ p # vs \<and> swtch_search s = Ret (Some p) s' \<and> queues e s' Q (us @ vs) \<and>
       SLOAD \<in> p_flag (k_proc s p) \<and> k_curpri s' = p_pri (k_proc s p) \<and>
       (\<forall>x \<in> set us. SLOAD \<in> p_flag (k_proc s x) \<longrightarrow> p_pri (k_proc s p) < p_pri (k_proc s x)) \<and>
       (\<forall>x \<in> set vs. SLOAD \<in> p_flag (k_proc s x) \<longrightarrow> p_pri (k_proc s p) \<le> p_pri (k_proc s x)))"
proof -
  have el: "eligible (k_proc s x) \<longleftrightarrow> SLOAD \<in> p_flag (k_proc s x)" if "x \<in> set R" for x
    using queuesD(10)[OF q that] by simp
  have len: "length R < Suc NPROC" using queues_length(2)[OF q] by simp
  from swtch_loop_seg[OF queuesD(2)[OF q] len, of None None None 128] show ?thesis
  proof (elim disjE exE conjE)
    assume "swtch_loop (Suc NPROC) (k_proc s) (k_runq s) None None None 128 = Some (None, None, 128)"
      and "\<forall>x \<in> set R. eligible (k_proc s x) \<longrightarrow> 128 \<le> p_pri (k_proc s x)"
    then show ?thesis using el by (auto simp: swtch_search_def Let_def)
  next
    fix us p vs
    assume R: "R = us @ p # vs"
      and l: "swtch_loop (Suc NPROC) (k_proc s) (k_runq s) None None None 128 = Some (Some p, before None us, p_pri (k_proc s p))"
      and o: "p_pri (k_proc s p) < 128" "\<forall>x \<in> set us. eligible (k_proc s x) \<longrightarrow> p_pri (k_proc s p) < p_pri (k_proc s x)"
        "\<forall>x \<in> set vs. eligible (k_proc s x) \<longrightarrow> p_pri (k_proc s p) \<le> p_pri (k_proc s x)" "SLOAD \<in> p_flag (k_proc s p)"
    define s' where "s' = (if us = [] then s\<lparr>k_runrun := 0, k_runq := p_link (k_proc s p)\<rparr>
      else upd_proc (last us) (\<lambda>r. r\<lparr>p_link := p_link (k_proc s p)\<rparr>) (s\<lparr>k_runrun := 0\<rparr>))
      \<lparr>k_curpri := p_pri (k_proc s p), k_nswtch := k_nswtch s + 1\<rparr>"
    have "swtch_search s = Ret (Some p) s'"
      using l by (simp add: swtch_search_def Let_def s'_def upd_proc_def)
    moreover have "queues e s' Q (us @ vs)"
      using queues_take[OF q R] by (auto simp: s'_def upd_proc_def)
    moreover have "k_curpri s' = p_pri (k_proc s p)" by (simp add: s'_def)
    ultimately show ?thesis using R o el by (intro disjI2 exI[of _ us] exI[of _ p] exI[of _ vs] exI[of _ s']) auto
  qed
qed

subsection \<open>Signals\<close>

lemma fsig_from_steps:
  "\<not> i < NSIG \<Longrightarrow> fsig_from n i = 0"
  "i < NSIG \<Longrightarrow> bit n 0 \<Longrightarrow> fsig_from n i = i"
  "i < NSIG \<Longrightarrow> \<not> bit n 0 \<Longrightarrow> fsig_from n i = fsig_from (drop_bit 1 n) (Suc i)"
  by (subst fsig_from.simps, simp add: and_one_eq bit_0 odd_iff_mod_2_eq_one)+

lemma fsig_from_cases:
  "i + d = NSIG \<Longrightarrow>
   (fsig_from n i = 0 \<and> (\<forall>j < d. \<not> bit n j)) \<or>
   (\<exists>j < d. fsig_from n i = i + j \<and> bit n j \<and> (\<forall>k < j. \<not> bit n k))"
proof (induction d arbitrary: n i)
  case 0
  then show ?case by (simp add: fsig_from_steps)
next
  case (Suc d)
  have i: "i < NSIG" "Suc i + d = NSIG" using Suc.prems by auto
  have bS: "bit (drop_bit 1 n) j = bit n (Suc j)" for j by (simp add: bit_drop_bit_eq)
  show ?case
  proof (cases "bit n 0")
    case True
    then have "fsig_from n i = i + 0" using i by (simp add: fsig_from_steps)
    then show ?thesis using True by blast
  next
    case False
    have less: "(\<forall>k < Suc m. \<not> bit n k) \<longleftrightarrow> (\<forall>k < m. \<not> bit n (Suc k))" for m
      using False by (metis less_Suc_eq_0_disj not_less_eq)
    from Suc.IH[OF i(2), of "drop_bit 1 n", unfolded bS] show ?thesis
    proof
      assume "fsig_from (drop_bit 1 n) (Suc i) = 0 \<and> (\<forall>j < d. \<not> bit n (Suc j))"
      then show ?thesis unfolding fsig_from_steps(3)[OF i(1) False] less by blast
    next
      assume "\<exists>j < d. fsig_from (drop_bit 1 n) (Suc i) = Suc i + j \<and> bit n (Suc j) \<and> (\<forall>k < j. \<not> bit n (Suc k))"
      then obtain j where j: "j < d" "fsig_from (drop_bit 1 n) (Suc i) = i + Suc j" "bit n (Suc j)" "\<forall>k < Suc j. \<not> bit n k"
        unfolding less by auto
      then show ?thesis unfolding fsig_from_steps(3)[OF i(1) False] by blast
    qed
  qed
qed

text \<open>A signal the current process must act on: pending, and not ignored unless a tracer wants
  to see it.\<close>

definition deliverable :: "kst \<Rightarrow> nat \<Rightarrow> bool" where
  "deliverable s n \<longleftrightarrow> n \<in> {1 ..< NSIG} \<and> bit (p_sig (k_proc s (curproc s))) (n - 1) \<and>
     (u_signal (k_u s) n \<noteq> 1 \<or> STRC \<in> p_flag (k_proc s (curproc s)))"

definition sig_cleared :: "int \<Rightarrow> kst \<Rightarrow> kst" where
  "sig_cleared x s = upd_proc (curproc s) (\<lambda>r. r\<lparr>p_sig := x\<rparr>) s"

lemma sig_cleared_simps [simp]:
  "p_sig (k_proc (sig_cleared x s) (curproc s)) = x" "k_u (sig_cleared x s) = k_u s"
  "p_flag (k_proc (sig_cleared x s) p) = p_flag (k_proc s p)" "sig_cleared y (sig_cleared x s) = sig_cleared y s"
  by (auto simp: sig_cleared_def upd_proc_def)

lemma sig_cleared_same: "p_sig (k_proc s (curproc s)) = x \<Longrightarrow> sig_cleared x s = s"
  by (auto simp: sig_cleared_def upd_proc_def)

lemma pending_none:
  fixes x :: int
  assumes "\<And>j. 16 \<le> j \<Longrightarrow> \<not> bit x j" "\<forall>j < 16. \<not> bit x j"
  shows "x = 0"
  using assms by (intro bit_eqI) (metis bit_0_eq not_le bot_apply bot_bool_def)

lemma fsig_pending:
  assumes "\<And>j. 16 \<le> j \<Longrightarrow> \<not> bit (p_sig r) j" "p_sig r \<noteq> 0"
  obtains j where "j < 16" "fsig r = Suc j" "bit (p_sig r) j" "\<forall>k < j. \<not> bit (p_sig r) k"
  using fsig_from_cases[of 1 16 "p_sig r"] pending_none[OF assms(1)] assms(2) by (auto simp: fsig_def)

lemma bit_sig_clear: "bit (x AND NOT (sigbit (Suc j))) i \<longleftrightarrow> bit x i \<and> i \<noteq> j"
  by (auto simp: sigbit_def bit_and_iff bit_not_iff bit_push_bit_iff bit_exp_iff)

text \<open>What \<open>issig\<close> answers and leaves behind.\<close>

definition issig_result :: "kst \<Rightarrow> nat \<Rightarrow> kst \<Rightarrow> bool" where
  "issig_result s n s' \<longleftrightarrow>
     (n = 0 \<and> (\<forall>m. \<not> deliverable s m) \<and> s' = sig_cleared 0 s) \<or>
     (deliverable s n \<and> (\<forall>m < n. \<not> deliverable s m) \<and>
      s' = sig_cleared (p_sig (k_proc s (curproc s)) AND NOT (mask (n - 1))) s)"

lemma issig_result_clear:
  fixes s :: kst
  defines "x \<equiv> p_sig (k_proc s (curproc s))"
  assumes j: "j < 16" "bit x j" "\<forall>k < j. \<not> bit x k" and ign: "\<not> deliverable s (Suc j)"
    and r: "issig_result (sig_cleared (x AND NOT (sigbit (Suc j))) s) n s'"
  shows "issig_result s n s'"
proof -
  let ?t = "sig_cleared (x AND NOT (sigbit (Suc j))) s"
  have b: "bit (x AND NOT (sigbit (Suc j))) i \<longleftrightarrow> bit x i \<and> i \<noteq> j" for i
    by (rule bit_sig_clear)
  have d: "deliverable ?t m \<longleftrightarrow> deliverable s m" for m
  proof (cases "m = Suc j")
    case True
    then show ?thesis using ign by (simp add: deliverable_def b)
  next
    case False
    then show ?thesis by (auto simp: deliverable_def b x_def[symmetric])
  qed
  have m: "(x AND NOT (sigbit (Suc j))) AND NOT (mask (n - 1)) = x AND NOT (mask (n - 1))" if "deliverable s n"
  proof -
    have "n \<noteq> Suc j" "bit x (n - 1)" "0 < n" using that ign by (auto simp: deliverable_def x_def)
    then have "j < n - 1" using j(3) by (metis Suc_pred' not_less_iff_gr_or_eq)
    then show ?thesis by (intro bit_eqI) (use b in \<open>auto simp: bit_and_iff bit_not_iff bit_mask_iff\<close>)
  qed
  show ?thesis using r unfolding issig_result_def d by (auto simp: m[simplified] x_def[symmetric])
qed

lemma issig_loop_ok:
  assumes "\<And>j. 16 \<le> j \<Longrightarrow> \<not> bit (p_sig (k_proc s (curproc s))) j"
    and "\<forall>j < k. \<not> bit (p_sig (k_proc s (curproc s))) j" and "16 < f + k" "k \<le> 16"
  shows "\<exists>n s'. issig_loop f s = Ret n s' \<and> issig_result s n s'"
  using assms
proof (induction f arbitrary: s k)
  case 0
  then show ?case by simp
next
  case (Suc f)
  let ?r = "k_proc s (curproc s)"
  show ?case
  proof (cases "p_sig ?r = 0")
    case True
    then show ?thesis by (simp add: issig_result_def deliverable_def sig_cleared_same)
  next
    case False
    with Suc.prems(1) obtain j where j: "j < 16" "fsig ?r = Suc j" "bit (p_sig ?r) j" "\<forall>k < j. \<not> bit (p_sig ?r) k"
      using fsig_pending by metis
    show ?thesis
    proof (cases "deliverable s (Suc j)")
      case True
      have "p_sig ?r AND NOT (mask j) = p_sig ?r"
        using j(4) by (intro bit_eqI) (auto simp: bit_and_iff bit_not_iff bit_mask_iff)
      moreover have "\<not> deliverable s m" if "m < Suc j" for m using that j(4) by (auto simp: deliverable_def)
      ultimately have "issig_result s (Suc j) s" using True by (simp add: issig_result_def sig_cleared_same)
      then show ?thesis using True j(2) False by (auto simp: deliverable_def Let_def)
    next
      case ign: False
      let ?t = "sig_cleared (p_sig ?r AND NOT (sigbit (Suc j))) s"
      have step: "issig_loop (Suc f) s = issig_loop f ?t"
        using ign j False by (simp add: deliverable_def Let_def sig_cleared_def upd_proc_def)
      have b: "bit (p_sig ?r AND NOT (sigbit (Suc j))) i \<longleftrightarrow> bit (p_sig ?r) i \<and> i \<noteq> j" for i
        by (rule bit_sig_clear)
      have "k \<le> j" using Suc.prems(2) j(3) by (metis not_le)
      then have "\<exists>n s'. issig_loop f ?t = Ret n s' \<and> issig_result ?t n s'"
        using Suc.prems(1,3) j(1,4) by (intro Suc.IH[of _ "Suc j"]) (auto simp: b less_Suc_eq)
      then show ?thesis unfolding step using issig_result_clear[OF j(1,3,4) ign] by blast
    qed
  qed
qed

subsection \<open>While a process sleeps\<close>

text \<open>The queues depend on three fields of a process.\<close>

lemma queues_cong:
  assumes "\<And>x. p_link (P' x) = p_link (P x) \<and> p_wchan (P' x) = p_wchan (P x) \<and> p_stat (P' x) = p_stat (P x)"
  shows "queues_on e P' S r Q R = queues_on e P S r Q R"
proof -
  have "seg P' a xs b = seg P a xs b" for a xs b by (rule seg_cong) (simp add: assms)
  then show ?thesis unfolding queues_on_def by (simp add: assms)
qed




lemma psignal_wakes:
  assumes "queues e s Q R" "no_clash e s" "p < NPROC" "p_wchan (k_proc s p) = Some w" "p_pri (k_proc s p) > PZERO"
    and "0 < sig" "sig < int NSIG"
  defines "t \<equiv> upd_proc p (\<lambda>r. r\<lparr>p_sig := p_sig r OR sigbit (nat sig), p_pri := min PUSER (p_pri r)\<rparr>) s"
  shows "wakes e {p. p < NPROC \<and> p_wchan (k_proc s p) = Some w} t R (psignal e p sig s)"
proof -
  have st: "p_stat (k_proc t p) = SSLEEP" using queuesD(8)[OF assms(1,3)] assms(4) by (simp add: t_def upd_proc_def)
  have other: "p_link (k_proc t x) = p_link (k_proc s x)" "p_wchan (k_proc t x) = p_wchan (k_proc s x)"
    "p_stat (k_proc t x) = p_stat (k_proc s x)" "p_flag (k_proc t x) = p_flag (k_proc s x)"
    "k_slpque t = k_slpque s" "k_runq t = k_runq s" "k_runout t = k_runout s" for x
    by (auto simp: t_def upd_proc_def)
  have qt: "queues e t Q R" using queues_cong[of "k_proc t" "k_proc s"] assms(1) by (simp add: other)
  have nt: "no_clash e t" using assms(2) unfolding no_clash_def other by simp
  have eq: "psignal e p sig s = setrun e p t"
    using assms(5-7) st by (auto simp: psignal_def run_defs t_def upd_proc_def min_def)
  from setrun_ok[OF qt nt assms(3), of w] assms(4) show ?thesis unfolding eq by (simp add: other)
qed






subsection \<open>Theorems\<close>

text \<open>C6: as long as no swapped out process sleeps in the hash bucket of the swapper while the swapper waits
  (\<open>no_clash\<close>), \<open>wakeup\<close> makes every process that sleeps on its channel runnable and puts it on the run
  queue, and keeps the queues well formed.  It wakes no other process, except, while the swapper
  waits for something to swap in, sleepers on the swapper's channel \<open>runout\<close> (the set \<open>Y\<close>).\<close>

theorem wakeup_wakes_sleepers:
  assumes "queues e s Q R" "no_clash e s"
  shows "\<exists>s' Q' R' Y. wakeup e ch s = Ret () s' \<and> queues e s' Q' R' \<and>
    set R' = set R \<union> {p. p < NPROC \<and> p_wchan (k_proc s p) = Some ch} \<union> Y \<and>
    woken ({p. p < NPROC \<and> p_wchan (k_proc s p) = Some ch} \<union> Y) (k_proc s) (k_proc s') \<and> sched_only s s' \<and>
    Y \<subseteq> {p. p < NPROC \<and> p_wchan (k_proc s p) = Some Ch_runout} \<and> (k_runout s = 0 \<longrightarrow> Y = {})"
  using wakeup_ok[OF assms, of ch] unfolding wakes_def by blast


text \<open>C8: The dispatcher takes from the run queue a loaded process whose priority no other loaded
  process on the queue beats, the first of them, and leaves the rest of the queue as it was; it
  finds one whenever a loaded process of a priority below 128 is on the queue.\<close>

theorem swtch_search_best:
  assumes "queues e s Q R" "x \<in> set R" "SLOAD \<in> p_flag (k_proc s x)" "p_pri (k_proc s x) < 128"
  shows "\<exists>us p vs s'. R = us @ p # vs \<and> swtch_search s = Ret (Some p) s' \<and> queues e s' Q (us @ vs) \<and>
    SLOAD \<in> p_flag (k_proc s p) \<and> k_curpri s' = p_pri (k_proc s p) \<and>
    (\<forall>y \<in> set us. SLOAD \<in> p_flag (k_proc s y) \<longrightarrow> p_pri (k_proc s p) < p_pri (k_proc s y)) \<and>
    (\<forall>y \<in> set vs. SLOAD \<in> p_flag (k_proc s y) \<longrightarrow> p_pri (k_proc s p) \<le> p_pri (k_proc s y))"
  using swtch_search_ok[OF assms(1)] assms(2-4) by (meson not_le)

text \<open>C18: The priority that \<open>setpri\<close> computes for a process of a legal nice value lies between 30
  and 84: worse than every kernel priority, better than the limit of the dispatcher's search, so
  that the clamp at 127 is never reached.\<close>

theorem setpri_bounds:
  assumes "0 \<le> p_nice (k_proc s p)" "p_nice (k_proc s p) < 2 * NZERO"
  shows "30 \<le> fst (setpri p s) \<and> fst (setpri p s) \<le> 84 \<and>
    p_pri (k_proc (snd (setpri p s)) p) = fst (setpri p s)"
proof -
  have "0 \<le> p_cpu (k_proc s p) AND 255" "p_cpu (k_proc s p) AND 255 \<le> 255" by (simp_all add: AND_upper2')
  then have "0 \<le> (p_cpu (k_proc s p) AND 255) div 16" "(p_cpu (k_proc s p) AND 255) div 16 \<le> 15" by linarith+
  then show ?thesis using assms by (simp add: setpri_def Let_def upd_proc_def)
qed

text \<open>C16: \<open>issig\<close> returns, whatever signals are pending: with the lowest pending signal that is not
  ignored or that a tracer wants to see, having discarded the pending signals below it, or with
  zero and nothing pending; and it changes nothing else.\<close>

theorem issig_returns:
  assumes "0 \<le> p_sig (k_proc s (curproc s))" "p_sig (k_proc s (curproc s)) < 2 ^ 16"
  shows "\<exists>n s'. issig s = Ret n s' \<and>
    ((n = 0 \<and> (\<forall>m. \<not> deliverable s m) \<and> s' = sig_cleared 0 s) \<or>
     (deliverable s n \<and> (\<forall>m < n. \<not> deliverable s m) \<and>
      s' = sig_cleared (p_sig (k_proc s (curproc s)) AND NOT (mask (n - 1))) s))"
proof -
  have "p_sig (k_proc s (curproc s)) = take_bit 16 (p_sig (k_proc s (curproc s)))"
    using assms by (simp add: take_bit_int_eq_self)
  then have "\<not> bit (p_sig (k_proc s (curproc s))) j" if "16 \<le> j" for j using that by (metis bit_take_bit_iff not_le)
  from issig_loop_ok[OF this, of 0 "Suc NSIG"] show ?thesis by (simp add: issig_def issig_result_def)
qed

text \<open>C17: a signal sent to a process that sleeps at an interruptible priority is recorded in the
  set of pending signals and puts the process on the run queue, as long as no swapped out process sleeps in the hash
  bucket of the swapper while the swapper waits (\<open>no_clash\<close>): the process is found through a \<open>wakeup\<close> of its channel, which
  in that case may stop short of it.\<close>

theorem psignal_rouses:
  assumes "queues e s Q R" "no_clash e s" "p < NPROC" "p_wchan (k_proc s p) \<noteq> None" "p_pri (k_proc s p) > PZERO"
    and "0 < sig" "sig < int NSIG"
  shows "\<exists>s' Q' R'. psignal e p sig s = Ret () s' \<and> queues e s' Q' R' \<and> p \<in> set R' \<and>
    p_stat (k_proc s' p) = SRUN \<and> p_sig (k_proc s' p) = p_sig (k_proc s p) OR sigbit (nat sig) \<and>
    p_pri (k_proc s' p) = min PUSER (p_pri (k_proc s p))"
proof -
  obtain w where w: "p_wchan (k_proc s p) = Some w" using assms(4) by auto
  define t where "t = upd_proc p (\<lambda>r. r\<lparr>p_sig := p_sig r OR sigbit (nat sig), p_pri := min PUSER (p_pri r)\<rparr>) s"
  from psignal_wakes[OF assms(1-3) w assms(5-7), folded t_def, unfolded wakes_def] obtain s' Q' R' Y where
    r: "psignal e p sig s = Ret () s'" "queues e s' Q' R'" "set R' = set R \<union> {p. p < NPROC \<and> p_wchan (k_proc s p) = Some w} \<union> Y"
      "woken ({p. p < NPROC \<and> p_wchan (k_proc s p) = Some w} \<union> Y) (k_proc t) (k_proc s')"
    by auto
  have p: "p \<in> set R'" using r(3) w assms(3) by simp
  have "p_sig (k_proc s' p) = p_sig (k_proc t p) \<and> p_pri (k_proc s' p) = p_pri (k_proc t p)"
    using wokenD(4,5)[OF r(4), of p] by blast
  then show ?thesis using r(1,2) p queuesD(10)[OF r(2) p] by (auto simp: t_def upd_proc_def)
qed

text \<open>C19: The flaw that \<open>no_clash\<close> excludes.  When a swapped out process is woken and the swapper,
  waiting, is the next one in the same hash bucket, \<open>wakeup\<close> goes on along the run queue and
  returns, and the processes behind that wait for the same channel stay asleep.\<close>

theorem wakeup_misses:
  assumes "queues e s Q R" "Q (hash e ch) = p # z # rest"
    and "p_wchan (k_proc s p) = Some ch" "SLOAD \<notin> p_flag (k_proc s p)"
    and "p_wchan (k_proc s z) = Some Ch_runout" "k_runout s \<noteq> 0" "ch \<noteq> Ch_runout"
  shows "\<exists>s'. wakeup e ch s = Ret () s' \<and>
    (\<forall>x \<in> set rest. p_wchan (k_proc s x) = Some ch \<longrightarrow> p_wchan (k_proc s' x) = Some ch)"
  by (rule wakeup_clash[OF assms])

subsection \<open>Witnesses\<close>

text \<open>Process 1 runs, 2 and 3 are on the run queue, 4 sleeps on \<open>lbolt\<close>.\<close>

definition queued_kst :: kst where
  "queued_kst = kst0\<lparr>k_u := user0\<lparr>u_procp := 1, u_signal := (\<lambda>_. 0)(2 := 1)\<rparr>, k_proc := (\<lambda>_. proc0)(
     1 := proc0\<lparr>p_stat := SRUN, p_flag := {SLOAD}, p_sig := 6, p_nice := NZERO\<rparr>,
     2 := proc0\<lparr>p_stat := SRUN, p_flag := {SLOAD}, p_pri := 60, p_link := Some 3\<rparr>,
     3 := proc0\<lparr>p_stat := SRUN, p_flag := {SLOAD}, p_pri := 50\<rparr>,
     4 := proc0\<lparr>p_stat := SSLEEP, p_flag := {SLOAD}, p_pri := 55, p_wchan := Some Ch_lbolt\<rparr>),
     k_runq := Some 2, k_slpque := (\<lambda>_. None)(0 := Some 4)\<rparr>"

lemma hash_env0 [simp]: "hash env0 c = 0"
  by (simp add: hash_def env0_def)

lemma queued_kst_queues: "queues env0 queued_kst ((\<lambda>_. [])(0 := [4])) [2, 3]"
  by (auto simp: queues_on_def queued_kst_def kst0_def proc0_def)

lemma queued_kst_no_clash: "no_clash env0 queued_kst"
  by (simp add: no_clash_def queued_kst_def kst0_def)


theorem wakeup_wakes_sleepers_witness:
  "\<exists>s' Q' R' Y. wakeup env0 Ch_lbolt queued_kst = Ret () s' \<and> queues env0 s' Q' R' \<and>
    set R' = set [2, 3] \<union> {p. p < NPROC \<and> p_wchan (k_proc queued_kst p) = Some Ch_lbolt} \<union> Y \<and>
    woken ({p. p < NPROC \<and> p_wchan (k_proc queued_kst p) = Some Ch_lbolt} \<union> Y) (k_proc queued_kst) (k_proc s') \<and>
    sched_only queued_kst s' \<and>
    Y \<subseteq> {p. p < NPROC \<and> p_wchan (k_proc queued_kst p) = Some Ch_runout} \<and> (k_runout queued_kst = 0 \<longrightarrow> Y = {})"
  by (rule wakeup_wakes_sleepers[OF queued_kst_queues queued_kst_no_clash])


theorem swtch_search_best_witness:
  "\<exists>us p vs s'. [2, 3] = us @ p # vs \<and> swtch_search queued_kst = Ret (Some p) s' \<and>
    queues env0 s' ((\<lambda>_. [])(0 := [4])) (us @ vs) \<and>
    SLOAD \<in> p_flag (k_proc queued_kst p) \<and> k_curpri s' = p_pri (k_proc queued_kst p) \<and>
    (\<forall>y \<in> set us. SLOAD \<in> p_flag (k_proc queued_kst y) \<longrightarrow> p_pri (k_proc queued_kst p) < p_pri (k_proc queued_kst y)) \<and>
    (\<forall>y \<in> set vs. SLOAD \<in> p_flag (k_proc queued_kst y) \<longrightarrow> p_pri (k_proc queued_kst p) \<le> p_pri (k_proc queued_kst y))"
  by (rule swtch_search_best[OF queued_kst_queues, of 3]) (simp_all add: queued_kst_def)

theorem setpri_bounds_witness:
  "30 \<le> fst (setpri 1 queued_kst) \<and> fst (setpri 1 queued_kst) \<le> 84 \<and>
    p_pri (k_proc (snd (setpri 1 queued_kst)) 1) = fst (setpri 1 queued_kst)"
  by (rule setpri_bounds) (simp_all add: queued_kst_def)

theorem issig_returns_witness:
  "\<exists>n s'. issig queued_kst = Ret n s' \<and>
    ((n = 0 \<and> (\<forall>m. \<not> deliverable queued_kst m) \<and> s' = sig_cleared 0 queued_kst) \<or>
     (deliverable queued_kst n \<and> (\<forall>m < n. \<not> deliverable queued_kst m) \<and>
      s' = sig_cleared (p_sig (k_proc queued_kst (curproc queued_kst)) AND NOT (mask (n - 1))) queued_kst))"
  by (rule issig_returns) (simp_all add: queued_kst_def)

theorem psignal_rouses_witness:
  "\<exists>s' Q' R'. psignal env0 4 2 queued_kst = Ret () s' \<and> queues env0 s' Q' R' \<and> 4 \<in> set R' \<and>
    p_stat (k_proc s' 4) = SRUN \<and> p_sig (k_proc s' 4) = p_sig (k_proc queued_kst 4) OR sigbit (nat 2) \<and>
    p_pri (k_proc s' 4) = min PUSER (p_pri (k_proc queued_kst 4))"
  by (rule psignal_rouses[OF queued_kst_queues queued_kst_no_clash]) (simp_all add: queued_kst_def)

text \<open>Addresses 2048 words apart share a bucket: the channel of the sleepers 1 and 2, the first of
  which is swapped out, and that of the swapper, between them.\<close>

definition clash_env :: env where
  "clash_env = env0\<lparr>e_addr := (\<lambda>c. if c = Ch_runout then 2048 else 4096)\<rparr>"

definition clash_kst :: kst where
  "clash_kst = kst0\<lparr>k_runout := 1, k_slpque := (\<lambda>_. None)(0 := Some 1), k_proc := (\<lambda>_. proc0)(
     0 := proc0\<lparr>p_stat := SSLEEP, p_flag := {SLOAD}, p_wchan := Some Ch_runout, p_link := Some 2\<rparr>,
     1 := proc0\<lparr>p_stat := SSLEEP, p_wchan := Some Ch_lbolt, p_link := Some 0\<rparr>,
     2 := proc0\<lparr>p_stat := SSLEEP, p_flag := {SLOAD}, p_wchan := Some Ch_lbolt\<rparr>)\<rparr>"

lemma hash_clash_env [simp]: "hash clash_env c = 0"
  by (simp add: hash_def clash_env_def)

lemma clash_kst_queues: "queues clash_env clash_kst ((\<lambda>_. [])(0 := [1, 0, 2])) []"
  by (auto simp: queues_on_def clash_kst_def kst0_def proc0_def)

theorem wakeup_misses_witness:
  "\<exists>s'. wakeup clash_env Ch_lbolt clash_kst = Ret () s' \<and> p_wchan (k_proc s' 2) = Some Ch_lbolt"
  using wakeup_misses[OF clash_kst_queues, of Ch_lbolt 1 0 "[2]"] by (simp add: clash_kst_def proc0_def)

end
