(* ===== verification/Clock.thy ===== *)
theory Clock
  imports Dispatch
begin

section \<open>The clock (kernel/clock.c)\<close>

text \<open>
  \<open>clock\<close> runs at every tick: it counts the callouts down and calls those that are due, charges the
  tick, and once a second ages the processes.  The callout table holds differences: an entry's
  time is the number of ticks after the entry before it.  An access beyond the end of the table
  is the outcome \<open>bad address\<close>.
\<close>

subsection \<open>Callouts\<close>

definition used :: "callo \<Rightarrow> bool" where
  "used c \<longleftrightarrow> c_func c \<noteq> None"

text \<open>The place of a new entry due in \<open>t\<close> ticks, and the ticks after the entry before it.\<close>

function timeout_slot :: "callo list \<Rightarrow> nat \<Rightarrow> int \<Rightarrow> (nat \<times> int) option" where
  "timeout_slot L p t =
     (if p \<ge> length L then None
      else if used (L ! p) \<and> c_time (L ! p) \<le> t then timeout_slot L (Suc p) (t - c_time (L ! p))
      else Some (p, t))"
  by pat_completeness auto
termination by (relation "measure (\<lambda>(L, p, t). length L - p)") auto

declare timeout_slot.simps [simp del]

text \<open>The first unused entry from \<open>p\<close> on.\<close>

function unused_from :: "callo list \<Rightarrow> nat \<Rightarrow> nat option" where
  "unused_from L p = (if p \<ge> length L then None else if used (L ! p) then unused_from L (Suc p) else Some p)"
  by pat_completeness auto
termination by (relation "measure (\<lambda>(L, p). length L - p)") auto

declare unused_from.simps [simp del]

text \<open>Move the entries \<open>p1\<close> to \<open>p2\<close> up by one.\<close>

definition shift_up :: "callo list \<Rightarrow> nat \<Rightarrow> nat \<Rightarrow> callo list" where
  "shift_up L p1 p2 = fold (\<lambda>p L. L[Suc p := L ! p]) (rev [p1 ..< Suc p2]) L"

definition timeout :: "nat \<Rightarrow> int \<Rightarrow> int \<Rightarrow> unit km" where
  "timeout fn arg tim s =
     (case timeout_slot (k_callout s) 0 tim of
        None \<Rightarrow> Panic ''bad address'' s
      | Some (p1, t) \<Rightarrow>
          if p1 \<ge> NCALL - 1 then Panic ''Timeout table overflow'' s
          else
            (let L = (k_callout s)[p1 := (k_callout s ! p1)\<lparr>c_time := c_time (k_callout s ! p1) - t\<rparr>]
             in case unused_from L p1 of
                  None \<Rightarrow> Panic ''bad address'' s
                | Some p2 \<Rightarrow>
                    if Suc p2 \<ge> NCALL then Panic ''bad address'' s
                    else Ret () (s\<lparr>k_callout := (shift_up L p1 p2)[p1 := \<lparr>c_time = t, c_arg = arg, c_func = Some fn\<rparr>]\<rparr>)))"

text \<open>Count down the first entry that is not due yet.\<close>

function first_ahead :: "callo list \<Rightarrow> nat \<Rightarrow> nat option" where
  "first_ahead L p =
     (if p \<ge> length L then None
      else if c_time (L ! p) \<le> 0 \<and> used (L ! p) then first_ahead L (Suc p) else Some p)"
  by pat_completeness auto
termination by (relation "measure (\<lambda>(L, p). length L - p)") auto

declare first_ahead.simps [simp del]

text \<open>Call what is due, from entry \<open>p\<close> on; the result is the first entry left.  A routine may itself
  ask for a timeout.\<close>

primrec run_due :: "env \<Rightarrow> nat \<Rightarrow> nat \<Rightarrow> nat km" where
  "run_due e 0 p = panic ''bad address''"
| "run_due e (Suc n) p = (\<lambda>s.
     if p \<ge> NCALL then Panic ''bad address'' s
     else case c_func (k_callout s ! p) of
       None \<Rightarrow> Ret p s
     | Some fn \<Rightarrow>
         if c_time (k_callout s ! p) \<le> 0 then andthen (e_callfn e fn (c_arg (k_callout s ! p))) (run_due e n (Suc p)) s
         else Ret p s)"

text \<open>Close the table up: entries from \<open>p1\<close> on move to \<open>p2\<close>, up to and with the mark of the end.\<close>

function close_table :: "callo list \<Rightarrow> nat \<Rightarrow> nat \<Rightarrow> (callo list) option" where
  "close_table L p1 p2 =
     (if p1 \<ge> length L then None
      else if used (L ! p1) then close_table (L[p2 := L ! p1]) (Suc p1) (Suc p2)
      else Some (L[p2 := (L ! p2)\<lparr>c_func := None\<rparr>]))"
  by pat_completeness auto
termination by (relation "measure (\<lambda>(L, p1, p2). length L - p1)") auto

declare close_table.simps [simp del]

definition clock_callouts :: "env \<Rightarrow> unit km" where
  "clock_callouts e s =
     (if \<not> used (k_callout s ! 0) then Ret () s
      else case first_ahead (k_callout s) 0 of
        None \<Rightarrow> Panic ''bad address'' s
      | Some p2 \<Rightarrow> seq [
          modify (\<lambda>s. s\<lparr>k_callout := (k_callout s)[p2 := (k_callout s ! p2)\<lparr>c_time := c_time (k_callout s ! p2) - 1\<rparr>]\<rparr>),
          ifs (\<lambda>s. c_time (k_callout s ! 0) \<le> 0)
            (bind (run_due e (Suc NCALL) 0) (\<lambda>p1.
               bind (need (\<lambda>s. close_table (k_callout s) p1 0)) (\<lambda>L. modify (\<lambda>s. s\<lparr>k_callout := L\<rparr>)))) (ret ())] s)"

subsection \<open>Charging the tick\<close>

definition usermode :: "int \<Rightarrow> bool" where
  "usermode spsw \<longleftrightarrow> spsw AND 12 = 0"

definition charge :: "int \<Rightarrow> kst \<Rightarrow> kst" where
  "charge spsw s =
     (let a = k_dk_busy s AND 7; pp = curproc s;
          (a, s) = (if usermode spsw then
                      (if p_nice (k_proc s pp) > NZERO then a + 8 else a, upd_u (\<lambda>u. u\<lparr>u_utime := u_utime u + 1\<rparr>) s)
                    else
                      (a + 16 + (if k_idling s \<noteq> 0 then 8 else 0), upd_u (\<lambda>u. u\<lparr>u_stime := u_stime u + 1\<rparr>) s));
          s = s\<lparr>k_dk_time := (k_dk_time s)(nat a := k_dk_time s (nat a) + 1)\<rparr>
      in if k_lbolt s AND 3 = 0 then
           upd_proc pp (\<lambda>r. r\<lparr>p_cpu := (if cinc (p_cpu r) = 0 then cdec (cinc (p_cpu r)) else cinc (p_cpu r))\<rparr>) s
         else s)"

subsection \<open>Once a second\<close>

definition decayed :: "proc \<Rightarrow> int" where
  "decayed r =
     (let a = (p_cpu r AND 255) * 8 div 10 + p_nice r - NZERO; a = (if a < 0 then 0 else a)
      in if a > 255 then 255 else a)"

definition alive :: "pstat \<Rightarrow> bool" where
  "alive st \<longleftrightarrow> st = SSLEEP \<or> st = SWAIT \<or> st = SRUN \<or> st = SIDL"

definition age_proc :: "env \<Rightarrow> nat \<Rightarrow> unit km" where
  "age_proc e p = ifs (\<lambda>s. alive (p_stat (k_proc s p))) (seq [
     modify (upd_proc p (\<lambda>r. r\<lparr>p_time := (if p_time r \<noteq> 127 then p_time r + 1 else p_time r)\<rparr>)),
     ifs (\<lambda>s. p_clktim (k_proc s p) \<noteq> 0) (seq [
       modify (upd_proc p (\<lambda>r. r\<lparr>p_clktim := p_clktim r - 1\<rparr>)),
       ifs (\<lambda>s. p_clktim (k_proc s p) = 0) (psignal e p 14) (ret ())]) (ret ()),
     modify (upd_proc p (\<lambda>r. r\<lparr>p_cpu := decayed r\<rparr>)),
     ifs (\<lambda>s. p_pri (k_proc s p) \<ge> PUSER) (modify (\<lambda>s. snd (setpri p s))) (ret ())]) (ret ())"

primrec age_procs :: "env \<Rightarrow> nat list \<Rightarrow> unit km" where
  "age_procs e [] = ret ()"
| "age_procs e (p # ps) = seq [age_proc e p, age_procs e ps]"

definition clock_second :: "env \<Rightarrow> unit km" where
  "clock_second e = seq [
     modify (\<lambda>s. s\<lparr>k_lbolt := k_lbolt s - HZ, k_time := k_time s + 1, k_runrun := cinc (k_runrun s)\<rparr>),
     wakeup e Ch_lbolt,
     age_procs e [0 ..< NPROC],
     ifs (\<lambda>s. k_runin s \<noteq> 0) (\<lambda>s. wakeup e Ch_runin (s\<lparr>k_runin := 0\<rparr>)) (ret ())]"

definition clock :: "env \<Rightarrow> int \<Rightarrow> unit km" where
  "clock e spsw = seq [
     clock_callouts e,
     modify (charge spsw),
     modify (\<lambda>s. s\<lparr>k_lbolt := k_lbolt s + 1\<rparr>),
     ifs (\<lambda>s. k_lbolt s \<ge> HZ) (clock_second e) (ret ())]"

subsection \<open>The table as a list of deadlines\<close>

fun deadlines :: "callo list \<Rightarrow> int \<Rightarrow> (int \<times> nat \<times> int) list" where
  "deadlines [] a = []"
| "deadlines (c # cs) a =
     (case c_func c of None \<Rightarrow> [] | Some f \<Rightarrow> (a + c_time c, f, c_arg c) # deadlines cs (a + c_time c))"

abbreviation by_then :: "int \<Rightarrow> int \<times> nat \<times> int \<Rightarrow> bool" where
  "by_then t \<equiv> \<lambda>x. fst x \<le> t"

lemma deadlines_unused: "\<not> used c \<Longrightarrow> deadlines (c # cs) a = []"
  by (simp add: used_def)

lemma deadlines_append:
  "\<forall>c \<in> set xs. used c \<Longrightarrow> deadlines (xs @ ys) a = deadlines xs a @ deadlines ys (a + sum_list (map c_time xs))"
  by (induction xs arbitrary: a) (auto simp: used_def algebra_simps)

lemma deadlines_shift: "deadlines us (x + b) = map (map_prod (\<lambda>d. d + b) id) (deadlines us x)"
proof (induction us arbitrary: x)
  case (Cons c us)
  have "x + b + c_time c = x + c_time c + b" by simp
  then show ?case using Cons[of "x + c_time c"] by (simp only: deadlines.simps split: option.split) simp
qed simp

lemma takeWhile_deadlines:
  "length (takeWhile (by_then t) (deadlines us b)) = length (takeWhile (by_then (t - b)) (deadlines us 0))"
proof -
  have "deadlines us b = map (map_prod (\<lambda>d. d + b) id) (deadlines us 0)" using deadlines_shift[of us 0 b] by simp
  then show ?thesis by (simp add: takeWhile_map comp_def le_diff_eq)
qed

text \<open>The used entries come first.\<close>

lemma deadlines_split:
  assumes "length (deadlines L a) < length L"
  obtains us v vs where "L = us @ v # vs" "\<forall>c \<in> set us. used c" "\<not> used v" "length us = length (deadlines L a)"
  using assms
proof (induction L arbitrary: a thesis)
  case Nil
  then show ?case by simp
next
  case (Cons c L)
  show ?case
  proof (cases "used c")
    case False
    then show ?thesis using Cons.prems(1)[of "[]" c L] by (simp add: used_def)
  next
    case True
    then obtain f where f: "c_func c = Some f" by (auto simp: used_def)
    then have "length (deadlines L (a + c_time c)) < length L" using Cons.prems(2) by simp
    then obtain us v vs where "L = us @ v # vs" "\<forall>c \<in> set us. used c" "\<not> used v"
      "length us = length (deadlines L (a + c_time c))" using Cons.IH by blast
    then show ?thesis using Cons.prems(1)[of "c # us" v vs] True f by simp
  qed
qed

lemma timeout_slot_at:
  assumes "\<forall>c \<in> set us. used c" "\<not> used v"
  shows "timeout_slot (pre @ us @ v # vs) (length pre) t =
    Some (length pre + length (takeWhile (by_then t) (deadlines us 0)),
      t - sum_list (map c_time (take (length (takeWhile (by_then t) (deadlines us 0))) us)))"
  using assms(1)
proof (induction us arbitrary: pre t)
  case Nil
  then show ?case using assms(2) by (subst timeout_slot.simps) simp
next
  case (Cons c us)
  obtain f where f: "c_func c = Some f" using Cons.prems by (auto simp: used_def)
  show ?case
  proof (cases "c_time c \<le> t")
    case False
    then show ?thesis using f by (subst timeout_slot.simps) (simp add: used_def)
  next
    case True
    have "timeout_slot (pre @ (c # us) @ v # vs) (length pre) t =
        timeout_slot ((pre @ [c]) @ us @ v # vs) (length (pre @ [c])) (t - c_time c)"
      using True f by (subst timeout_slot.simps) (simp add: used_def)
    also have "\<dots> = Some (length (pre @ [c]) + length (takeWhile (by_then (t - c_time c)) (deadlines us 0)),
        t - c_time c - sum_list (map c_time (take (length (takeWhile (by_then (t - c_time c)) (deadlines us 0))) us)))"
      using Cons.prems by (intro Cons.IH) simp
    finally show ?thesis using True f takeWhile_deadlines[of t us "c_time c"] by simp
  qed
qed

lemma unused_from_at:
  "\<forall>c \<in> set us. used c \<Longrightarrow> \<not> used v \<Longrightarrow> unused_from (pre @ us @ v # vs) (length pre) = Some (length pre + length us)"
proof (induction us arbitrary: pre)
  case Nil
  then show ?case by (subst unused_from.simps) simp
next
  case (Cons c us)
  have "unused_from (pre @ (c # us) @ v # vs) (length pre) = unused_from ((pre @ [c]) @ us @ v # vs) (length (pre @ [c]))"
    using Cons.prems by (subst unused_from.simps) simp
  also have "\<dots> = Some (length (pre @ [c]) + length us)" using Cons.prems by (intro Cons.IH) auto
  finally show ?case by simp
qed

lemma shift_up_at:
  "xs \<noteq> [] \<Longrightarrow> shift_up (pre @ xs @ w # ws) (length pre) (length pre + length xs - 1) = pre @ hd xs # xs @ ws"
proof (induction xs arbitrary: w ws rule: rev_induct)
  case Nil
  then show ?case by simp
next
  case (snoc x xs)
  have upd: "(pre @ (xs @ [x]) @ w # ws)[Suc (length pre + length xs) := x] = pre @ (xs @ [x]) @ x # ws"
    by (simp add: list_update_append)
  have nth: "(pre @ (xs @ [x]) @ w # ws) ! (length pre + length xs) = x" by (simp add: nth_append)
  show ?case
  proof (cases "xs = []")
    case True
    then show ?thesis using upd nth by (simp add: shift_up_def)
  next
    case False
    then have len: "Suc (length pre + length xs - 1) = length pre + length xs" by (cases xs) auto
    have "rev [length pre ..< Suc (length pre + length xs)] =
        (length pre + length xs) # rev [length pre ..< Suc (length pre + length xs - 1)]"
      using False len by simp
    then have "shift_up (pre @ (xs @ [x]) @ w # ws) (length pre) (length pre + length (xs @ [x]) - 1) =
        shift_up (pre @ xs @ x # x # ws) (length pre) (length pre + length xs - 1)"
      using upd nth unfolding shift_up_def by simp
    then show ?thesis using snoc.IH[OF False, of x "x # ws"] False by simp
  qed
qed

lemma length_deadlines: "\<forall>c \<in> set us. used c \<Longrightarrow> length (deadlines us a) = length us"
  by (induction us arbitrary: a) (auto simp: used_def)

lemma deadlines_end: "\<forall>c \<in> set us. used c \<Longrightarrow> \<not> used v \<Longrightarrow> deadlines (us @ v # vs) a = deadlines us a"
  by (simp add: deadlines_append used_def)

text \<open>The entry that a new one is put before loses the ticks up to the new one.\<close>

lemma deadlines_before:
  assumes "\<forall>c \<in> set post. used c" "\<not> used v" "post @ [v] = x # ys"
  shows "deadlines (x\<lparr>c_time := c_time x - t\<rparr> # ys @ ws) (b + t) = deadlines post b"
proof (cases post)
  case Nil
  then show ?thesis using assms by (simp add: used_def)
next
  case (Cons c ps)
  then have "x = c" "ys = ps @ [v]" using assms(3) by auto
  moreover obtain f where "c_func c = Some f" using Cons assms(1) by (auto simp: used_def)
  ultimately show ?thesis using assms(1,2) Cons by (simp add: deadlines_end)
qed

lemma timeout_run:
  fixes t :: int
  assumes L: "k_callout s = pre @ x # ys @ w # ws" and slot: "timeout_slot (k_callout s) 0 tim = Some (length pre, t)"
    and unf: "unused_from (pre @ x\<lparr>c_time := c_time x - t\<rparr> # ys @ w # ws) (length pre) = Some (length pre + length ys)"
    and room: "Suc (length pre + length ys) < NCALL"
  shows "timeout fn arg tim s = Ret () (s\<lparr>k_callout :=
    pre @ \<lparr>c_time = t, c_arg = arg, c_func = Some fn\<rparr> # x\<lparr>c_time := c_time x - t\<rparr> # ys @ ws\<rparr>)"
proof -
  let ?x = "x\<lparr>c_time := c_time x - t\<rparr>"
  have upd: "(k_callout s)[length pre := (k_callout s ! length pre)\<lparr>c_time := c_time (k_callout s ! length pre) - t\<rparr>] =
      pre @ ?x # ys @ w # ws"
    unfolding L by simp
  have sh: "(shift_up (pre @ ?x # ys @ w # ws) (length pre) (length pre + length ys))[length pre := n] = pre @ n # ?x # ys @ ws" for n
    using shift_up_at[of "?x # ys" pre w ws] by simp
  have "(NCALL - 1 \<le> length pre) = False" "(NCALL \<le> Suc (length pre + length ys)) = False" using room by auto
  then show ?thesis unfolding timeout_def slot option.case prod.case Let_def upd unf sh by (simp only: if_False)
qed

lemma timeout_ok:
  assumes len: "length (k_callout s) = NCALL" and room: "length (deadlines (k_callout s) 0) < NCALL - 1"
  defines "D \<equiv> deadlines (k_callout s) 0"
  shows "\<exists>L. timeout fn arg tim s = Ret () (s\<lparr>k_callout := L\<rparr>) \<and> length L = NCALL \<and>
    deadlines L 0 = takeWhile (by_then tim) D @ (tim, fn, arg) # dropWhile (by_then tim) D"
proof -
  obtain us v vs where L: "k_callout s = us @ v # vs" and us: "\<forall>c \<in> set us. used c" and v: "\<not> used v"
    and lus: "length us = length D"
    using deadlines_split[of "k_callout s" 0] room len unfolding D_def by auto
  have D: "D = deadlines us 0" unfolding D_def L by (rule deadlines_end[OF us v])
  have "length us + Suc (length vs) = NCALL" using len unfolding L by simp
  then have "length vs > 0" using room lus unfolding D_def by linarith
  then obtain w ws where vs: "vs = w # ws" by (cases vs) auto
  define k where "k = length (takeWhile (by_then tim) D)"
  have k: "k \<le> length us" unfolding k_def lus by (rule length_takeWhile_le)
  define pre where "pre = take k us"
  define post where "post = drop k us"
  have up: "us = pre @ post" "length pre = k" using k by (auto simp: pre_def post_def)
  have used: "\<forall>c \<in> set pre. used c" "\<forall>c \<in> set post. used c" using us up(1) by auto
  define b where "b = sum_list (map c_time pre)"
  have slot: "timeout_slot (k_callout s) 0 tim = Some (length pre, tim - b)"
    using timeout_slot_at[OF us v, of "[]" vs tim] up(2) by (simp add: L D[symmetric] k_def[symmetric] pre_def b_def)
  obtain x ys where xs: "post @ [v] = x # ys" by (cases "post @ [v]") auto
  define x' where "x' = x\<lparr>c_time := c_time x - (tim - b)\<rparr>"
  have lys: "length ys = length post" using arg_cong[OF xs, of length] by simp
  have "us @ v # vs = pre @ (post @ [v]) @ w # ws" by (simp add: up(1) vs)
  then have L1: "k_callout s = pre @ x # ys @ w # ws" unfolding L xs by simp
  have unf: "unused_from (pre @ x' # ys @ w # ws) (length pre) = Some (length pre + length ys)"
  proof (cases post)
    case Nil
    then have "x = v" "ys = []" using xs by auto
    then show ?thesis using unused_from_at[of "[]" x' pre "w # ws"] v by (simp add: used_def x'_def)
  next
    case (Cons c ps)
    then have "x = c" "ys = ps @ [v]" using xs by auto
    then show ?thesis using unused_from_at[of "x' # ps" v pre "w # ws"] v Cons used(2) by (simp add: used_def x'_def)
  qed
  have "length us = length pre + length ys" using arg_cong[OF up(1), of length] lys by simp
  then have room': "Suc (length pre + length ys) < NCALL" using room lus unfolding D_def by linarith
  define n where "n = \<lparr>c_time = tim - b, c_arg = arg, c_func = Some fn\<rparr>"
  have run: "timeout fn arg tim s = Ret () (s\<lparr>k_callout := pre @ n # x' # ys @ ws\<rparr>)"
    unfolding n_def x'_def by (rule timeout_run[OF L1 slot unf[unfolded x'_def] room'])
  have "D = deadlines pre 0 @ deadlines post b" unfolding D up(1) b_def using deadlines_append[OF used(1), of post 0] by simp
  moreover have "length (deadlines pre 0) = k" using length_deadlines[OF used(1)] up(2) by simp
  ultimately have "take k D = deadlines pre 0" "drop k D = deadlines post b" by simp_all
  then have tw: "takeWhile (by_then tim) D = deadlines pre 0" "dropWhile (by_then tim) D = deadlines post b"
    unfolding k_def takeWhile_eq_take[symmetric] dropWhile_eq_drop[symmetric] .
  have "deadlines (x' # ys @ ws) tim = deadlines post b"
    using deadlines_before[OF used(2) v xs, of "tim - b" ws b] unfolding x'_def by simp
  then have "deadlines (n # x' # ys @ ws) b = (tim, fn, arg) # deadlines post b"
    unfolding n_def by (subst deadlines.simps(2)) (simp del: deadlines.simps)
  then have d: "deadlines (pre @ n # x' # ys @ ws) 0 = deadlines pre 0 @ (tim, fn, arg) # deadlines post b"
    using deadlines_append[OF used(1), of "n # x' # ys @ ws" 0] unfolding b_def by (simp del: deadlines.simps)
  have "length (pre @ n # x' # ys @ ws) = NCALL" using len unfolding L1 by simp
  then show ?thesis unfolding tw using run d by blast
qed

text \<open>With one entry left, an insertion before the end runs past it.\<close>

lemma timeout_full:
  assumes len: "length (k_callout s) = NCALL" and full: "length (deadlines (k_callout s) 0) = NCALL - 1"
    and early: "tim < fst (last (deadlines (k_callout s) 0))"
  shows "timeout fn arg tim s = Panic ''bad address'' s"
proof -
  let ?D = "deadlines (k_callout s) 0"
  obtain us v vs where L: "k_callout s = us @ v # vs" and us: "\<forall>c \<in> set us. used c" and v: "\<not> used v"
    and lus: "length us = length ?D"
    using deadlines_split[of "k_callout s" 0] full len by auto
  have D: "?D = deadlines us 0" unfolding L by (rule deadlines_end[OF us v])
  have "length us + Suc (length vs) = NCALL" using len unfolding L by simp
  then have vs: "vs = []" using full lus by simp
  define k where "k = length (takeWhile (by_then tim) ?D)"
  have ne: "?D \<noteq> []" using full by auto
  then have "last ?D \<in> set ?D" "\<not> by_then tim (last ?D)" using early by auto
  then have "takeWhile (by_then tim) ?D \<noteq> ?D" unfolding takeWhile_eq_all_conv by blast
  then have "k < length ?D" unfolding k_def
    by (metis length_takeWhile_le nat_less_le takeWhile_eq_take take_all order_refl)
  then have k: "k < NCALL - 1" "k < length us" using full lus by linarith+
  define t where "t = tim - sum_list (map c_time (take k us))"
  have slot: "timeout_slot (k_callout s) 0 tim = Some (k, t)"
    using timeout_slot_at[OF us v, of "[]" vs tim] by (simp add: L D[symmetric, unfolded L] k_def t_def)
  define us' where "us' = us[k := (us ! k)\<lparr>c_time := c_time (us ! k) - t\<rparr>]"
  have upd: "(k_callout s)[k := (k_callout s ! k)\<lparr>c_time := c_time (k_callout s ! k) - t\<rparr>] = us' @ [v]"
    using k(2) by (simp add: L vs us'_def nth_append list_update_append)
  have "\<forall>c \<in> set us'. used c"
    using us k(2) by (auto simp: us'_def used_def dest!: set_update_subset_insert[THEN subsetD])
  then have "unused_from (take k us' @ drop k us' @ [v]) (length (take k us')) = Some (length (take k us') + length (drop k us'))"
    by (intro unused_from_at) (auto simp: v dest: in_set_dropD)
  moreover have "length us' = length us" by (simp add: us'_def)
  ultimately have unf: "unused_from (us' @ [v]) k = Some (length us)"
    using k(2) unfolding append.assoc[symmetric] append_take_drop_id by simp
  have "(NCALL - 1 \<le> k) = False" "(NCALL \<le> Suc (length us)) = True" using k full lus by auto
  then show ?thesis unfolding timeout_def slot option.case prod.case Let_def upd unf by (simp only: if_False if_True)
qed

subsection \<open>A tick\<close>

lemma close_table_at:
  "\<forall>c \<in> set us. used c \<Longrightarrow> \<not> used v \<Longrightarrow>
   \<exists>w ws. close_table (pre @ mid @ us @ v # vs) (length pre + length mid) (length pre) = Some (pre @ us @ w # ws) \<and>
     \<not> used w \<and> length ws = length mid + length vs"
proof (induction us arbitrary: pre mid)
  case Nil
  show ?case
  proof (cases mid)
    case Nil
    then show ?thesis using \<open>\<not> used v\<close> by (subst close_table.simps) (simp add: used_def)
  next
    case (Cons m ms)
    then show ?thesis using \<open>\<not> used v\<close> by (subst close_table.simps) (simp add: used_def nth_append)
  qed
next
  case (Cons u us)
  have st: "close_table (pre @ mid @ (u # us) @ v # vs) (length pre + length mid) (length pre) =
      close_table ((pre @ mid @ (u # us) @ v # vs)[length pre := u]) (Suc (length pre + length mid)) (Suc (length pre))"
    using Cons.prems by (subst close_table.simps) (simp add: nth_append)
  show ?case
  proof (cases mid)
    case Nil
    then have "close_table (pre @ mid @ (u # us) @ v # vs) (length pre + length mid) (length pre) =
        close_table ((pre @ [u]) @ [] @ us @ v # vs) (length (pre @ [u]) + length []) (length (pre @ [u]))"
      unfolding st by simp
    then show ?thesis using Cons.IH[of "pre @ [u]" "[]"] Cons.prems Nil by simp
  next
    case (Cons m ms)
    then have "close_table (pre @ mid @ (u # us) @ v # vs) (length pre + length mid) (length pre) =
        close_table ((pre @ [u]) @ (ms @ [u]) @ us @ v # vs) (length (pre @ [u]) + length (ms @ [u])) (length (pre @ [u]))"
      unfolding st by simp
    then show ?thesis using Cons.IH[of "pre @ [u]" "ms @ [u]"] Cons.prems Cons by simp
  qed
qed

lemma first_ahead_at:
  assumes "\<forall>c \<in> set zs. used c \<and> c_time c \<le> 0" "\<not> (used y \<and> c_time y \<le> 0)"
  shows "first_ahead (pre @ zs @ y # ys) (length pre) = Some (length pre + length zs)"
  using assms(1)
proof (induction zs arbitrary: pre)
  case Nil
  then show ?case using assms(2) by (subst first_ahead.simps) auto
next
  case (Cons z zs)
  have "first_ahead (pre @ (z # zs) @ y # ys) (length pre) = first_ahead ((pre @ [z]) @ zs @ y # ys) (length (pre @ [z]))"
    using Cons.prems by (subst first_ahead.simps) simp
  also have "\<dots> = Some (length (pre @ [z]) + length zs)" using Cons.prems by (intro Cons.IH) simp
  finally show ?case by simp
qed

text \<open>The routines that callouts name return and leave the table alone; \<open>g\<close> is what they do.\<close>

definition quiet :: "env \<Rightarrow> (nat \<Rightarrow> int \<Rightarrow> kst \<Rightarrow> kst) \<Rightarrow> bool" where
  "quiet e g \<longleftrightarrow> (\<forall>f a s. e_callfn e f a s = Ret () (g f a s) \<and> k_callout (g f a s) = k_callout s)"

definition calls :: "(nat \<Rightarrow> int \<Rightarrow> kst \<Rightarrow> kst) \<Rightarrow> (int \<times> nat \<times> int) list \<Rightarrow> kst \<Rightarrow> kst" where
  "calls g ds = fold (\<lambda>(d, f, a). g f a) ds"

lemma calls_callout: "quiet e g \<Longrightarrow> k_callout (calls g ds s) = k_callout s"
  by (induction ds arbitrary: s) (auto simp: calls_def quiet_def)

lemma run_due_at:
  assumes g: "quiet e g" and len: "length (pre @ zs @ y # ys) = NCALL" "\<not> (used y \<and> c_time y \<le> 0)"
    and "\<forall>c \<in> set zs. used c \<and> c_time c \<le> 0" "k_callout s = pre @ zs @ y # ys" "length zs < n"
  shows "run_due e n (length pre) s = Ret (length pre + length zs) (calls g (deadlines zs a) s)"
  using len(1) assms(4-)
proof (induction zs arbitrary: pre s n a)
  case Nil
  obtain n' where n: "n = Suc n'" using Nil.prems(4) by (cases n) auto
  have "k_callout s ! length pre = y" "\<not> NCALL \<le> length pre" using Nil.prems(1,3) by auto
  then show ?case using len(2) by (auto simp: n calls_def used_def split: option.split)
next
  case (Cons z zs)
  obtain n' where n: "n = Suc n'" using Cons.prems(4) by (cases n) auto
  obtain f where f: "c_func z = Some f" "c_time z \<le> 0" using Cons.prems(2) by (auto simp: used_def)
  have z: "k_callout s ! length pre = z" "\<not> NCALL \<le> length pre" using Cons.prems(1,3) by auto
  let ?s = "g f (c_arg z) s"
  have gs: "e_callfn e f (c_arg z) s = Ret () ?s" "k_callout ?s = k_callout s" using g unfolding quiet_def by blast+
  have "run_due e n (length pre) s = run_due e n' (length (pre @ [z])) ?s"
    using z f gs(1) by (simp add: n run_defs)
  also have "\<dots> = Ret (length (pre @ [z]) + length zs) (calls g (deadlines zs (a + c_time z)) ?s)"
    using Cons.prems gs(2) n by (intro Cons.IH) auto
  finally show ?case using f by (simp add: calls_def)
qed

lemma calls_snd: "map snd ds = map snd ds' \<Longrightarrow> calls g ds = calls g ds'"
proof -
  have "calls g xs s = fold (\<lambda>p. case p of (f, a) \<Rightarrow> g f a) (map snd xs) s" for xs s
    by (induction xs arbitrary: s) (auto simp: calls_def)
  then show "map snd ds = map snd ds' \<Longrightarrow> ?thesis" by (simp add: fun_eq_iff)
qed

lemma due_deadlines:
  assumes "\<forall>c \<in> set us. used c \<and> 0 \<le> c_time c"
  shows "takeWhile (by_then 0) (deadlines us 0) = deadlines (takeWhile (\<lambda>c. c_time c \<le> 0) us) 0"
    "dropWhile (by_then 0) (deadlines us 0) = deadlines (dropWhile (\<lambda>c. c_time c \<le> 0) us) 0"
  using assms by (induction us) (auto simp: used_def)

lemma deadlines_zero:
  assumes "\<forall>c \<in> set zs. used c \<and> c_time c = 0" "x \<in> set (deadlines zs 0)"
  shows "fst x = 0"
  using assms by (induction zs) (auto simp: used_def)

abbreviation later :: "(int \<times> nat \<times> int) list \<Rightarrow> (int \<times> nat \<times> int) list" where
  "later \<equiv> map (map_prod (\<lambda>d. d + 1) id)"

abbreviation sooner :: "(int \<times> nat \<times> int) list \<Rightarrow> (int \<times> nat \<times> int) list" where
  "sooner \<equiv> map (map_prod (\<lambda>d. d - 1) id)"

lemma later_while:
  "takeWhile (by_then 1) (later X) = later (takeWhile (by_then 0) X)"
  "dropWhile (by_then 1) (later X) = later (dropWhile (by_then 0) X)"
  by (induction X) auto

lemma sooner_later: "sooner (later X) = X"
  by (simp add: map_idI map_prod_def case_prod_beta)

lemma count_down:
  assumes zs: "\<forall>c \<in> set zs. used c \<and> c_time c = 0" and r: "used r"
    and us1: "us1 = zs @ r\<lparr>c_time := c_time r - 1\<rparr> # rs"
  defines "D \<equiv> deadlines (zs @ r # rs) 0"
  shows "map snd (takeWhile (by_then 1) D) = map snd (takeWhile (by_then 0) (deadlines us1 0))"
    "sooner (dropWhile (by_then 1) D) = dropWhile (by_then 0) (deadlines us1 0)"
proof -
  let ?r = "r\<lparr>c_time := c_time r - 1\<rparr>" and ?Z = "deadlines zs 0"
  let ?X = "deadlines (?r # rs) 0"
  have u: "\<forall>c \<in> set zs. used c" and sum: "sum_list (map c_time zs) = 0" using zs by (induction zs) auto
  have "deadlines (r # rs) 0 = deadlines (?r # rs) 1" using r by (auto simp: used_def)
  also have "\<dots> = later ?X" using deadlines_shift[of "?r # rs" 0 1] by (simp only: add_0_left)
  finally have D: "D = ?Z @ later ?X" unfolding D_def deadlines_append[OF u] sum by (simp only: add_0_left)
  have E: "deadlines us1 0 = ?Z @ ?X" unfolding us1 deadlines_append[OF u] sum by (simp only: add_0_left)
  have Z: "\<And>x. x \<in> set ?Z \<Longrightarrow> by_then 1 x" "\<And>x. x \<in> set ?Z \<Longrightarrow> by_then 0 x" using deadlines_zero[OF zs] by fastforce+
  have d: "takeWhile (by_then 1) D = ?Z @ later (takeWhile (by_then 0) ?X)" "dropWhile (by_then 1) D = later (dropWhile (by_then 0) ?X)"
    unfolding D using takeWhile_append2[OF Z(1), where ys = "later ?X"] dropWhile_append2[OF Z(1), where ys = "later ?X"]
    by (simp_all only: later_while)
  have e: "takeWhile (by_then 0) (deadlines us1 0) = ?Z @ takeWhile (by_then 0) ?X"
    "dropWhile (by_then 0) (deadlines us1 0) = dropWhile (by_then 0) ?X"
    unfolding E using takeWhile_append2[OF Z(2), where ys = ?X] dropWhile_append2[OF Z(2), where ys = ?X] by simp_all
  show "map snd (takeWhile (by_then 1) D) = map snd (takeWhile (by_then 0) (deadlines us1 0))"
    unfolding d e by (simp del: deadlines.simps)
  show "sooner (dropWhile (by_then 1) D) = dropWhile (by_then 0) (deadlines us1 0)"
    unfolding d e by (rule sooner_later)
qed

lemma tick_table:
  assumes us: "\<forall>c \<in> set us. used c \<and> 0 \<le> c_time c" and v: "\<not> used v"
  obtains p us1 v1 where "first_ahead (us @ v # vs) 0 = Some p"
    "(us @ v # vs)[p := ((us @ v # vs) ! p)\<lparr>c_time := c_time ((us @ v # vs) ! p) - 1\<rparr>] = us1 @ v1 # vs"
    "\<forall>c \<in> set us1. used c \<and> 0 \<le> c_time c" "\<not> used v1" "length us1 = length us"
    "map snd (takeWhile (by_then 1) (deadlines us 0)) = map snd (takeWhile (by_then 0) (deadlines us1 0))"
    "sooner (dropWhile (by_then 1) (deadlines us 0)) = dropWhile (by_then 0) (deadlines us1 0)"
proof -
  define zs where "zs = takeWhile (\<lambda>c. c_time c \<le> 0) us"
  have zs: "\<forall>c \<in> set zs. used c \<and> c_time c = 0" unfolding zs_def using us by (auto dest!: set_takeWhileD)
  then have z: "\<forall>c \<in> set zs. used c \<and> c_time c \<le> 0" by simp
  show thesis
  proof (cases "dropWhile (\<lambda>c. c_time c \<le> 0) us")
    case Nil
    then have e: "us = zs" unfolding zs_def by (metis takeWhile_dropWhile_id append_Nil2)
    have f: "first_ahead (us @ v # vs) 0 = Some (length us)" using first_ahead_at[OF z, of v "[]" vs] v unfolding e by simp
    have all: "\<And>x. x \<in> set (deadlines us 0) \<Longrightarrow> fst x = 0" using deadlines_zero[OF zs] unfolding e by simp
    show ?thesis
      using that[of "length us" us "v\<lparr>c_time := c_time v - 1\<rparr>", OF f] us v all
      by (simp add: used_def takeWhile_eq_all_conv[THEN iffD2] dropWhile_eq_Nil_conv[THEN iffD2])
  next
    case (Cons r rs)
    have e: "us = zs @ r # rs" unfolding zs_def Cons[symmetric] by simp
    have r: "\<not> c_time r \<le> 0" using hd_dropWhile[of "\<lambda>c. c_time c \<le> 0" us] Cons by simp
    have f: "first_ahead (us @ v # vs) 0 = Some (length zs)" using first_ahead_at[OF z, of r "[]" "rs @ v # vs"] r unfolding e by simp
    have ur: "used r" "0 < c_time r" using us r unfolding e by auto
    show ?thesis
      using that[of "length zs" "zs @ r\<lparr>c_time := c_time r - 1\<rparr> # rs" v, OF f] us ur v
        count_down[OF zs ur(1), of "zs @ r\<lparr>c_time := c_time r - 1\<rparr> # rs" rs] unfolding e
      by (auto simp: used_def nth_append)
  qed
qed

lemma tick_run:
  assumes g: "quiet e g" and n: "length (zs @ ys @ v # vs) = NCALL"
    and z: "\<forall>c \<in> set zs. used c \<and> c_time c \<le> 0" and y: "\<forall>c \<in> set ys. used c" "ys \<noteq> [] \<Longrightarrow> \<not> c_time (hd ys) \<le> 0"
    and v: "\<not> used v" and ne: "zs @ ys \<noteq> []" and s: "k_callout s = zs @ ys @ v # vs"
  shows "\<exists>L. ifs (\<lambda>s. c_time (k_callout s ! 0) \<le> 0)
      (bind (run_due e (Suc NCALL) 0) (\<lambda>p1.
         bind (need (\<lambda>s. close_table (k_callout s) p1 0)) (\<lambda>L. modify (\<lambda>s. s\<lparr>k_callout := L\<rparr>)))) (ret ()) s =
    Ret () ((calls g (deadlines zs 0) s)\<lparr>k_callout := L\<rparr>) \<and> length L = NCALL \<and> deadlines L 0 = deadlines ys 0"
proof (cases zs)
  case Nil
  then have "\<not> c_time (k_callout s ! 0) \<le> 0" using y(2) ne unfolding s by (cases ys) auto
  then show ?thesis using s n deadlines_end[OF y(1) v, of vs 0]
    by (intro exI[of _ "k_callout s"]) (simp add: Nil calls_def run_defs)
next
  case (Cons c cs)
  then have h: "c_time (k_callout s ! 0) \<le> 0" using z unfolding s by simp
  obtain q qs where q: "ys @ v # vs = q # qs" "\<not> (used q \<and> c_time q \<le> 0)" using y v by (cases ys) auto
  have rd: "run_due e (Suc NCALL) 0 s = Ret (length zs) (calls g (deadlines zs 0) s)"
    using run_due_at[OF g _ q(2) z, of "[]" qs s "Suc NCALL" 0] n s unfolding q(1) by simp
  obtain w ws where ct: "close_table (zs @ ys @ v # vs) (length zs) 0 = Some (ys @ w # ws)"
    and w: "\<not> used w" "length ws = length zs + length vs"
    using close_table_at[OF y(1) v, of "[]" zs vs] by auto
  show ?thesis
    using h rd ct w(2) n deadlines_end[OF y(1) w(1), of ws 0] s calls_callout[OF g, of "deadlines zs 0" s]
    by (intro exI[of _ "ys @ w # ws"]) (simp add: run_defs)
qed

lemma tick_ok:
  assumes len: "length (k_callout s) = NCALL" and room: "length (deadlines (k_callout s) 0) < NCALL"
    and nonneg: "\<forall>c \<in> set (k_callout s). used c \<longrightarrow> 0 \<le> c_time c" and g: "quiet e g"
  defines "D \<equiv> deadlines (k_callout s) 0"
  shows "\<exists>L1 L. clock_callouts e s = Ret () ((calls g (takeWhile (by_then 1) D) (s\<lparr>k_callout := L1\<rparr>))\<lparr>k_callout := L\<rparr>) \<and>
    length L = NCALL \<and> deadlines L 0 = sooner (dropWhile (by_then 1) D)"
proof -
  obtain us v vs where L: "k_callout s = us @ v # vs" and us': "\<forall>c \<in> set us. used c" and v: "\<not> used v"
    using deadlines_split[of "k_callout s" 0] room len by metis
  have us: "\<forall>c \<in> set us. used c \<and> 0 \<le> c_time c" using us' nonneg unfolding L by auto
  have D: "D = deadlines us 0" unfolding D_def L by (rule deadlines_end[OF us' v])
  obtain p us1 v1 where fa: "first_ahead (us @ v # vs) 0 = Some p"
    and L1: "(us @ v # vs)[p := ((us @ v # vs) ! p)\<lparr>c_time := c_time ((us @ v # vs) ! p) - 1\<rparr>] = us1 @ v1 # vs"
    and us1: "\<forall>c \<in> set us1. used c \<and> 0 \<le> c_time c" "\<not> used v1" "length us1 = length us"
    and due: "map snd (takeWhile (by_then 1) (deadlines us 0)) = map snd (takeWhile (by_then 0) (deadlines us1 0))"
    and left: "sooner (dropWhile (by_then 1) (deadlines us 0)) = dropWhile (by_then 0) (deadlines us1 0)"
    by (rule tick_table[OF us v])
  let ?late = "\<lambda>c::callo. c_time c \<le> 0"
  define zs ys where "zs = takeWhile ?late us1" and "ys = dropWhile ?late us1"
  have zy: "us1 = zs @ ys" unfolding zs_def ys_def by simp
  have z: "\<forall>c \<in> set zs. used c \<and> c_time c \<le> 0" unfolding zs_def using us1(1) by (auto dest!: set_takeWhileD)
  have y: "\<forall>c \<in> set ys. used c" unfolding ys_def using us1(1) by (auto dest!: set_dropWhileD)
  let ?s1 = "s\<lparr>k_callout := us1 @ v1 # vs\<rparr>"
  have calls: "calls g (takeWhile (by_then 1) D) = calls g (deadlines zs 0)"
    unfolding D zs_def due_deadlines(1)[OF us1(1), symmetric] by (rule calls_snd[OF due])
  have rest: "sooner (dropWhile (by_then 1) D) = deadlines ys 0"
    unfolding D left ys_def by (rule due_deadlines(2)[OF us1(1)])
  have n: "length (us1 @ v1 # vs) = NCALL" using len us1(3) unfolding L by simp
  show ?thesis
  proof (cases "us = []")
    case True
    then have "D = []" "us1 = []" using us1(3) unfolding D by simp_all
    moreover have "clock_callouts e s = Ret () s" using v unfolding clock_callouts_def L True by simp
    moreover have "deadlines (k_callout s) 0 = []" using \<open>D = []\<close> unfolding D_def .
    ultimately show ?thesis using len by (intro exI[of _ "k_callout s"]) (simp add: calls_def)
  next
    case False
    then have h: "used (k_callout s ! 0)" using us unfolding L by (cases us) auto
    have cc: "clock_callouts e s = ifs (\<lambda>s. c_time (k_callout s ! 0) \<le> 0)
        (bind (run_due e (Suc NCALL) 0) (\<lambda>p1.
           bind (need (\<lambda>s. close_table (k_callout s) p1 0)) (\<lambda>L. modify (\<lambda>s. s\<lparr>k_callout := L\<rparr>)))) (ret ()) ?s1"
      unfolding clock_callouts_def using h fa L1 unfolding L[symmetric] by (simp add: run_defs)
    have ne: "zs @ ys \<noteq> []" using False us1(3) zy by auto
    have hd: "ys \<noteq> [] \<Longrightarrow> \<not> c_time (hd ys) \<le> 0" unfolding ys_def by (rule hd_dropWhile)
    have "k_callout ?s1 = zs @ ys @ v1 # vs" unfolding zy by simp
    from tick_run[OF g _ z y hd us1(2) ne this] n obtain L' where
      "clock_callouts e s = Ret () ((calls g (deadlines zs 0) ?s1)\<lparr>k_callout := L'\<rparr>)" "length L' = NCALL"
      "deadlines L' 0 = deadlines ys 0" unfolding cc zy by auto
    then show ?thesis unfolding calls rest by blast
  qed
qed

subsection \<open>Properties\<close>

text \<open>C20: The callout table holds each entry's time relative to the one before it.  Read as
  absolute deadlines, a call of \<open>timeout(fn, arg, tim)\<close> with fewer than \<open>NCALL - 1\<close> entries pending
  inserts \<open>(tim, fn, arg)\<close> behind all entries that are due no later, and neither moves nor retimes any other.\<close>

theorem timeout_inserts:
  assumes "length (k_callout s) = NCALL" "length (deadlines (k_callout s) 0) < NCALL - 1"
  shows "\<exists>L. timeout fn arg tim s = Ret () (s\<lparr>k_callout := L\<rparr>) \<and> length L = NCALL \<and>
    deadlines L 0 = takeWhile (by_then tim) (deadlines (k_callout s) 0) @ (tim, fn, arg) #
      dropWhile (by_then tim) (deadlines (k_callout s) 0)"
  using timeout_ok[OF assms] .

definition pending :: "nat \<Rightarrow> callo list" where
  "pending n = replicate n \<lparr>c_time = 5, c_arg = 0, c_func = Some 0\<rparr> @
     replicate (NCALL - n) \<lparr>c_time = 0, c_arg = 0, c_func = None\<rparr>"

lemma pending_deadlines:
  "deadlines (pending 2) 0 = [(5, 0, 0), (10, 0, 0)]" "length (pending 2) = NCALL" "length (pending 19) = NCALL"
  "length (deadlines (pending 19) 0) = 19" "fst (last (deadlines (pending 19) 0)) = 95"
  by (simp_all add: pending_def eval_nat_numeral)

theorem timeout_inserts_witness:
  "\<exists>L. timeout 7 1 8 (kst0\<lparr>k_callout := pending 2\<rparr>) = Ret () (kst0\<lparr>k_callout := L\<rparr>) \<and> length L = NCALL \<and>
     deadlines L 0 = [(5, 0, 0), (8, 7, 1), (10, 0, 0)]"
  using timeout_inserts[of "kst0\<lparr>k_callout := pending 2\<rparr>" 7 1 8] by (simp add: pending_deadlines)

text \<open>C21: A clock tick calls, in the order of their deadlines, exactly the entries of the callout table that
  come due with it, and brings every entry that remains one tick closer.  The routines called are those of
  the rest of the kernel; here they return and leave the table alone.\<close>

theorem callouts_run:
  assumes "length (k_callout s) = NCALL" "length (deadlines (k_callout s) 0) < NCALL"
    "\<forall>c \<in> set (k_callout s). used c \<longrightarrow> 0 \<le> c_time c" "quiet e g"
  shows "\<exists>L1 L. clock_callouts e s =
      Ret () ((calls g (takeWhile (by_then 1) (deadlines (k_callout s) 0)) (s\<lparr>k_callout := L1\<rparr>))\<lparr>k_callout := L\<rparr>) \<and>
    length L = NCALL \<and> deadlines L 0 = sooner (dropWhile (by_then 1) (deadlines (k_callout s) 0))"
  using tick_ok[OF assms] .

definition three_due :: "callo list" where
  "three_due = [\<lparr>c_time = 1, c_arg = 10, c_func = Some 4\<rparr>, \<lparr>c_time = 0, c_arg = 11, c_func = Some 5\<rparr>,
     \<lparr>c_time = 3, c_arg = 12, c_func = Some 6\<rparr>] @ replicate 17 \<lparr>c_time = 0, c_arg = 0, c_func = None\<rparr>"

definition note_env :: env where
  "note_env = env0\<lparr>e_callfn := (\<lambda>f a s. Ret () (s\<lparr>k_lbolt := 100 * k_lbolt s + a\<rparr>))\<rparr>"

theorem callouts_run_witness:
  "\<exists>s L. clock_callouts note_env (kst0\<lparr>k_callout := three_due\<rparr>) = Ret () s \<and> k_lbolt s = 1011 \<and>
     k_callout s = L \<and> length L = NCALL \<and> deadlines L 0 = [(3, 6, 12)]"
proof -
  let ?s = "kst0\<lparr>k_callout := three_due\<rparr>"
  have d: "length three_due = NCALL" "deadlines three_due 0 = [(1, 4, 10), (1, 5, 11), (4, 6, 12)]"
    "\<forall>c \<in> set three_due. used c \<longrightarrow> 0 \<le> c_time c"
    by (simp_all add: three_due_def eval_nat_numeral)
  have q: "quiet note_env (\<lambda>f a s. s\<lparr>k_lbolt := 100 * k_lbolt s + a\<rparr>)" by (simp add: quiet_def note_env_def)
  show ?thesis using callouts_run[OF _ _ _ q, of ?s] d by (auto simp: calls_def kst0_def)
qed

text \<open>C22: \<open>timeout\<close> tests only the place of insertion against the end of the table.  With \<open>NCALL - 1\<close> entries
  pending, a request due before the last of them passes the test, and the shift that makes room for it runs
  past the end of \<open>callout[]\<close>.\<close>

theorem timeout_overruns:
  assumes "length (k_callout s) = NCALL" "length (deadlines (k_callout s) 0) = NCALL - 1"
    "tim < fst (last (deadlines (k_callout s) 0))"
  shows "timeout fn arg tim s = Panic ''bad address'' s"
  using timeout_full[OF assms] .

theorem timeout_overruns_witness:
  "timeout 7 1 8 (kst0\<lparr>k_callout := pending 19\<rparr>) = Panic ''bad address'' (kst0\<lparr>k_callout := pending 19\<rparr>)"
  using timeout_overruns[of "kst0\<lparr>k_callout := pending 19\<rparr>" 8 7 1] by (simp add: pending_deadlines)

end
