(* ===== verification/Conf.thy ===== *)
theory Conf
  imports Gate Disk Clock
begin

section \<open>The device tables and the interrupt dispatch (kernel/conf.c, kernel/intr.c)\<close>

text \<open>
  Elsewhere the entry points of the drivers are parameters; here the tables of the kernel are filled in:
  \<open>bdevsw\<close> with the disks and the drums, \<open>cdevsw\<close> with the typewriters, the controlling terminal and the raw
  disks and drums.  Of the memory devices (major 1) only read and write remain parameters.  The controlling terminal calls the
  row of the terminal it stands for, which is never its own.
\<close>

definition bdevsw_open :: "env \<Rightarrow> int \<Rightarrow> int \<Rightarrow> unit km" where
  "bdevsw_open e dev rw =
     (if major dev = 0 then mdopen e dev rw else if major dev = 1 then mbopen dev rw else panic ''kernel trap'')"

definition bdevsw_strategy :: "env \<Rightarrow> int \<Rightarrow> bufp \<Rightarrow> unit km" where
  "bdevsw_strategy e maj bp =
     (if maj = 0 then mdstrategy e bp else if maj = 1 then mbstrategy e bp else panic ''kernel trap'')"

definition with_bdevsw :: "env \<Rightarrow> env" where
  "with_bdevsw e = e\<lparr>e_bopen := bdevsw_open e, e_bclose := (\<lambda>_ _. ret ()), e_strategy := bdevsw_strategy e\<rparr>"

definition with_cdevsw :: "env \<Rightarrow> env" where
  "with_cdevsw e = e\<lparr>
     e_copen := (\<lambda>dev f. if major dev = 0 then scopen e dev f else if major dev = 3 then mdopen e dev f
                         else if major dev = 4 then mbopen dev f else if major dev = 1 then ret () else e_copen e dev f),
     e_cclose := (\<lambda>dev f. if major dev = 0 then scclose e dev f else if major dev \<in> {1, 3, 4} then ret ()
                          else e_cclose e dev f),
     e_cread := (\<lambda>dev. if major dev = 0 then scread e dev else if major dev = 3 then mdread e dev
                       else if major dev = 4 then mbread e dev else e_cread e dev),
     e_cwrite := (\<lambda>dev. if major dev = 0 then scwrite e dev else if major dev = 3 then mdwrite e dev
                        else if major dev = 4 then mbwrite e dev else e_cwrite e dev),
     e_cioctl := (\<lambda>dev c a f. if major dev = 0 then scioctl e dev c a f else if major dev \<in> {1, 3, 4} then ret ()
                              else e_cioctl e dev c a f)\<rparr>"

definition with_tty :: "env \<Rightarrow> env" where
  "with_tty e = e\<lparr>
     e_copen := (\<lambda>dev f. if major dev = 2 then syopen e dev f else e_copen e dev f),
     e_cclose := (\<lambda>dev f. if major dev = 2 then ret () else e_cclose e dev f),
     e_cread := (\<lambda>dev. if major dev = 2 then syread e dev else e_cread e dev),
     e_cwrite := (\<lambda>dev. if major dev = 2 then sywrite e dev else e_cwrite e dev),
     e_cioctl := (\<lambda>dev c a f. if major dev = 2 then sysioctl e dev c a f else e_cioctl e dev c a f)\<rparr>"

definition v7besm :: "env \<Rightarrow> env" where
  "v7besm e = with_tty (with_cdevsw (with_bdevsw e))"

subsection \<open>Interrupts\<close>

definition prpintr :: "env \<Rightarrow> unit km" where
  "prpintr e = scintr e"

text \<open>The highest bit of a word, as the instruction \<open>anx\<close> finds it.\<close>

definition hibit :: "w48 \<Rightarrow> w48" where
  "hibit w = (case find (bit w) (rev [0 ..< 48]) of None \<Rightarrow> 0 | Some i \<Rightarrow> push_bit i 1)"

definition drop_bit_nobody_handles :: "env \<Rightarrow> w48 \<Rightarrow> unit km" where
  "drop_bit_nobody_handles e b = seq [
     modw e MOD_GRPCLR (NOT b),
     bind (modi e MOD_GRP 0) (\<lambda>g. guard (g AND b \<noteq> 0) (mgrpoff e b))]"

definition service :: "env \<Rightarrow> int \<Rightarrow> w48 \<Rightarrow> unit km" where
  "service e spsw grp =
     (if grp AND GRP_SLAVE \<noteq> 0 then seq [prpintr e, modw e MOD_GRPCLR (NOT GRP_SLAVE)]
      else if grp AND GRP_TIMER \<noteq> 0 then seq [modw e MOD_GRPCLR (NOT GRP_TIMER), clock e spsw]
      else if grp AND (GRP_DRUM1_FREE OR GRP_DRUM2_FREE) \<noteq> 0 then mbintr e
      else if grp AND (GRP_CHAN3_FREE OR GRP_CHAN4_FREE) \<noteq> 0 then mdintr e
      else drop_bit_nobody_handles e (hibit grp))"

primrec extintr_loop :: "env \<Rightarrow> int \<Rightarrow> nat \<Rightarrow> unit km" where
  "extintr_loop e spsw 0 = hang"
| "extintr_loop e spsw (Suc n) = bind (modi e MOD_GRP 0) (\<lambda>g s.
     let grp = g AND k_mgrp s
     in if grp = 0 then Ret () s
        else seq [
          modify (\<lambda>s. s\<lparr>k_nintr := k_nintr s + 1\<rparr>),
          service e spsw grp,
          extintr_loop e spsw n] s)"

definition extintr :: "env \<Rightarrow> int \<Rightarrow> unit km" where
  "extintr e spsw = seq [
     extintr_loop e spsw (e_fuel e),
     modify (\<lambda>s. s\<lparr>k_idling := 0\<rparr>)]"

end
