(* ===== verification/Boot.thy ===== *)
theory Boot
  imports Conf
begin

section \<open>Starting the system (kernel/main.c, startup and clkstart of kernel/machdep.c)\<close>

text \<open>
  The first process is made by hand, the tables are set up, the root is mounted, and a second process is
  forked, which gets the bootstrap program \<open>icode\<close>; the first one becomes the swapper.  The counts \<open>nblkdev\<close>
  and \<open>nchrdev\<close> and the decremented \<open>swplo\<close> are constants of the environment.  The clearing of bss is
  compiled out in the source.
\<close>

abbreviation (input) PHYMEM :: int where "PHYMEM \<equiv> 524288"
abbreviation (input) KBYTE :: int where "KBYTE \<equiv> 1024"

definition startup :: "env \<Rightarrow> unit km" where
  "startup e = seq [
     modify (printf (''phys mem  = %d kbytes'' @ NL) [Pint (PHYMEM * NBPW div KBYTE)]),
     modify (\<lambda>s. s\<lparr>k_maxmem := PHYMEM - (NPAGE * PGSZ + USIZE)\<rparr>),
     (\<lambda>s. mfree_core e (k_maxmem s) (NPAGE * PGSZ + USIZE) s),
     modify (\<lambda>s. printf (''user mem  = %d kbytes'' @ NL) [Pint (k_maxmem s * NBPW div KBYTE)] s),
     modify (\<lambda>s. if MAXMEM < k_maxmem s then s\<lparr>k_maxmem := MAXMEM\<rparr> else s),
     modify (printf (''swap size = %d kbytes'' @ NL) [Pint (e_nswap e * BSIZE div KBYTE)]),
     mfree_swap (e_nswap e) 1]"

definition clkstart :: "env \<Rightarrow> unit km" where
  "clkstart e = modw e MOD_GRPCLR (NOT GRP_TIMER)"

subsection \<open>The buffers\<close>

definition binit_buf :: "env \<Rightarrow> nat \<Rightarrow> unit km" where
  "binit_buf e i = seq [
     modify (\<lambda>s. upd_buf (Buf i) (\<lambda>b. b\<lparr>b_dev := NODEV, b_back := Bfreelist, b_forw := b_forw (k_buf s Bfreelist)\<rparr>) s),
     modify (\<lambda>s. upd_buf (b_forw (k_buf s Bfreelist)) (\<lambda>b. b\<lparr>b_back := Buf i\<rparr>) s),
     modify (upd_buf Bfreelist (\<lambda>b. b\<lparr>b_forw := Buf i\<rparr>)),
     modify (upd_buf (Buf i) (\<lambda>b. b\<lparr>b_flags := {B_BUSY}\<rparr>)),
     brelse e (Buf i)]"

definition binit_tab :: "nat \<Rightarrow> kst \<Rightarrow> kst" where
  "binit_tab m = upd_buf (Dtab m) (\<lambda>b. b\<lparr>b_forw := Dtab m, b_back := Dtab m\<rparr>)"

definition binit :: "env \<Rightarrow> unit km" where
  "binit e = seq [
     modify (upd_buf Bfreelist (\<lambda>b. b\<lparr>b_forw := Bfreelist, b_back := Bfreelist, av_forw := Bfreelist, av_back := Bfreelist\<rparr>)),
     seq (map (binit_buf e) [0 ..< NBUF]),
     modify (binit_tab 0),
     modify (binit_tab 1)]"

subsection \<open>The root\<close>

definition iinit :: "env \<Rightarrow> unit km" where
  "iinit e = seq [
     e_bopen e (e_rootdev e) 1,
     bind (bread e (e_rootdev e) SUPERB) (\<lambda>bp. bind (geteblk e) (\<lambda>cp. seq [
       ifs (\<lambda>s. uerr s \<noteq> 0) (panic ''iinit'') (ret ()),
       bind (lift (sbcheck bp (e_rootdev e))) (\<lambda>bad. guard (bad \<noteq> 0) (panic ''no root fs'')),
       modify (bcopy bp 0 cp 0 BSIZEW),
       brelse e bp,
       modify (upd_mount 0 (\<lambda>m. m\<lparr>m_bufp := Some cp, m_dev := e_rootdev e\<rparr>)),
       modify (\<lambda>s. bput cp s_ronly 0 (bput cp s_ilock 0 (bput cp s_flock 0 s))),
       modify (\<lambda>s. if k_time s = 0 then s\<lparr>k_time := bget cp s_time s\<rparr> else s),
       modify (\<lambda>s. printf (''root size = %d kbytes'' @ NL) [Pint (bget cp s_fsize s * BSIZE div KBYTE)] s)]))]"

definition root_inode :: "env \<Rightarrow> nat km" where
  "root_inode e = bind (iget e (e_rootdev e) ROOTINO) (\<lambda>r. bind (need (\<lambda>_. r)) (\<lambda>ip.
     andthen (modify (iclr {ILOCK} ip)) (ret ip)))"

subsection \<open>The two processes\<close>

definition proc0_made :: "kst \<Rightarrow> kst" where
  "proc0_made s =
     upd_u (\<lambda>u. u\<lparr>u_procp := 0, u_cmask := 0\<rparr>)
       (upd_proc 0 (\<lambda>r. r\<lparr>p_addr := NPAGE * PGSZ, p_size := USIZE, p_stat := SRUN,
          p_flag := p_flag r \<union> {SLOAD, SSYS}, p_nice := NZERO\<rparr>) (s\<lparr>k_uhome := NPAGE * PGSZ\<rparr>))"

text \<open>Process 1: the bootstrap is copied to the address it was linked at.\<close>

definition main_child :: "env \<Rightarrow> unit km" where
  "main_child e =
     (let nw = int (length (e_icode e)); nd = pground (e_icodeaddr e + nw) in seq [
        expand e (USIZE + nd + SSIZE),
        bind (estabur_k 0 nd SSIZE) (\<lambda>_. ret ()),
        modify (\<lambda>s. s\<lparr>k_mem := snd (copyout (u_upt (k_u s)) (\<lambda>i. e_icode e ! nat (i - e_icodeaddr e))
          (6 * e_icodeaddr e) (6 * e_icodeaddr e) (wtob nw) (k_mem s))\<rparr>)])"

definition main :: "env \<Rightarrow> unit km" where
  "main e = seq [
     startup e,
     modify proc0_made,
     intrinit e,
     clkstart e,
     modify (\<lambda>s. s\<lparr>k_cpool := fst (cinit [True, True, True, True, True, False] (k_cpool s))\<rparr>),
     binit e,
     iinit e,
     bind (root_inode e) (\<lambda>ip. modify (\<lambda>s. s\<lparr>k_rootdir := ip\<rparr>)),
     bind (root_inode e) (\<lambda>ip. modify (upd_u (\<lambda>u. u\<lparr>u_cdir := ip, u_rdir := None\<rparr>))),
     bind (newproc e) (\<lambda>r. if r \<noteq> 0 then main_child e else sched e)]"

end
