(* ===== verification/Sigframe.thy ===== *)
theory Sigframe
  imports Trace
begin

text \<open>
  The pair \<open>sendsig\<close> and \<open>sigret\<close> of \<open>machdep.c\<close>: the register frame that one leaves on the user's
  stack is the one the other puts back.  The copies are described word by word, over the user's
  view of memory.
\<close>

subsection \<open>Copies of whole words\<close>

lemma useracc_top: "useracc um n c \<Longrightarrow> 0 < c \<Longrightarrow> n + c \<le> 32768"
  by (auto simp: useracc_def split: if_splits)

lemma ptrword_wptr: "0 \<le> n \<Longrightarrow> n < 32768 \<Longrightarrow> ptrword (wptr n) = n"
  by (simp add: ptrword_def wptr_def)

text \<open>The frame is 126 bytes, 21 words.\<close>

lemma divword_frame: "divword 126 = 21"
  using divword_floor [of 126] by simp

lemma words_in_at: "words_in um M fw tw n K x = (if tw \<le> x \<and> x < tw + int n then M (physaddr um (fw + (x - tw))) else K x)"
proof (induction n arbitrary: fw tw K)
  case (Suc n)
  show ?case unfolding words_in.simps Suc.IH by (auto simp: algebra_simps)
qed auto

lemma useracc_one: "useracc um a n \<Longrightarrow> 0 \<le> a \<Longrightarrow> a \<le> b \<Longrightarrow> b < a + n \<Longrightarrow> useracc um b 1"
  by (erule useracc_sub) auto

lemma words_out_at:
  assumes "um_inj um" "useracc um tw (int n)" "0 \<le> tw" "useracc um x 1" "0 \<le> x"
  shows "words_out um K fw tw n M (physaddr um x) =
    (if tw \<le> x \<and> x < tw + int n then K (fw + (x - tw)) else M (physaddr um x))"
  using assms(2,3)
proof (induction n arbitrary: fw tw M)
  case (Suc n)
  have t: "useracc um tw 1" by (rule useracc_one [OF Suc.prems]) auto
  have r: "useracc um (tw + 1) (int n)" by (rule useracc_sub [OF Suc.prems]) auto
  have "physaddr um x = physaddr um tw \<longleftrightarrow> x = tw"
    using assms(1,4,5) t Suc.prems(2) unfolding um_inj_def by blast
  then show ?case unfolding words_out.simps Suc.IH [OF r add_nonneg_nonneg [OF Suc.prems(2) zero_le_one]]
    by (auto simp: algebra_simps)
qed auto

lemma ptrword_mult [simp]: "ptrword (6 * a) = a" "ptrword 0 = 0" "ptrword (6 * a + 126) = a + 21"
  by (simp_all add: ptrword_def)

subsection \<open>The frame\<close>

definition stack_holds :: "user \<Rightarrow> bool" where
  "stack_holds u \<longleftrightarrow> (let n = ival (u_ar0 u R15); pg = (n + int NREGFRAME) div PGSZ in
     0 \<le> n \<and> useracc (u_upt u) n (int NREGFRAME + 1) \<and> (pg - USTKPAGE + 1) * PGSZ \<le> u_ssize u)"

lemma grow_not_needed: "(pg - USTKPAGE + 1) * PGSZ \<le> u_ssize (k_u s) \<Longrightarrow> grow e pg s = Ret 0 s"
  by (auto simp: grow_def)

lemma sendsig_ok:
  assumes "um_inj (u_upt (k_u s))" "stack_holds (k_u s)"
  defines "n \<equiv> ival (u_ar0 (k_u s) R15)"
  obtains s1 where "sendsig e p signo s = Ret () s1" "u_upt (k_u s1) = u_upt (k_u s)"
    "u_ar0 (k_u s1) = enter_handler p signo n (u_ar0 (k_u s))"
    "\<And>v. 0 \<le> v \<Longrightarrow> useracc (u_upt (k_u s)) v 1 \<Longrightarrow> k_mem s1 (physaddr (u_upt (k_u s)) v) =
       (if n \<le> v \<and> v < n + 21 then u_ar0 (k_u s) (nat (v - n)) else if v = n + 21 then e_sigcode e
        else k_mem s (physaddr (u_upt (k_u s)) v))"
proof -
  let ?um = "u_upt (k_u s)"
  have n: "0 \<le> n" "useracc ?um n 22" "((n + 21) div PGSZ - USTKPAGE + 1) * PGSZ \<le> u_ssize (k_u s)"
    using assms(2) by (auto simp: stack_holds_def Let_def n_def [symmetric])
  have a: "useracc ?um n 21" "useracc ?um (n + 21) 1"
    by (rule useracc_sub [OF n(2,1)]; simp)+
  have w: "ptrword (wptr n) = n" "ptrword (wptr (n + 21)) = n + 21"
    using n(1) useracc_top [OF n(2)] by (simp_all add: ptrword_wptr)
  define M1 where "M1 = words_out ?um (frame_words (u_ar0 (k_u s))) 0 n 21 (k_mem s)"
  define M2 where "M2 = M1(physaddr ?um (n + 21) := e_sigcode e)"
  have s: "sendsig e p signo s = Ret () (upd_u (\<lambda>u. u\<lparr>u_ar0 := enter_handler p signo n (u_ar0 u)\<rparr>) (s\<lparr>k_mem := M2\<rparr>))"
    using a n(1) grow_not_needed [OF n(3), of e]
    by (simp add: sendsig_def n_def [symmetric] drop_bit_eq_div run_defs Let_def copyout_def suword_def wtob_def
        divword_frame w M1_def M2_def)
  have "M2 (physaddr ?um v) =
       (if n \<le> v \<and> v < n + 21 then u_ar0 (k_u s) (nat (v - n)) else if v = n + 21 then e_sigcode e
        else k_mem s (physaddr ?um v))" if "0 \<le> v" "useracc ?um v 1" for v
  proof -
    have "physaddr ?um v = physaddr ?um (n + 21) \<longleftrightarrow> v = n + 21"
      using assms(1) that a(2) n(1) unfolding um_inj_def by (metis add_nonneg_nonneg zero_le_numeral)
    then show ?thesis
      using words_out_at [OF assms(1), of n 21 v "frame_words (u_ar0 (k_u s))" 0 "k_mem s"] that a n(1)
      by (auto simp: M2_def M1_def frame_words_def)
  qed
  with s show ?thesis by (intro that [OF s]) (auto simp: upd_u_def)
qed

lemma sigret_ok:
  assumes "0 \<le> n" "useracc (u_upt (k_u s)) n 21" "ival (u_ar0 (k_u s) R15) = n + 22"
  obtains s3 where "sigret s = Ret () s3" "u_justreturn (k_u s3) = 1"
    "\<And>i. i < NREGFRAME \<Longrightarrow> u_ar0 (k_u s3) i =
       (let w = k_mem s (physaddr (u_upt (k_u s)) (n + int i))
        in if i = SPSW then (w AND word_of_int SPSW_USER) OR (u_ar0 (k_u s) SPSW AND NOT (word_of_int SPSW_USER)) else w)"
proof -
  have "ptrword (wptr n) = n" using assms(1) useracc_top [OF assms(2)] by (simp add: ptrword_wptr)
  then show ?thesis using assms that
    by (auto simp: sigret_def Let_def copyin_def wtob_def divword_frame words_in_at upd_u_def)
qed

text \<open>
  C25: a signal handler returns to where the process was.  When the stack holds the frame,
  \<open>sendsig\<close> enters the handler at \<open>p\<close> with the signal number in the accumulator and the stack
  pointer above the frame and the return trampoline; and from any later state with that stack
  pointer, the same page table and the frame intact, \<open>sigret\<close> restores every register that the
  process had.  Of the saved mode word only the two user bits are believed: the others keep the
  live value, so that a forged frame cannot change the supervisor's mode.
\<close>

theorem sigret_undoes_sendsig:
  assumes "um_inj (u_upt (k_u s))" "stack_holds (k_u s)"
  defines "n \<equiv> ival (u_ar0 (k_u s) R15)"
  shows "\<exists>s1. sendsig e p signo s = Ret () s1 \<and> u_upt (k_u s1) = u_upt (k_u s) \<and>
    u_ar0 (k_u s1) RET = wval p \<and> u_ar0 (k_u s1) RACC = wval signo \<and> u_ar0 (k_u s1) R15 = wval (n + 22) \<and>
    (\<forall>s2. u_upt (k_u s2) = u_upt (k_u s) \<and> ival (u_ar0 (k_u s2) R15) = n + 22 \<and>
       (\<forall>v. n \<le> v \<and> v < n + 21 \<longrightarrow> k_mem s2 (physaddr (u_upt (k_u s)) v) = k_mem s1 (physaddr (u_upt (k_u s)) v)) \<longrightarrow>
       (\<exists>s3. sigret s2 = Ret () s3 \<and> u_justreturn (k_u s3) = 1 \<and>
         (\<forall>i<NREGFRAME. i \<noteq> SPSW \<longrightarrow> u_ar0 (k_u s3) i = u_ar0 (k_u s) i) \<and>
         u_ar0 (k_u s3) SPSW =
           (u_ar0 (k_u s) SPSW AND word_of_int SPSW_USER) OR (u_ar0 (k_u s2) SPSW AND NOT (word_of_int SPSW_USER))))"
proof -
  have n: "0 \<le> n" "useracc (u_upt (k_u s)) n 22"
    using assms(2) by (auto simp: stack_holds_def Let_def n_def [symmetric])
  obtain s1 where s1: "sendsig e p signo s = Ret () s1" "u_upt (k_u s1) = u_upt (k_u s)"
      "u_ar0 (k_u s1) = enter_handler p signo n (u_ar0 (k_u s))"
    and mem: "\<And>v. 0 \<le> v \<Longrightarrow> useracc (u_upt (k_u s)) v 1 \<Longrightarrow> n \<le> v \<and> v < n + 21 \<Longrightarrow>
       k_mem s1 (physaddr (u_upt (k_u s)) v) = u_ar0 (k_u s) (nat (v - n))"
    by (rule sendsig_ok [OF assms(1,2), of e p signo]) (simp add: n_def)
  have saved: "k_mem s1 (physaddr (u_upt (k_u s)) (n + int i)) = u_ar0 (k_u s) i" if "i < 21" for i
    using mem [of "n + int i"] useracc_one [OF n(2,1), of "n + int i"] n(1) that by simp
  have "\<exists>s3. sigret s2 = Ret () s3 \<and> u_justreturn (k_u s3) = 1 \<and>
         (\<forall>i<NREGFRAME. i \<noteq> SPSW \<longrightarrow> u_ar0 (k_u s3) i = u_ar0 (k_u s) i) \<and>
         u_ar0 (k_u s3) SPSW =
           (u_ar0 (k_u s) SPSW AND word_of_int SPSW_USER) OR (u_ar0 (k_u s2) SPSW AND NOT (word_of_int SPSW_USER))"
    if "u_upt (k_u s2) = u_upt (k_u s)" "ival (u_ar0 (k_u s2) R15) = n + 22"
      "\<forall>v. n \<le> v \<and> v < n + 21 \<longrightarrow> k_mem s2 (physaddr (u_upt (k_u s)) v) = k_mem s1 (physaddr (u_upt (k_u s)) v)" for s2
  proof -
    have u: "useracc (u_upt (k_u s2)) n 21" unfolding that(1) by (rule useracc_sub [OF n(2,1)]) auto
    have w: "k_mem s2 (physaddr (u_upt (k_u s2)) (n + int i)) = u_ar0 (k_u s) i" if "i < 21" for i
      using \<open>\<forall>v. _\<close> saved [OF that] that \<open>u_upt (k_u s2) = _\<close> by simp
    show ?thesis by (rule sigret_ok [OF n(1) u that(2)]) (auto simp: w Let_def)
  qed
  then show ?thesis using s1 by (auto simp: enter_handler_def add.commute)
qed

theorem sigret_undoes_sendsig_witness:
  "\<exists>s' s1 s3. sureg demo_image = Some s' \<and>
     sendsig env0 100 2 (upd_u (\<lambda>u. u\<lparr>u_ar0 := (\<lambda>i. if i = R15 then wval 28700 else 5)\<rparr>) s') = Ret () s1 \<and>
     sigret s1 = Ret () s3 \<and> u_ar0 (k_u s3) RET = 5 \<and> u_ar0 (k_u s3) R15 = wval 28700"
proof -
  obtain s' where s': "sureg demo_image = Some s'" "maps_image 20 40 2 3 1 s'" using demo_image_maps by blast
  define s where "s = upd_u (\<lambda>u. u\<lparr>u_ar0 := (\<lambda>i. if i = R15 then wval 28700 else 5)\<rparr>) s'"
  have m: "maps_image 20 40 2 3 1 s" using s'(2) by (simp add: s_def maps_image_def upd_u_def)
  have n: "ival (u_ar0 (k_u s) R15) = 28700" by (simp add: s_def upd_u_def ival_wval)
  have "um_inj (u_upt (k_u s))" by (rule maps_um_inj [OF m]) auto
  moreover have "u_ssize (k_u s) = PGSZ" using s'(1)
    by (auto simp: s_def upd_u_def sureg_def demo_image_def Let_def split: option.splits prod.splits)
  then have "stack_holds (k_u s)"
    using demo_page [OF m, of 28]
    by (simp add: stack_holds_def Let_def s_def upd_u_def ival_wval useracc_def drop_bit_eq_div page_of_def)
  ultimately obtain s1 where s1: "sendsig env0 100 2 s = Ret () s1" "u_upt (k_u s1) = u_upt (k_u s)"
      "u_ar0 (k_u s1) R15 = wval 28722" and
    ret: "\<And>s2. u_upt (k_u s2) = u_upt (k_u s) \<Longrightarrow> ival (u_ar0 (k_u s2) R15) = 28722 \<Longrightarrow> k_mem s2 = k_mem s1 \<Longrightarrow>
       (\<exists>s3. sigret s2 = Ret () s3 \<and> (\<forall>i<NREGFRAME. i \<noteq> SPSW \<longrightarrow> u_ar0 (k_u s3) i = u_ar0 (k_u s) i))"
    using sigret_undoes_sendsig [of s env0 100 2, unfolded n] by fastforce
  from ret [OF s1(2) _ refl] s1(3) obtain s3 where "sigret s1 = Ret () s3"
      "\<forall>i<NREGFRAME. i \<noteq> SPSW \<longrightarrow> u_ar0 (k_u s3) i = u_ar0 (k_u s) i"
    by (auto simp: ival_wval)
  moreover have "u_ar0 (k_u s) RET = 5" "u_ar0 (k_u s) R15 = wval 28700" by (simp_all add: s_def upd_u_def)
  ultimately show ?thesis using s'(1) s1(1) by (intro exI [of _ s'] exI [of _ s1] exI [of _ s3]) (simp add: s_def)
qed

end
