(* ===== verification/Ttyline.thy ===== *)
theory Ttyline
  imports Tty
begin

text \<open>
  The line editor of \<open>tty.c\<close> over the contents of the queues.  The routine \<open>canon\<close> works on blocks of
  the character pool; here it is shown to be a function on lists of characters, and that function
  is then examined: what erase, kill and a delimiter do to a line.
\<close>

subsection \<open>The editor on lists\<close>

text \<open>The line so far (newest first), whether a delimiter ended it, and the rest of the input.\<close>

fun edit :: "tty \<Rightarrow> int list \<Rightarrow> int list \<Rightarrow> int list \<times> bool \<times> int list" where
  "edit x [] L = (L, False, [])"
| "edit x (c # cs) L =
     (case canon_char x c L of
        Cdelim \<Rightarrow> (L, True, cs)
      | Ckill \<Rightarrow> edit x cs []
      | Cskip L' \<Rightarrow> edit x cs L'
      | Cstore L' \<Rightarrow> if length L' + 2 \<ge> CANBSIZ then (L', False, cs) else edit x cs L')"

lemma canon_scan_edit:
  "queues P Q C \<Longrightarrow> edit x (C i) L = (L', d, cs') \<Longrightarrow>
   \<exists>q' P'. canon_scan x (Q i) P L = Some (L', d, q', P') \<and> queues P' (Q(i := q')) (C(i := cs'))"
proof (induction "C i" arbitrary: C Q P L)
  case Nil
  obtain q' where "getc (Q i) P = Some (-1, q', P)" "queues P (Q(i := q')) C"
    using getc_queues [OF Nil.prems(1), of i] Nil.hyps by (auto split: list.splits)
  moreover have "C(i := []) = C" using Nil.hyps by (simp add: fun_upd_idem)
  moreover have "L' = L" "d = False" "cs' = []" using Nil.prems(2) Nil.hyps [symmetric] by auto
  moreover have "canon_scan x (Q i) P L = Some (L, False, q', P)"
    using calculation(1) by (simp add: canon_scan.simps [of x "Q i"])
  ultimately show ?case by metis
next
  case (Cons c cs)
  obtain q1 P1 where g: "getc (Q i) P = Some (c, q1, P1)" "0 \<le> c" "queues P1 (Q(i := q1)) (C(i := cs))"
    using getc_queues [OF Cons.prems(1), of i] unfolding Cons.hyps(2) [symmetric] by auto
  have ih: "\<exists>q' P'. canon_scan x q1 P1 M = Some (L', d, q', P') \<and> queues P' (Q(i := q')) (C(i := cs'))"
    if "edit x cs M = (L', d, cs')" for M
    using Cons.hyps(1) [of "C(i := cs)" P1 "Q(i := q1)" M] g(3) that by simp
  show ?case
    using g Cons.prems(2) ih unfolding Cons.hyps(2) [symmetric]
    by (auto simp: canon_scan.simps [of x "Q i"] split: cact.splits if_splits)
qed

subsection \<open>The editor in the kernel\<close>

text \<open>The queue \<open>k\<close> of the terminal \<open>t\<close> holds the characters \<open>C (t, k)\<close>.\<close>

definition tty_rep :: "kst \<Rightarrow> (nat \<times> qname \<Rightarrow> int list) \<Rightarrow> bool" where
  "tty_rep s C \<longleftrightarrow> queues (k_cpool s) (\<lambda>(t, k). tq k (k_tty s t)) C"

lemma tq_upd: "(\<lambda>(t', k'). tq k' (k_tty (qput t k q P s) t')) = (\<lambda>(t', k'). tq k' (k_tty s t'))((t, k) := q)"
proof -
  have "tq k' (tq_set k q x) = (if k' = k then q else tq k' x)" for k' and x :: tty
    by (cases k; cases k') auto
  then show ?thesis by (auto simp: fun_eq_iff qput_def upd_tty_def)
qed

lemma qput_rep: "queues P ((\<lambda>(t, k). tq k (k_tty s t))((t, k) := q)) C \<Longrightarrow> tty_rep (qput t k q P s) C"
  unfolding tty_rep_def tq_upd by (simp add: qput_def)

lemma tty_rep_cong: "(\<And>k. tq k (k_tty s' t) = tq k (k_tty s t)) \<Longrightarrow> (\<And>t'. t' \<noteq> t \<Longrightarrow> k_tty s' t' = k_tty s t') \<Longrightarrow>
  k_cpool s' = k_cpool s \<Longrightarrow> tty_rep s' C = tty_rep s C"
  by (metis (mono_tags, lifting) tty_rep_def case_prodE cond_case_prod_eta ext old.prod.case)

lemma maptab_byte: "0 \<le> c \<Longrightarrow> c < 128 \<Longrightarrow> 0 \<le> maptab ! nat c \<and> maptab ! nat c < 256"
proof -
  assume "0 \<le> c" "c < 128"
  moreover have "list_all (\<lambda>m. 0 \<le> m \<and> m < 256) maptab" "length maptab = 128" by (simp_all add: maptab_def)
  ultimately show ?thesis by (simp add: list_all_length)
qed

abbreviation bytes :: "int list \<Rightarrow> bool" where
  "bytes cs \<equiv> \<forall>c\<in>set cs. 0 \<le> c \<and> c < 256"

lemma bytes_erase1: "bytes L \<Longrightarrow> bytes (erase1 L)"
proof -
  have "set (tl xs) \<subseteq> set xs" for xs :: "int list" by (cases xs) auto
  then have "set (erase1 L) \<subseteq> set L" unfolding erase1_def using set_dropWhileD by fast
  then show "bytes L \<Longrightarrow> bytes (erase1 L)" by blast
qed

lemma canon_char_bytes:
  assumes "0 \<le> c" "c < 256" "bytes L"
  shows "canon_char x c L = Cskip L' \<Longrightarrow> bytes L'" "canon_char x c L = Cstore L' \<Longrightarrow> bytes L'"
proof -
  have tl: "bytes (tl L)" using assms(3) by (cases L) auto
  show "canon_char x c L = Cskip L' \<Longrightarrow> bytes L'"
    using bytes_erase1 [OF assms(3)] assms(3) by (auto simp: canon_char_def Let_def split: if_splits)
  show "canon_char x c L = Cstore L' \<Longrightarrow> bytes L'"
    using assms tl maptab_byte [of c] by (auto simp: canon_char_def Let_def split: if_splits)
qed

lemma edit_bytes: "bytes cs \<Longrightarrow> bytes L \<Longrightarrow> edit x cs L = (L', d, cs') \<Longrightarrow> bytes L'"
proof (induction x cs L rule: edit.induct)
  case (2 x c cs L)
  have c: "0 \<le> c" "c < 256" "bytes cs" using "2.prems"(1) by auto
  note b = canon_char_bytes [OF c(1,2) "2.prems"(2), of x]
  show ?case
  proof (cases "canon_char x c L")
    case Cdelim
    then show ?thesis using "2.prems"(2,3) by simp
  next
    case Ckill
    then show ?thesis using "2.IH"(1) c(3) "2.prems"(3) by simp
  next
    case (Cskip M)
    then show ?thesis using "2.IH"(2) [OF Cskip c(3) b(1) [OF Cskip]] "2.prems"(3) by simp
  next
    case (Cstore M)
    then show ?thesis
      using "2.IH"(3) [OF Cstore _ c(3) b(2) [OF Cstore]] b(2) [OF Cstore] "2.prems"(3)
      by (cases "length M + 2 \<ge> CANBSIZ") simp_all
  qed
qed simp

lemma queues_bytes: "queues P Q C \<Longrightarrow> bytes (C i)"
  by (auto simp: queues_def sysrep_def qrep_def)

lemma bytes_mod: "bytes cs \<Longrightarrow> map (\<lambda>c. c mod 256) cs = cs"
  by (induction cs) auto

lemma canon_line_ok:
  assumes "tty_rep s C" "edit (k_tty s t) (C (t, Rawq)) [] = (L, d, cs')"
  shows "\<exists>s' n. canon_line t s = Ret (length L) s' \<and> n \<le> length L \<and> (n < length L \<longrightarrow> cfreelist (k_cpool s') = None) \<and>
    tty_rep s' (C((t, Rawq) := cs', (t, Canq) := C (t, Canq) @ take n (rev L))) \<and>
    t_delct (k_tty s' t) = (if d then cdec (t_delct (k_tty s t)) else t_delct (k_tty s t)) \<and>
    t_flags (k_tty s' t) = t_flags (k_tty s t)"
proof -
  let ?Q = "\<lambda>s. \<lambda>(t, k). tq k (k_tty s t)"
  have q0: "queues (k_cpool s) (?Q s) C" using assms(1) by (simp add: tty_rep_def)
  have L: "bytes L" using edit_bytes [OF queues_bytes [OF q0] _ assms(2)] by simp
  obtain q1 P1 where c: "canon_scan (k_tty s t) (tq Rawq (k_tty s t)) (k_cpool s) [] = Some (L, d, q1, P1)"
      "queues P1 ((?Q s)((t, Rawq) := q1)) (C((t, Rawq) := cs'))"
    using canon_scan_edit [OF q0, of "k_tty s t" "(t, Rawq)" "[]"] assms(2) by auto
  define s1 where "s1 = (let s = qput t Rawq q1 P1 s in if d then upd_tty t (\<lambda>x. x\<lparr>t_delct := cdec (t_delct x)\<rparr>) s else s)"
  have r1: "tty_rep s1 (C((t, Rawq) := cs'))"
  proof -
    have "tty_rep s1 (C((t, Rawq) := cs')) = tty_rep (qput t Rawq q1 P1 s) (C((t, Rawq) := cs'))"
    proof (rule tty_rep_cong)
      show "tq k (k_tty s1 t) = tq k (k_tty (qput t Rawq q1 P1 s) t)" for k
        by (cases k) (auto simp: s1_def Let_def upd_tty_def)
    qed (auto simp: s1_def Let_def upd_tty_def)
    with qput_rep [OF c(2)] show ?thesis by simp
  qed
  obtain m q2 P2 where b: "b_to_q (rev L) (tq Canq (k_tty s1 t)) (k_cpool s1) = Some (m, q2, P2)" "m \<le> length L"
      "queues P2 ((?Q s1)((t, Canq) := q2)) (C((t, Rawq) := cs', (t, Canq) := C (t, Canq) @ take (length L - m) (rev L)))"
      "0 < m \<longrightarrow> cfreelist P2 = None"
  proof -
    have "bytes (take k (rev L))" for k using L by (auto dest: in_set_takeD)
    then show ?thesis
      using b_to_q_queues [OF r1 [unfolded tty_rep_def], of "rev L" "(t, Canq)"] that by (auto simp: bytes_mod)
  qed
  have "canon_line t s = Ret (length L) (qput t Canq q2 P2 s1)"
    using c(1) b(1) by (cases d) (simp_all add: canon_line_def run_defs tb_to_q_def s1_def Let_def)
  moreover have "k_tty (qput t Canq q2 P2 s1) t = tq_set Canq q2 (k_tty s1 t)" by (simp add: qput_def upd_tty_def)
  ultimately show ?thesis
    using qput_rep [OF b(3)] b(2,4)
    by (intro exI [of _ "qput t Canq q2 P2 s1"] exI [of _ "length L - m"])
       (auto simp: s1_def Let_def qput_def upd_tty_def)
qed

subsection \<open>Keystrokes\<close>

text \<open>What a user types: a character, of one byte or a UTF-8 sequence, or one of the two editing keys.\<close>

datatype key = Key "int list" | Erase | Kill

primrec key_bytes :: "tty \<Rightarrow> key \<Rightarrow> int list" where
  "key_bytes x (Key u) = u"
| "key_bytes x Erase = [t_erase x]"
| "key_bytes x Kill = [t_kill x]"

text \<open>The characters on the line after the keys, newest first: erase takes back one character, kill all of them.\<close>

fun typed :: "key list \<Rightarrow> int list list \<Rightarrow> int list list" where
  "typed [] U = U"
| "typed (Key u # ks) U = typed ks (u # U)"
| "typed (Erase # ks) U = typed ks (tl U)"
| "typed (Kill # ks) U = typed ks []"

definition plain :: "tty \<Rightarrow> int \<Rightarrow> bool" where
  "plain x c \<longleftrightarrow> c \<noteq> DELIM \<and> c \<noteq> t_erase x \<and> c \<noteq> t_kill x \<and> c \<noteq> t_eofc x \<and> c \<noteq> 92"

definition character :: "tty \<Rightarrow> int list \<Rightarrow> bool" where
  "character x u \<longleftrightarrow> u \<noteq> [] \<and> hd u AND 192 \<noteq> 128 \<and> (\<forall>c\<in>set (tl u). c AND 192 = 128) \<and> (\<forall>c\<in>set u. plain x c)"

definition edit_keys :: "tty \<Rightarrow> bool" where
  "edit_keys x \<longleftrightarrow> t_flags x AND (RAW OR CBREAK) = 0 \<and> t_erase x \<noteq> DELIM \<and> t_kill x \<noteq> DELIM \<and> t_erase x \<noteq> t_kill x"

lemma prev1_plain: "\<forall>c\<in>set L. plain x c \<Longrightarrow> prev1 L \<noteq> 92"
  by (cases L) (auto simp: prev1_def plain_def)

lemma edit_plain:
  "edit_keys x \<Longrightarrow> \<forall>c\<in>set u. plain x c \<Longrightarrow> \<forall>c\<in>set L. plain x c \<Longrightarrow> length u + length L + 2 < CANBSIZ \<Longrightarrow>
   edit x (u @ cs) L = edit x cs (rev u @ L)"
proof (induction u arbitrary: L)
  case (Cons c u)
  have "canon_char x c L = Cstore (c # L)"
    using Cons.prems(1,2) prev1_plain [OF Cons.prems(3)] by (auto simp: canon_char_def edit_keys_def plain_def)
  then show ?case using Cons.IH [of "c # L"] Cons.prems by simp
qed simp

lemma erase1_character: "character x u \<Longrightarrow> erase1 (rev u @ L) = L"
proof -
  assume u: "character x u"
  then obtain a v where v: "u = a # v" "a AND 192 \<noteq> 128" "\<forall>c\<in>set v. c AND 192 = 128"
    by (cases u) (auto simp: character_def)
  have "dropWhile (\<lambda>b. b AND 192 = 128) (rev v @ a # L) = a # L" using v(2,3) by (subst dropWhile_append2) auto
  then show "erase1 (rev u @ L) = L" using v(1) by (simp add: erase1_def)
qed

lemma edit_typed:
  "edit_keys x \<Longrightarrow> (\<And>u. Key u \<in> set ks \<Longrightarrow> character x u) \<Longrightarrow> (\<And>u. u \<in> set U \<Longrightarrow> character x u) \<Longrightarrow>
   length (concat (map (key_bytes x) ks)) + length (concat U) + 2 < CANBSIZ \<Longrightarrow>
   edit x (concat (map (key_bytes x) ks) @ DELIM # cs) (concat (map rev U)) = (concat (map rev (typed ks U)), True, cs)"
proof (induction ks U rule: typed.induct)
  case (1 U)
  then show ?case by (simp add: canon_char_def edit_keys_def)
next
  case (2 u ks U)
  have "\<forall>c\<in>set (concat (map rev U)). plain x c" "\<forall>c\<in>set u. plain x c"
    using "2.prems"(2,3) by (auto simp: character_def)
  note e = edit_plain [OF "2.prems"(1) this(2,1)]
  have "length (concat (map rev U)) = length (concat U)" by (simp add: length_concat comp_def)
  then show ?case using e "2.IH" "2.prems" by auto
next
  case (3 ks U)
  have p: "\<forall>c\<in>set (concat (map rev U)). plain x c" using "3.prems"(3) by (auto simp: character_def)
  have "erase1 (concat (map rev U)) = concat (map rev (tl U))"
    using "3.prems"(3) by (cases U) (auto simp: erase1_character [of x] erase1_def [of "[]"])
  then have "canon_char x (t_erase x) (concat (map rev U)) = Cskip (concat (map rev (tl U)))"
    using "3.prems"(1) prev1_plain [OF p] by (simp add: canon_char_def edit_keys_def)
  moreover have "length (concat (tl U)) \<le> length (concat U)" by (cases U) auto
  moreover have "u \<in> set (tl U) \<Longrightarrow> u \<in> set U" for u by (cases U) auto
  ultimately show ?case using "3.IH" "3.prems" by simp
next
  case (4 ks U)
  have p: "\<forall>c\<in>set (concat (map rev U)). plain x c" using "4.prems"(3) by (auto simp: character_def)
  have "canon_char x (t_kill x) (concat (map rev U)) = Ckill"
    using "4.prems"(1) prev1_plain [OF p] by (simp add: canon_char_def edit_keys_def)
  then show ?case using "4.IH" "4.prems" by simp
qed

text \<open>
  C23: a typed line is read the way it was edited.  When the raw queue of a terminal in cooked mode
  holds the bytes of some keystrokes and then a delimiter, \<open>canon\<close> moves to the canonical queue the
  characters that erase and kill left standing, in order, where one erase takes back one
  character even if it is a UTF-8 sequence of several bytes; what follows the delimiter stays
  in the raw queue, one delimiter is counted off, and a character is lost only when the pool of
  blocks has run out.
\<close>

theorem canon_reads_typed_line:
  assumes "tty_rep s C" "edit_keys (k_tty s t)"
    and "C (t, Rawq) = concat (map (key_bytes (k_tty s t)) ks) @ DELIM # rest"
    and "\<forall>u. Key u \<in> set ks \<longrightarrow> character (k_tty s t) u"
    and "length (concat (map (key_bytes (k_tty s t)) ks)) + 2 < CANBSIZ"
  defines "line \<equiv> concat (rev (typed ks []))"
  shows "\<exists>s' n. canon_line t s = Ret (length line) s' \<and> n \<le> length line \<and>
    (n < length line \<longrightarrow> cfreelist (k_cpool s') = None) \<and>
    tty_rep s' (C((t, Rawq) := rest, (t, Canq) := C (t, Canq) @ take n line)) \<and>
    t_delct (k_tty s' t) = cdec (t_delct (k_tty s t))"
proof -
  have e: "edit (k_tty s t) (C (t, Rawq)) [] = (concat (map rev (typed ks [])), True, rest)"
    using edit_typed [OF assms(2), of ks "[]" rest] assms(4,5) unfolding assms(3) by simp
  have "rev (concat (map rev (typed ks []))) = line" "length (concat (map rev (typed ks []))) = length line"
    by (simp_all add: line_def rev_concat rev_map [symmetric] comp_def length_concat)
  then show ?thesis using canon_line_ok [OF assms(1) e] by auto
qed

definition tty_demo :: "int \<Rightarrow> int list \<Rightarrow> kst \<Rightarrow> bool" where
  "tty_demo fl cs s \<longleftrightarrow> tty_rep s ((\<lambda>_. [])((0, Rawq) := cs)) \<and> t_flags (k_tty s 0) = fl \<and> t_delct (k_tty s 0) = 1 \<and>
     t_erase (k_tty s 0) = 8 \<and> t_kill (k_tty s 0) = 64 \<and> t_eofc (k_tty s 0) = 4"

lemma demo_path:
  assumes "\<And>b. cfree P b = \<lparr>c_next = (if b = 0 \<or> n \<le> Suc b then None else Some (Suc b)), c_info = f b\<rparr>" "0 < i"
  shows "path P (if i < n then Some i else None) [i..<n]"
  using assms(2)
proof (induction "n - i" arbitrary: i)
  case (Suc d)
  then have "[i..<n] = i # [Suc i..<n]" "i < n" by (simp_all add: upt_conv_Cons)
  moreover have "path P (if Suc i < n then Some (Suc i) else None) [Suc i..<n]" using Suc by simp
  moreover have "c_next (cfree P i) = (if Suc i < n then Some (Suc i) else None)" using assms(1) [of i] Suc.prems by auto
  ultimately show ?case by simp
qed simp

lemma tty_demo_exists:
  assumes "bytes cs" "cs \<noteq> []" "length cs \<le> CBSIZE"
  shows "\<exists>s. tty_demo fl cs s"
proof -
  define P where "P = \<lparr>cfree = (\<lambda>b. \<lparr>c_next = (if b = 0 \<or> NCLIST \<le> Suc b then None else Some (Suc b)),
     c_info = (\<lambda>i. if i < length cs then cs ! i else 0)\<rparr>), cfreelist = Some 1\<rparr>"
  define q where "q = \<lparr>c_cc = int (length cs), c_hd = Some 0, c_tl = Some 0, c_hix = 0, c_tix = length cs\<rparr>"
  define s where "s = kst0\<lparr>k_cpool := P, k_tty := (\<lambda>_. tty0)(0 := tty0\<lparr>t_rawq := q, t_flags := fl, t_delct := 1,
     t_erase := 8, t_kill := 64, t_eofc := 4\<rparr>)\<rparr>"
  have Q: "(\<lambda>(t, k). tq k (k_tty s t)) = (\<lambda>_. zero_clist)((0, Rawq) := q)"
  proof
    fix i :: "nat \<times> qname"
    obtain t k where "i = (t, k)" by (cases i)
    then show "(\<lambda>(t, k). tq k (k_tty s t)) i = ((\<lambda>_. zero_clist)((0, Rawq) := q)) i"
      by (cases k) (auto simp: s_def tty0_def)
  qed
  have p: "path P (Some 1) [1..<NCLIST]" using demo_path [of P NCLIST "\<lambda>_ i. if i < length cs then cs ! i else 0" 1]
    by (simp add: P_def del: upt_rec_numeral)
  have "take (length cs) (binfo P 0) = cs"
    using assms(3) by (auto simp: binfo_def P_def intro!: nth_equalityI)
  then have "qrep P q [0] cs" using assms by (simp add: qrep_def q_def P_def)
  then have "sysrep P ((\<lambda>_. zero_clist)((0, Rawq) := q)) [1..<NCLIST] ((\<lambda>_. [])((0, Rawq) := [0])) ((\<lambda>_. [])((0, Rawq) := cs))"
    using p unfolding sysrep_def by (auto simp: qrep_def P_def simp del: upt_rec_numeral)
  then have "tty_rep s ((\<lambda>_. [])((0, Rawq) := cs))" unfolding tty_rep_def Q queues_def by (auto simp: s_def)
  then have "tty_demo fl cs s" by (simp add: tty_demo_def s_def)
  then show ?thesis by blast
qed

text \<open>Two letters, an erase over the second of two bytes, a newline.\<close>

theorem canon_reads_typed_line_witness:
  "\<exists>s s' n. tty_demo 0 [97, 209, 143, 8, 98, 10, DELIM] s \<and> canon_line 0 s = Ret 3 s' \<and> n \<le> 3 \<and>
     (n < 3 \<longrightarrow> cfreelist (k_cpool s') = None) \<and>
     tty_rep s' ((\<lambda>_. [])((0, Rawq) := [], (0, Canq) := take n [97, 98, 10])) \<and> t_delct (k_tty s' 0) = 0"
proof -
  obtain s where s: "tty_demo 0 [97, 209, 143, 8, 98, 10, DELIM] s" using tty_demo_exists by fastforce
  let ?ks = "[Key [97], Key [209, 143], Erase, Key [98], Key [10]]"
  have x: "t_flags (k_tty s 0) = 0" "t_erase (k_tty s 0) = 8" "t_kill (k_tty s 0) = 64" "t_eofc (k_tty s 0) = 4"
    "t_delct (k_tty s 0) = 1"
    using s by (auto simp: tty_demo_def)
  have "\<exists>s' n. canon_line 0 s = Ret 3 s' \<and> n \<le> 3 \<and> (n < 3 \<longrightarrow> cfreelist (k_cpool s') = None) \<and>
     tty_rep s' (((\<lambda>_. [])((0, Rawq) := [97, 209, 143, 8, 98, 10, DELIM]))((0, Rawq) := [], (0, Canq) := take n [97, 98, 10])) \<and>
     t_delct (k_tty s' 0) = cdec (t_delct (k_tty s 0))"
    using canon_reads_typed_line [of s "(\<lambda>_. [])((0, Rawq) := [97, 209, 143, 8, 98, 10, DELIM])" 0 ?ks "[]"] s
    by (simp add: x edit_keys_def character_def plain_def tty_demo_def numeral_3_eq_3)
  then show ?thesis using s x(5) by (auto simp: cdec_def)
qed

lemma cbreak_flag: "fl AND CBREAK \<noteq> 0 \<Longrightarrow> fl AND (RAW OR CBREAK) \<noteq> 0" for fl :: int
proof -
  have "fl AND CBREAK = (fl AND (RAW OR CBREAK)) AND CBREAK" by (simp add: and.assoc)
  then show "fl AND CBREAK \<noteq> 0 \<Longrightarrow> fl AND (RAW OR CBREAK) \<noteq> 0" by (metis and_zero_eq and.commute)
qed

lemma edit_cbreak: "t_flags x AND CBREAK \<noteq> 0 \<Longrightarrow> length cs + length L + 2 < CANBSIZ \<Longrightarrow> edit x cs L = (rev cs @ L, False, [])"
proof (induction cs arbitrary: L)
  case (Cons c cs)
  then show ?case using cbreak_flag [OF Cons.prems(1)] by (simp add: canon_char_def)
qed simp

lemma tty_rep_flags: "tty_rep (upd_tty t (\<lambda>x. x\<lparr>t_flags := fl\<rparr>) s) C = tty_rep s C"
proof (rule tty_rep_cong)
  show "tq k (k_tty (upd_tty t (\<lambda>x. x\<lparr>t_flags := fl\<rparr>) s) t) = tq k (k_tty s t)" for k
    by (cases k) (simp_all add: upd_tty_def)
qed (simp_all add: upd_tty_def)

text \<open>
  C30: delimiters read as data leave their count behind.  When a line with its delimiter is read
  after the terminal has been put into \<open>CBREAK\<close> without a flush, the delimiter is delivered as a
  character and \<open>t_delct\<close> keeps counting it; back in cooked mode, with the raw queue empty, \<open>canon\<close>
  no longer waits and returns an empty line, an end of file, and again leaves the count as it is, so that the
  next read with nothing typed finds the same state.
\<close>

theorem stale_delimiter_count:
  assumes "tty_rep s C" "t_flags (k_tty s t) AND CBREAK \<noteq> 0" "C (t, Rawq) = cs @ [DELIM]" "length cs + 3 < CANBSIZ"
    and "t_delct (k_tty s t) \<noteq> 0" "fl AND (RAW OR CBREAK) = 0"
  shows "\<exists>s' s''. canon_line t s = Ret (length cs + 1) s' \<and> t_delct (k_tty s' t) = t_delct (k_tty s t) \<and>
    (let s1 = upd_tty t (\<lambda>x. x\<lparr>t_flags := fl\<rparr>) s'
     in \<not> canon_blocked t s1 \<and> canon_line t s1 = Ret 0 s'' \<and> \<not> canon_blocked t s'' \<and> t_delct (k_tty s'' t) = t_delct (k_tty s t))"
proof -
  have e: "edit (k_tty s t) (C (t, Rawq)) [] = (DELIM # rev cs, False, [])"
    using edit_cbreak [OF assms(2), of "cs @ [DELIM]" "[]"] assms(3,4) by simp
  obtain s' n where s': "canon_line t s = Ret (length cs + 1) s'" "t_delct (k_tty s' t) = t_delct (k_tty s t)"
    "tty_rep s' (C((t, Rawq) := [], (t, Canq) := C (t, Canq) @ take n (cs @ [DELIM])))"
    using canon_line_ok [OF assms(1) e] by auto
  define s1 where "s1 = upd_tty t (\<lambda>x. x\<lparr>t_flags := fl\<rparr>) s'"
  define C1 where "C1 = C((t, Rawq) := [], (t, Canq) := C (t, Canq) @ take n (cs @ [DELIM]))"
  have r1: "tty_rep s1 C1" using s'(3) by (simp add: s1_def tty_rep_flags C1_def)
  have e1: "edit (k_tty s1 t) (C1 (t, Rawq)) [] = ([], False, [])" by (simp add: C1_def)
  obtain s'' where s'': "canon_line t s1 = Ret 0 s''" "t_delct (k_tty s'' t) = t_delct (k_tty s1 t)"
    "t_flags (k_tty s'' t) = t_flags (k_tty s1 t)"
    using canon_line_ok [OF r1 e1] by auto
  have "t_flags (k_tty s1 t) = fl" "t_delct (k_tty s1 t) = t_delct (k_tty s t)"
    using s'(2) by (simp_all add: s1_def upd_tty_def)
  then show ?thesis
    using s'(1,2) s'' assms(5,6)
    by (intro exI [of _ s'] exI [of _ s'']) (simp add: Let_def canon_blocked_def flip: s1_def)
qed

theorem stale_delimiter_count_witness:
  "\<exists>s s' s''. tty_demo CBREAK [97, 10, DELIM] s \<and> canon_line 0 s = Ret 3 s' \<and>
     (let s1 = upd_tty 0 (\<lambda>x. x\<lparr>t_flags := 0\<rparr>) s'
      in \<not> canon_blocked 0 s1 \<and> canon_line 0 s1 = Ret 0 s'' \<and> \<not> canon_blocked 0 s'')"
proof -
  obtain s where s: "tty_demo CBREAK [97, 10, DELIM] s" using tty_demo_exists by fastforce
  then have "\<exists>s' s''. canon_line 0 s = Ret (length [97::int, 10] + 1) s' \<and> t_delct (k_tty s' 0) = t_delct (k_tty s 0) \<and>
    (let s1 = upd_tty 0 (\<lambda>x. x\<lparr>t_flags := 0\<rparr>) s'
     in \<not> canon_blocked 0 s1 \<and> canon_line 0 s1 = Ret 0 s'' \<and> \<not> canon_blocked 0 s'' \<and> t_delct (k_tty s'' 0) = t_delct (k_tty s 0))"
    by (intro stale_delimiter_count [of s "(\<lambda>_. [])((0, Rawq) := [97, 10, DELIM])"]) (auto simp: tty_demo_def)
  then show ?thesis using s by (simp add: Let_def numeral_3_eq_3) blast
qed

end
