(* ===== verification/Signals.thy ===== *)
theory Signals
  imports Dispatch Conf
begin

text \<open>
  Signals from one process to another: what \<open>kill\<close> reaches, and how a pending signal ends a
  system call that waits.  The routines of \<open>slp.c\<close> and \<open>sig.c\<close> below are used through their
  effect on the queues.
\<close>

subsection \<open>Sending\<close>

text \<open>The queues are well formed, and a process in state \<open>SSLEEP\<close> is on one of them.\<close>

definition settled :: "env \<Rightarrow> kst \<Rightarrow> bool" where
  "settled e s \<longleftrightarrow> (\<exists>Q R. queues e s Q R) \<and> no_clash e s \<and>
     (\<forall>p < NPROC. p_stat (k_proc s p) = SSLEEP \<longrightarrow> p_wchan (k_proc s p) \<noteq> None)"

text \<open>What a signal leaves alone, in every process.\<close>

definition same_ids :: "kst \<Rightarrow> kst \<Rightarrow> bool" where
  "same_ids s s' \<longleftrightarrow> k_u s' = k_u s \<and> (\<forall>p. p_pid (k_proc s' p) = p_pid (k_proc s p) \<and> p_uid (k_proc s' p) = p_uid (k_proc s p) \<and>
     p_pgrp (k_proc s' p) = p_pgrp (k_proc s p) \<and> (p_stat (k_proc s' p) = SNONE) = (p_stat (k_proc s p) = SNONE))"

lemma same_ids_trans: "same_ids s s' \<Longrightarrow> same_ids s' s'' \<Longrightarrow> same_ids s s''"
  by (simp add: same_ids_def)

lemma wakes_settled:
  assumes "wakes e X s R r" "queues e s Q R" "no_clash e s"
    and "\<forall>p < NPROC. p_stat (k_proc s p) = SSLEEP \<longrightarrow> p_wchan (k_proc s p) \<noteq> None"
    and "\<forall>p \<in> X. p_stat (k_proc s p) \<noteq> SNONE" and "X \<subseteq> {..<NPROC}"
  shows "\<exists>s'. r = Ret () s' \<and> settled e s' \<and> same_ids s s' \<and> (\<forall>p. p_sig (k_proc s' p) = p_sig (k_proc s p))"
proof -
  obtain s' Q' R' Y where r: "r = Ret () s'" "queues e s' Q' R'" "woken (X \<union> Y) (k_proc s) (k_proc s')" "sched_only s s'"
    "k_runout s = 0 \<longrightarrow> k_runout s' = 0" "Y \<subseteq> {p. p < NPROC \<and> p_wchan (k_proc s p) = Some Ch_runout}"
    using assms(1) unfolding wakes_def by blast
  have w: "k_proc s' x = (if x \<in> X \<union> Y then (k_proc s x)\<lparr>p_wchan := None, p_stat := SRUN\<rparr> else k_proc s x)
      \<lparr>p_link := p_link (k_proc s' x)\<rparr>" for x
    using r(3) unfolding woken_def by blast
  have f: "p_pid (k_proc s' x) = p_pid (k_proc s x)" "p_uid (k_proc s' x) = p_uid (k_proc s x)"
    "p_pgrp (k_proc s' x) = p_pgrp (k_proc s x)" "p_sig (k_proc s' x) = p_sig (k_proc s x)"
    "p_flag (k_proc s' x) = p_flag (k_proc s x)"
    "p_stat (k_proc s' x) = (if x \<in> X \<union> Y then SRUN else p_stat (k_proc s x))"
    "p_wchan (k_proc s' x) = (if x \<in> X \<union> Y then None else p_wchan (k_proc s x))" for x
    by (subst w, simp)+
  have "p_stat (k_proc s p) \<noteq> SNONE" if "p \<in> Y" for p
    using r(6) that queuesD(8) [OF assms(2), of p] by auto
  then have "same_ids s s'" using assms(5) r(4) by (auto simp: same_ids_def f sched_only_def)
  moreover have "no_clash e s'"
    using assms(3) r(5) unfolding no_clash_def f by auto
  moreover have "\<forall>p < NPROC. p_stat (k_proc s' p) = SSLEEP \<longrightarrow> p_wchan (k_proc s' p) \<noteq> None"
    using assms(4) by (auto simp: f)
  ultimately show ?thesis using r(1,2) f(4) by (auto simp: settled_def)
qed

lemma psignal_ok:
  assumes "settled e s" "p < NPROC" "0 < sig" "sig < int NSIG"
  shows "\<exists>s'. psignal e p sig s = Ret () s' \<and> settled e s' \<and> same_ids s s' \<and>
    (\<forall>q. p_sig (k_proc s' q) = (if q = p then p_sig (k_proc s q) OR sigbit (nat sig) else p_sig (k_proc s q)))"
proof -
  obtain Q R where q: "queues e s Q R" "no_clash e s"
      "\<forall>p < NPROC. p_stat (k_proc s p) = SSLEEP \<longrightarrow> p_wchan (k_proc s p) \<noteq> None"
    using assms(1) by (auto simp: settled_def)
  define t where "t = upd_proc p (\<lambda>r. r\<lparr>p_sig := p_sig r OR sigbit (nat sig), p_pri := min PUSER (p_pri r)\<rparr>) s"
  have other: "p_link (k_proc t x) = p_link (k_proc s x)" "p_wchan (k_proc t x) = p_wchan (k_proc s x)"
    "p_stat (k_proc t x) = p_stat (k_proc s x)" "p_flag (k_proc t x) = p_flag (k_proc s x)"
    "k_slpque t = k_slpque s" "k_runq t = k_runq s" "k_runout t = k_runout s" for x
    by (auto simp: t_def upd_proc_def)
  have "seg (k_proc t) a xs None = seg (k_proc s) a xs None" for a xs by (rule seg_cong) (simp add: other)
  then have qt: "queues e t Q R" using q(1) unfolding queues_on_def other by simp
  have nt: "no_clash e t" using q(2) unfolding no_clash_def other by simp
  have ct: "\<forall>p < NPROC. p_stat (k_proc t p) = SSLEEP \<longrightarrow> p_wchan (k_proc t p) \<noteq> None" using q(3) by (simp add: other)
  have it: "same_ids s t" "\<And>q. p_sig (k_proc t q) = (if q = p then p_sig (k_proc s q) OR sigbit (nat sig) else p_sig (k_proc s q))"
    by (auto simp: same_ids_def t_def upd_proc_def)
  have eq: "psignal e p sig s = (if p_stat (k_proc t p) = SSLEEP \<and> p_pri (k_proc t p) > PZERO then setrun e p t else Ret () t)"
    using assms(3,4) by (auto simp: psignal_def run_defs t_def upd_proc_def min_def)
  show ?thesis
  proof (cases "p_stat (k_proc t p) = SSLEEP \<and> p_pri (k_proc t p) > PZERO")
    case True
    then obtain w where w: "p_wchan (k_proc t p) = Some w" using ct assms(2) by auto
    have "\<exists>s'. setrun e p t = Ret () s' \<and> settled e s' \<and> same_ids t s' \<and> (\<forall>p. p_sig (k_proc s' p) = p_sig (k_proc t p))"
      using queuesD(8) [OF qt] by (intro wakes_settled [OF setrun_ok [OF qt nt assms(2) w] qt nt ct]) auto
    then show ?thesis using eq True it same_ids_trans by auto
  next
    case False
    then show ?thesis using eq it qt nt ct unfolding settled_def by auto
  qed
qed

lemma kill_hits_same: "same_ids s s' \<Longrightarrow> kill_hits a priv s' p = kill_hits a priv s p"
  by (simp add: same_ids_def kill_hits_def)

lemma kill_loop_ok:
  assumes "0 < argi 1 s0" "argi 1 s0 < int NSIG"
  shows "settled e s \<Longrightarrow> same_ids s0 s \<Longrightarrow> set ps \<subseteq> {..<NPROC} \<Longrightarrow> distinct ps \<Longrightarrow>
    \<exists>s'. kill_loop e a priv ps f s = Ret (f \<or> (\<exists>p\<in>set ps. kill_hits a priv s0 p)) s' \<and> settled e s' \<and> same_ids s0 s' \<and>
      (\<forall>q. p_sig (k_proc s' q) =
         (if q \<in> set ps \<and> kill_hits a priv s0 q then p_sig (k_proc s q) OR sigbit (nat (argi 1 s0)) else p_sig (k_proc s q)))"
proof (induction ps arbitrary: s f)
  case (Cons p ps)
  have h: "kill_hits a priv s p = kill_hits a priv s0 p" using kill_hits_same [OF Cons.prems(2)] .
  have sig: "argi 1 s = argi 1 s0" using Cons.prems(2) by (simp add: same_ids_def argi_def)
  show ?case
  proof (cases "kill_hits a priv s0 p")
    case True
    obtain s1 where s1: "psignal e p (argi 1 s0) s = Ret () s1" "settled e s1" "same_ids s s1"
      "\<forall>q. p_sig (k_proc s1 q) = (if q = p then p_sig (k_proc s q) OR sigbit (nat (argi 1 s0)) else p_sig (k_proc s q))"
      using psignal_ok [OF Cons.prems(1) _ assms] Cons.prems(3) by (metis insert_subset lessThan_iff list.simps(15))
    have "kill_loop e a priv (p # ps) f s = kill_loop e a priv ps True s1"
      using True h sig s1(1) by (simp add: run_defs)
    then show ?thesis
      using Cons.IH [OF s1(2) same_ids_trans [OF Cons.prems(2) s1(3)], of True] s1(4) True Cons.prems(3,4) by auto
  next
    case False
    then show ?thesis using Cons.IH [OF Cons.prems(1,2), of f] h Cons.prems(3,4) by auto
  qed
qed (auto simp: ret_def)

lemma settled_error: "settled e (set_error x s) = settled e s"
  by (simp add: settled_def no_clash_def set_error_def upd_u_def)

text \<open>
  C26: \<open>kill\<close> signals exactly whom it may.  It returns; the signal becomes pending in every process
  that exists, is the one named (or, for process 0, is in the sender's group and is neither the
  swapper nor \<open>init\<close>; or any such process, for -1 from the super-user), and belongs to the sender
  unless the sender is the super-user; no other process gains a signal; and the error \<open>ESRCH\<close> is
  set exactly when there is no such process.
\<close>

theorem kill_signals_exactly:
  assumes "settled e s" "0 < argi 1 s" "argi 1 s < int NSIG"
  defines "target \<equiv> \<lambda>p. p < NPROC \<and> p_stat (k_proc s p) \<noteq> SNONE \<and> (u_uid (k_u s) = 0 \<or> p_uid (k_proc s p) = u_uid (k_u s)) \<and>
    (if argi 0 s = -1 \<and> u_uid (k_u s) = 0 then 1 < p
     else if argi 0 s = 0 then p_pgrp (k_proc s p) = p_pgrp (k_proc s (curproc s)) \<and> 1 < p
     else p_pid (k_proc s p) = argi 0 s)"
  shows "\<exists>s'. kill e s = Ret () s' \<and> settled e s' \<and>
    (\<forall>p. p_sig (k_proc s' p) = (if target p then p_sig (k_proc s p) OR sigbit (nat (argi 1 s)) else p_sig (k_proc s p))) \<and>
    uerr s' = (if \<exists>p. target p then uerr s else ESRCH)"
proof -
  define priv where "priv \<longleftrightarrow> argi 0 s = -1 \<and> u_uid (k_u s) = 0"
  define a where "a = (if priv then 0 else argi 0 s)"
  have t: "p \<in> set [0..<NPROC] \<and> kill_hits a priv s p \<longleftrightarrow> target p" for p
    by (auto simp: kill_hits_def a_def priv_def target_def)
  obtain s' where s': "kill_loop e a priv [0..<NPROC] False s = Ret (\<exists>p. target p) s'" "settled e s'" "same_ids s s'"
    "\<forall>q. p_sig (k_proc s' q) = (if target q then p_sig (k_proc s q) OR sigbit (nat (argi 1 s)) else p_sig (k_proc s q))"
    using kill_loop_ok [OF assms(2,3,1), of "[0..<NPROC]" a priv False] t
    by (auto simp: same_ids_def Bex_def atLeast0LessThan simp del: upt_rec_numeral)
  have "kill e s = Ret () (if \<exists>p. target p then s' else set_error ESRCH s')"
    using s'(1) by (simp add: kill_def Let_def run_defs flip: priv_def a_def)
  then show ?thesis
    using s'(2-4) by (auto simp: settled_error same_ids_def) (auto simp: set_error_def upd_u_def)
qed

theorem kill_signals_exactly_witness:
  "\<exists>s'. kill env0 (upd_u (\<lambda>u. u\<lparr>u_arg := (\<lambda>_. 0)(1 := 15)\<rparr>) queued_kst) = Ret () s' \<and>
     p_sig (k_proc s' 4) = 2 ^ 14 \<and> p_sig (k_proc s' 1) = 6 \<and> uerr s' = 0"
proof -
  define s where "s = upd_u (\<lambda>u. u\<lparr>u_arg := (\<lambda>_. 0)(1 := 15)\<rparr>) queued_kst"
  have "p_wchan (k_proc queued_kst 4) \<noteq> None" by (simp add: queued_kst_def)
  moreover have "p_stat (k_proc queued_kst p) = SSLEEP \<Longrightarrow> p = 4" for p
    by (auto simp: queued_kst_def proc0_def split: if_splits)
  ultimately have st: "settled env0 s"
    using queued_kst_queues queued_kst_no_clash by (auto simp: s_def settled_def upd_u_def no_clash_def)
  have a: "argi 0 s = 0" "argi 1 s = 15" by (simp_all add: s_def argi_def upd_u_def ival_def)
  have f: "u_uid (k_u s) = 0" "curproc s = 1" "k_proc s = k_proc queued_kst" "uerr s = 0"
    by (simp_all add: s_def upd_u_def queued_kst_def user0_def)
  obtain s' where s': "kill env0 s = Ret () s'"
    "\<forall>p. p_sig (k_proc s' p) = (if p < NPROC \<and> p_stat (k_proc queued_kst p) \<noteq> SNONE \<and>
       p_pgrp (k_proc queued_kst p) = p_pgrp (k_proc queued_kst 1) \<and> 1 < p then p_sig (k_proc queued_kst p) OR sigbit 15
       else p_sig (k_proc queued_kst p))"
    "uerr s' = (if \<exists>p. p < NPROC \<and> p_stat (k_proc queued_kst p) \<noteq> SNONE \<and>
       p_pgrp (k_proc queued_kst p) = p_pgrp (k_proc queued_kst 1) \<and> 1 < p then 0 else ESRCH)"
    using kill_signals_exactly [OF st, unfolded f a] by auto
  have "p_stat (k_proc queued_kst 4) \<noteq> SNONE" "p_pgrp (k_proc queued_kst 4) = p_pgrp (k_proc queued_kst 1)"
    "p_sig (k_proc queued_kst 4) = 0" "p_sig (k_proc queued_kst 1) = 6"
    by (simp_all add: queued_kst_def proc0_def)
  moreover from this have "uerr s' = 0" using s'(3) by (auto intro: exI [of _ 4])
  ultimately show ?thesis unfolding s_def [symmetric] using s'(1) s'(2) [rule_format, of 4] s'(2) [rule_format, of 1]
    by (simp add: sigbit_def push_bit_eq_mult)
qed

end
