(* ===== verification/Drumchain.thy ===== *)
theory Drumchain
  imports Disk
begin

text \<open>
  What the exchanges of the drum and disk drivers amount to.  A control word is read back through
  the fields of \<open>besm6disk.h\<close> into the words of memory and of the device that it names; the chain of
  exchanges by which \<open>mb.c\<close> serves one request then covers the request word for word.
\<close>

subsection \<open>Reading a control word\<close>

text \<open>The direction, the first memory word, the first device word and the length that a control word stands for.\<close>

definition cw_mem :: "int \<Rightarrow> int" where
  "cw_mem cw = (take_bit 5 (drop_bit 12 cw) + 32 * take_bit 4 (drop_bit 23 cw)) * PGSZ"

definition drum_span :: "int \<Rightarrow> int \<Rightarrow> bool \<times> int \<times> int \<times> int" where
  "drum_span ctlr cw =
     (let zone = ctlr * MBNZONE + take_bit 8 (drop_bit 2 cw)
      in if bit cw 18 then (bit cw 17, cw_mem cw, zone * PGSZ, PGSZ)
         else (bit cw 17, cw_mem cw + take_bit 2 (drop_bit 10 cw) * MBSECT, zone * PGSZ + take_bit 2 cw * MBSECT, MBSECT))"

lemma bit_take: "bit (x :: int) n \<Longrightarrow> take_bit k x = x \<Longrightarrow> n < k"
  by (metis bit_take_bit_iff)

lemma numeral_bits:
  "bit (0x40000 :: int) n \<longleftrightarrow> n = 18" "bit (0x20000 :: int) n \<longleftrightarrow> n = 17" "bit (0x800 :: int) n \<longleftrightarrow> n = 11"
  "bit (0x8000 :: int) n \<longleftrightarrow> n = 15"
proof -
  have "(0x40000 :: int) = push_bit 18 1" "(0x20000 :: int) = push_bit 17 1" "(0x800 :: int) = push_bit 11 1"
    "(0x8000 :: int) = push_bit 15 1"
    by (simp_all add: push_bit_eq_mult)
  then show "bit (0x40000 :: int) n \<longleftrightarrow> n = 18" "bit (0x20000 :: int) n \<longleftrightarrow> n = 17" "bit (0x800 :: int) n \<longleftrightarrow> n = 11"
    "bit (0x8000 :: int) n \<longleftrightarrow> n = 15"
    by (simp_all only: bit_push_bit_iff bit_1_iff) auto
qed

lemma and_31: "x AND 31 = take_bit 5 (x :: int)" and and_15: "x AND 15 = take_bit 4 (x :: int)"
  and and_3: "x AND 3 = take_bit 2 (x :: int)"
  by (simp_all add: take_bit_eq_mask mask_eq_exp_minus_1)

lemma split_page: "0 \<le> pg \<Longrightarrow> pg < 512 \<Longrightarrow> take_bit 5 pg + 32 * take_bit 4 (drop_bit 5 pg) = (pg :: int)"
  by (simp add: take_bit_eq_mod drop_bit_eq_div)

lemma cw_mem_or:
  assumes "take_bit 5 (drop_bit 12 y) = 0" "take_bit 4 (drop_bit 23 y) = 0" "0 \<le> pg" "pg < 512"
  shows "cw_mem (cwpage pg OR y) = pg * PGSZ"
proof -
  have "take_bit 5 (drop_bit 12 (cwpage pg)) = take_bit 5 pg"
    by (rule bit_eqI) (auto simp: cwpage_def and_31 and_15 bit_simps)
  moreover have "take_bit 4 (drop_bit 23 (cwpage pg)) = take_bit 4 (drop_bit 5 pg)"
    by (rule bit_eqI) (auto simp: cwpage_def and_31 and_15 bit_simps)
  ultimately show ?thesis
    using split_page [OF assms(3,4)] assms(1,2) by (simp add: cw_mem_def)
qed

lemma cwpage_low: "\<not> bit (cwpage pg) n" if "n < 12 \<or> 17 \<le> n \<and> n < 23"
  using that by (auto simp: cwpage_def and_31 and_15 bit_simps)

lemma cwpage_high: "bit (cwpage pg) n \<Longrightarrow> n < 27"
  unfolding cwpage_def and_31 and_15 bit_or_iff bit_push_bit_iff bit_take_bit_iff by auto

text \<open>The fields of a word assembled from a page, a zone, the read bit and one of the two tails.\<close>

definition drum_cw :: "int \<Rightarrow> int \<Rightarrow> bool \<Rightarrow> int \<Rightarrow> int" where
  "drum_cw pg zone rd tail = ((cwpage pg OR push_bit 2 zone) OR (if rd then CW_READ else 0)) OR tail"

lemma drum_cw_fields:
  assumes "take_bit 8 zone = zone" "\<And>n. bit tail n \<Longrightarrow> n < 2 \<or> 10 \<le> n \<and> n < 12 \<or> n = 18" "0 \<le> pg" "pg < 512"
  shows "cw_mem (drum_cw pg zone rd tail) = pg * PGSZ" "take_bit 8 (drop_bit 2 (drum_cw pg zone rd tail)) = zone"
    "bit (drum_cw pg zone rd tail) 17 = rd" "bit (drum_cw pg zone rd tail) 18 = bit tail 18"
    "take_bit 2 (drum_cw pg zone rd tail) = take_bit 2 tail"
    "take_bit 2 (drop_bit 10 (drum_cw pg zone rd tail)) = take_bit 2 (drop_bit 10 tail)"
    "take_bit 48 (drum_cw pg zone rd tail) = drum_cw pg zone rd tail"
proof -
  have z: "bit zone n \<Longrightarrow> n < 8" for n using bit_take [OF _ assms(1)] .
  have zb: "n < 8 \<and> bit zone n \<longleftrightarrow> bit zone n" for n using z by blast
  let ?y = "push_bit 2 zone OR ((if rd then CW_READ else 0) OR tail)"
  have e: "drum_cw pg zone rd tail = cwpage pg OR ?y" by (simp add: drum_cw_def or.assoc)
  have "take_bit 5 (drop_bit 12 ?y) = 0" "take_bit 4 (drop_bit 23 ?y) = 0"
    by (rule bit_eqI, use z assms(2) in \<open>fastforce simp: bit_simps numeral_bits split: if_splits\<close>)+
  then show "cw_mem (drum_cw pg zone rd tail) = pg * PGSZ" unfolding e by (intro cw_mem_or assms(3,4))
  show "take_bit 8 (drop_bit 2 (drum_cw pg zone rd tail)) = zone"
  proof (rule bit_eqI)
    fix n
    show "bit (take_bit 8 (drop_bit 2 (drum_cw pg zone rd tail))) n = bit zone n"
      using z [of n] assms(2) [of "2 + n"] by (auto simp: drum_cw_def bit_simps numeral_bits cwpage_low)
  qed
  show "bit (drum_cw pg zone rd tail) 17 = rd" "bit (drum_cw pg zone rd tail) 18 = bit tail 18"
    using z [of 15] z [of 16] assms(2) [of 17] by (auto simp: drum_cw_def bit_simps numeral_bits cwpage_low)
  show "take_bit 2 (drum_cw pg zone rd tail) = take_bit 2 tail"
    by (rule bit_eqI) (auto simp: drum_cw_def bit_simps numeral_bits cwpage_low)
  show "take_bit 2 (drop_bit 10 (drum_cw pg zone rd tail)) = take_bit 2 (drop_bit 10 tail)"
    by (rule bit_eqI, use z in \<open>fastforce simp: drum_cw_def bit_simps numeral_bits cwpage_low split: if_splits\<close>)
  show "take_bit 48 (drum_cw pg zone rd tail) = drum_cw pg zone rd tail"
  proof (rule bit_eqI)
    fix n
    have "n < 48" if "bit (drum_cw pg zone rd tail) n"
      using that cwpage_high [of pg n] z [of "n - 2"] assms(2) [of n] unfolding drum_cw_def bit_or_iff
      by (auto simp: bit_push_bit_iff numeral_bits split: if_splits)
    then show "bit (take_bit 48 (drum_cw pg zone rd tail)) n = bit (drum_cw pg zone rd tail) n"
      unfolding bit_take_bit_iff by blast
  qed
qed

lemma zone_sector: "(sec div (MBNZONE * MBSPP) * MBNZONE + sec div MBSPP mod MBNZONE) * PGSZ + sec mod MBSPP * MBSECT =
  sec * MBSECT" for sec :: int
proof -
  define z r h l where "z = sec div 4" "r = sec mod 4" "h = z div 256" "l = z mod 256"
  have "sec = 4 * z + r" "z = 256 * h + l" by (simp_all add: z_r_h_l_def)
  moreover have "sec div 1024 = h" using zdiv_zmult2_eq [of 256 sec 4] by (simp add: z_r_h_l_def)
  ultimately have "(sec div 1024 * 256 + l) * 1024 + r * 256 = sec * 256" by (simp add: algebra_simps)
  then show ?thesis by (simp add: z_r_h_l_def)
qed

lemma mb_exchange_span:
  assumes "0 \<le> pa" "pa < 2 ^ 19" "pa mod MBSECT = 0" "0 \<le> sec" "sec < MBNSECT" "0 < left" "left mod MBSECT = 0"
  obtains c cw nw where "mb_exchange rd pa sec left = (c, cw, nw)" "drum_span c cw = (rd, pa, sec * MBSECT, nw)"
    "uint (word_of_int cw :: w48) = cw" "c = 0 \<or> c = 1" "0 < nw" "nw \<le> left" "nw mod MBSECT = 0"
proof -
  define zone where "zone = sec div MBSPP mod MBNZONE"
  define pg where "pg = drop_bit 10 pa"
  have z: "take_bit 8 zone = zone" by (simp add: zone_def take_bit_eq_mod)
  have pg: "0 \<le> pg" "pg < 512" "pg * PGSZ + pa mod PGSZ = pa"
    using assms(1,2) by (auto simp: pg_def drop_bit_eq_div)
  have c: "sec div (MBNZONE * MBSPP) = 0 \<or> sec div (MBNZONE * MBSPP) = 1" using assms(4,5) by auto
  have sec: "(sec div (MBNZONE * MBSPP) * MBNZONE + zone) * PGSZ + sec mod MBSPP * MBSECT = sec * MBSECT"
    unfolding zone_def by (rule zone_sector)
  have a: "pa AND (PGSZ - 1) = take_bit 10 pa" by (simp add: take_bit_eq_mask mask_eq_exp_minus_1)
  have f: "cw_mem (drum_cw pg zone rd tail) = pg * PGSZ \<and> take_bit 8 (drop_bit 2 (drum_cw pg zone rd tail)) = zone \<and>
      bit (drum_cw pg zone rd tail) 17 = rd \<and> bit (drum_cw pg zone rd tail) 18 = bit tail 18 \<and>
      take_bit 2 (drum_cw pg zone rd tail) = take_bit 2 tail \<and>
      take_bit 2 (drop_bit 10 (drum_cw pg zone rd tail)) = take_bit 2 (drop_bit 10 tail) \<and>
      take_bit 48 (drum_cw pg zone rd tail) = drum_cw pg zone rd tail"
    if "\<And>n. bit tail n \<Longrightarrow> n < 2 \<or> 10 \<le> n \<and> n < 12 \<or> n = 18" for tail
    using drum_cw_fields [OF z that pg(1,2)] by blast
  show ?thesis
  proof (cases "sec mod MBSPP = 0 \<and> pa AND (PGSZ - 1) = 0 \<and> left \<ge> PGSZ")
    case True
    have "mb_exchange rd pa sec left = (sec div (MBNZONE * MBSPP), drum_cw pg zone rd CW_PAGE_MODE, PGSZ)"
      using True by (simp add: mb_exchange_def Let_def zone_def pg_def drum_cw_def)
    then show ?thesis
    proof (rule that)
      show "drum_span (sec div (MBNZONE * MBSPP)) (drum_cw pg zone rd CW_PAGE_MODE) = (rd, pa, sec * MBSECT, PGSZ)"
        using f [of CW_PAGE_MODE] True sec pg(3) a by (simp add: numeral_bits drum_span_def Let_def take_bit_eq_mod)
    qed (use f [of CW_PAGE_MODE] True c in \<open>simp_all add: numeral_bits uint_word_of_int_eq\<close>)
  next
    case False
    define tail where "tail = push_bit 10 (drop_bit 8 pa AND 3) OR sec mod MBSPP"
    have s4: "sec mod MBSPP = take_bit 2 sec" by (simp add: take_bit_eq_mod)
    have t: "bit tail n \<Longrightarrow> n < 2 \<or> 10 \<le> n \<and> n < 12 \<or> n = 18" "\<not> bit tail 18" for n
      by (auto simp: tail_def and_3 s4 bit_simps)
    have t2: "take_bit 2 tail = sec mod MBSPP" "take_bit 2 (drop_bit 10 tail) = take_bit 2 (drop_bit 8 pa)"
      unfolding s4 by (rule bit_eqI; auto simp: tail_def and_3 s4 bit_simps)+
    have q: "pa mod PGSZ = take_bit 2 (drop_bit 8 pa) * MBSECT"
    proof -
      have "256 * (pa div 256) = pa" using assms(3) by auto
      then show ?thesis
        using mult_mod_right [of 256 "pa div 256" 4] by (simp add: take_bit_eq_mod drop_bit_eq_div mult.commute)
    qed
    have "mb_exchange rd pa sec left = (sec div (MBNZONE * MBSPP), drum_cw pg zone rd tail, MBSECT)"
      using False by (simp only: mb_exchange_def Let_def zone_def pg_def drum_cw_def tail_def if_False)
    then show ?thesis
    proof (rule that)
      show "drum_span (sec div (MBNZONE * MBSPP)) (drum_cw pg zone rd tail) = (rd, pa, sec * MBSECT, MBSECT)"
        using f [OF t(1)] t(2) t2 sec pg(3) q by (simp add: drum_span_def Let_def)
      show "MBSECT \<le> left" using assms(6,7) by presburger
    qed (use f [OF t(1)] c in \<open>simp_all add: uint_word_of_int_eq\<close>)
  qed
qed

subsection \<open>The chain of exchanges\<close>

text \<open>The direction, the memory word and the drum word of every word that a list of instructions, newest first, exchanges.\<close>

definition span_words :: "bool \<times> int \<times> int \<times> int \<Rightarrow> (bool \<times> int \<times> int) list" where
  "span_words x = (case x of (rd, m, d, n) \<Rightarrow> map (\<lambda>k. (rd, m + k, d + k)) [0..n - 1])"

fun drum_words :: "iocmd list \<Rightarrow> (bool \<times> int \<times> int) list" where
  "drum_words [] = []"
| "drum_words (Ext a v # t) =
     drum_words t @ (if a = 1 \<or> a = 2 then span_words (drum_span (a - 1) (uint v)) else [])"
| "drum_words (Mod a v # t) = drum_words t"

lemma drum_words_append [simp]: "drum_words (t @ t') = drum_words t' @ drum_words t"
  by (induction t rule: drum_words.induct) simp_all

lemma span_words_append:
  assumes "0 \<le> a" "0 \<le> b"
  shows "span_words (rd, m, d, a) @ span_words (rd, m + a, d + a, b) = span_words (rd, m, d, a + b)"
proof -
  have "[0..a + b - 1] = [0..a - 1] @ [a..a + b - 1]"
    using upto_split1 [of 0 a "a + b - 1"] assms by (cases "b = 0") auto
  moreover have "[a..a + b - 1] = map (\<lambda>k. a + k) [0..b - 1]"
    by (rule nth_equalityI) (auto simp: nth_upto)
  ultimately show ?thesis by (simp add: span_words_def add.assoc)
qed

primrec mbintrs :: "env \<Rightarrow> nat \<Rightarrow> unit km" where
  "mbintrs e 0 = ret ()"
| "mbintrs e (Suc n) = andthen (mbintr e) (mbintrs e n)"

text \<open>The drums report no error to the poll that follows an exchange.\<close>

definition drums_ready :: "env \<Rightarrow> bool" where
  "drums_ready e \<longleftrightarrow> (\<forall>t. e_answer e (Ext EXT_IOERR 0 # t) = 0)"

text \<open>The request \<open>b\<close> of the buffer \<open>bp\<close> heads the queue, and its first \<open>n\<close> words have been exchanged since \<open>s0\<close>.\<close>

definition mb_served :: "bufp \<Rightarrow> kst \<Rightarrow> int \<Rightarrow> kst \<Rightarrow> bool" where
  "mb_served bp s0 n s \<longleftrightarrow> av_forw (k_buf s mbtab) = bp \<and> k_buf s bp = k_buf s0 bp \<and>
     (\<exists>T. k_trace s = T @ k_trace s0 \<and> drum_words T = span_words (B_READ \<in> b_flags (k_buf s0 bp), bufpaddr bp s0, b_blkno (k_buf s0 bp) * BSIZEW, n))"

definition mb_request :: "bufp \<Rightarrow> kst \<Rightarrow> bool" where
  "mb_request bp s \<longleftrightarrow> mb_ok bp s \<and> 0 < b_wcount (k_buf s bp) \<and> 0 \<le> bufpaddr bp s \<and>
     bufpaddr bp s + b_wcount (k_buf s bp) \<le> 2 ^ 19 \<and> bp \<noteq> Nobuf \<and> bp \<noteq> mbtab"

lemma bufpaddr_same: "k_buf s bp = k_buf s0 bp \<Longrightarrow> bufpaddr bp s = bufpaddr bp s0"
  by (simp add: bufpaddr_def)

lemma and_255: "x AND 255 = x mod 256" for x :: int
  using take_bit_eq_mod [of 8 x] by (simp add: take_bit_eq_mask mask_eq_exp_minus_1)

lemma mb_arm_ok:
  "\<exists>s' T. mb_arm e c s = Ret () s' \<and> k_trace s' = T @ k_trace s \<and> drum_words T = [] \<and>
     mbdone (k_mb s') = mbdone (k_mb s) \<and> mbnw (k_mb s') = mbnw (k_mb s) \<and>
     k_buf s' = (k_buf s)(mbtab := (k_buf s mbtab)\<lparr>b_wcount := 1\<rparr>)"
  by (auto simp: mb_arm_def run_defs Let_def mgrpon_def mgrpoff_def set_mgrp_def modw_def modi_def upd_mb_def upd_buf_def)

lemma mbstart_step:
  assumes "drums_ready e" "mb_request bp s0" "mb_served bp s0 d s" "mbdone (k_mb s) = d"
    and "0 \<le> d" "d < b_wcount (k_buf s0 bp)" "d mod MBSECT = 0"
  shows "\<exists>s' n. mbstart e s = Ret () s' \<and> mb_served bp s0 (d + n) s' \<and> mbdone (k_mb s') = d \<and> mbnw (k_mb s') = n \<and>
    b_wcount (k_buf s' mbtab) = 1 \<and> 0 < n \<and> d + n \<le> b_wcount (k_buf s0 bp) \<and> n mod MBSECT = 0"
proof -
  let ?b = "k_buf s0 bp" and ?pa = "bufpaddr bp s0" and ?rd = "B_READ \<in> b_flags (k_buf s0 bp)"
  have q: "mb_ok bp s0" "?pa + b_wcount ?b \<le> 2 ^ 19" "0 \<le> ?pa" "bp \<noteq> Nobuf" "bp \<noteq> mbtab"
    using assms(2) by (auto simp: mb_request_def)
  have ok: "b_wcount ?b mod MBSECT = 0" "?pa mod MBSECT = 0" "0 \<le> b_blkno ?b"
    "b_blkno ?b * MBSPB + b_wcount ?b div MBSECT \<le> MBNSECT"
    using q(1) by (auto simp: mb_ok_def Let_def and_255)
  have d: "d div MBSECT < b_wcount ?b div MBSECT" "d = MBSECT * (d div MBSECT)" "0 \<le> d div MBSECT"
    using assms(5,6,7) ok(1) by auto
  obtain T where s: "av_forw (k_buf s mbtab) = bp" "k_buf s bp = ?b" "k_trace s = T @ k_trace s0"
    "drum_words T = span_words (?rd, ?pa, b_blkno ?b * BSIZEW, d)"
    using assms(3) by (auto simp: mb_served_def)
  let ?sec = "b_blkno ?b * MBSPB + d div MBSECT"
  have h: "0 \<le> ?pa + d" "?pa + d < 2 ^ 19" "(?pa + d) mod MBSECT = 0" "0 \<le> ?sec" "?sec < MBNSECT"
    "0 < b_wcount ?b - d" "(b_wcount ?b - d) mod MBSECT = 0"
  proof -
    show "0 \<le> ?pa + d" "?pa + d < 2 ^ 19" "0 < b_wcount ?b - d" using q(2,3) assms(5,6) by linarith+
    show "0 \<le> ?sec" "?sec < MBNSECT" using ok(3,4) d(1,3) by linarith+
    show "(?pa + d) mod MBSECT = 0" "(b_wcount ?b - d) mod MBSECT = 0"
      using mod_add_eq [of ?pa MBSECT d] mod_diff_eq [of "b_wcount ?b" MBSECT d] unfolding ok(1,2) assms(7) by simp_all
  qed
  obtain c cw n where x: "mb_exchange ?rd (?pa + d) ?sec (b_wcount ?b - d) = (c, cw, n)"
    "drum_span c cw = (?rd, ?pa + d, ?sec * MBSECT, n)" "uint (word_of_int cw :: w48) = cw" "c = 0 \<or> c = 1"
    "0 < n" "n \<le> b_wcount ?b - d" "n mod MBSECT = 0"
    by (rule mb_exchange_span [OF h, where rd = ?rd]) (rule that)
  define s1 where "s1 = (upd_mb (\<lambda>m. m\<lparr>mbnw := n\<rparr>) s)\<lparr>k_trace := Ext EXT_IOERR 0 # Ext (c + 1) (word_of_int cw) # k_trace s\<rparr>"
  have st: "mbstart e s = mb_arm e c s1"
    using s(1,2) q(4) x(1) assms(1,4) bufpaddr_same [OF s(2)]
    by (simp add: mbstart_def numeral_eq_Suc Let_def run_defs outp_def ext_def drums_ready_def s1_def upd_mb_def)
  obtain s' T' where s': "mb_arm e c s1 = Ret () s'" "k_trace s' = T' @ k_trace s1" "drum_words T' = []"
     "mbdone (k_mb s') = mbdone (k_mb s1)" "mbnw (k_mb s') = mbnw (k_mb s1)"
     "k_buf s' = (k_buf s1)(mbtab := (k_buf s1 mbtab)\<lparr>b_wcount := 1\<rparr>)"
    using mb_arm_ok [of e c s1] by blast
  have "mb_served bp s0 (d + n) s'"
  proof -
    let ?T = "T' @ Ext EXT_IOERR 0 # Ext (c + 1) (word_of_int cw) # T"
    have "drum_words ?T = span_words (?rd, ?pa, b_blkno ?b * BSIZEW, d) @ span_words (?rd, ?pa + d, ?sec * MBSECT, n)"
      using s'(3) s(4) x(2,3,4) by auto
    moreover have "?sec * MBSECT = b_blkno ?b * BSIZEW + d" using d(2) by simp
    ultimately have "drum_words ?T = span_words (?rd, ?pa, b_blkno ?b * BSIZEW, d + n)"
      using span_words_append [of d n ?rd ?pa "b_blkno ?b * BSIZEW"] assms(5) x(5) by (simp only: less_imp_le)
    moreover have "k_trace s' = ?T @ k_trace s0" using s'(2) s(3) by (simp add: s1_def)
    ultimately show ?thesis using s'(6) s(1,2) q(5) by (auto simp: mb_served_def s1_def upd_mb_def)
  qed
  then show ?thesis
    using st s' x(5-7) assms(4) by (auto simp: s1_def upd_mb_def)
qed

lemma mbintr_chains:
  assumes "drums_ready e" "mb_request bp s0" "mb_served bp s0 (d + n) s" "mbdone (k_mb s) = d" "mbnw (k_mb s) = n"
    and "b_wcount (k_buf s mbtab) = 1" "0 \<le> d + n" "d + n < b_wcount (k_buf s0 bp)" "(d + n) mod MBSECT = 0"
  shows "\<exists>s' n'. mbintr e s = Ret () s' \<and> mb_served bp s0 (d + n + n') s' \<and> mbdone (k_mb s') = d + n \<and> mbnw (k_mb s') = n' \<and>
    b_wcount (k_buf s' mbtab) = 1 \<and> 0 < n' \<and> d + n + n' \<le> b_wcount (k_buf s0 bp) \<and> n' mod MBSECT = 0"
proof -
  define s1 where "s1 = upd_mb (\<lambda>m. m\<lparr>mbdone := d + n\<rparr>) (s\<lparr>k_dk_numb := (k_dk_numb s)(1 := k_dk_numb s 1 + 1),
          k_dk_wds := (k_dk_wds s)(1 := k_dk_wds s 1 + n)\<rparr>)"
  have "mb_served bp s0 (d + n) s1" "mbdone (k_mb s1) = d + n"
    using assms(3) by (simp_all add: mb_served_def s1_def upd_mb_def)
  note step = mbstart_step [OF assms(1,2) this assms(7,8,9)]
  have "mbintr e s = mbstart e s1"
    using assms(3-6,8) by (simp add: mbintr_def run_defs Let_def mb_served_def s1_def upd_mb_def)
  with step show ?thesis by simp
qed

lemma seq_single: "seq [m] = (m :: unit km)"
proof
  fix s show "seq [m] s = m s" by (cases "m s") (simp_all add: run_defs)
qed

lemma mbintr_ends:
  assumes "mb_served bp s0 (d + n) s" "mbdone (k_mb s) = d" "mbnw (k_mb s) = n"
    and "b_wcount (k_buf s mbtab) = 1" "d + n = b_wcount (k_buf s0 bp)" "bp \<noteq> mbtab"
  shows "\<exists>s'. mbintr e s = andthen (iodone e bp) (mbstart e) s' \<and> k_buf s' bp = (k_buf s0 bp)\<lparr>b_resid := 0\<rparr> \<and>
    av_forw (k_buf s' mbtab) = av_forw (k_buf s0 bp) \<and> mbdone (k_mb s') = 0"
  using assms by (simp add: mbintr_def run_defs Let_def mb_served_def upd_mb_def upd_buf_def seq_single)
     (rule exI, rule conjI [OF refl], simp)

lemma mb_runs:
  assumes "drums_ready e" "mb_request bp s0" "mb_served bp s0 (d + n) s" "mbdone (k_mb s) = d" "mbnw (k_mb s) = n"
    and "b_wcount (k_buf s mbtab) = 1" "0 \<le> d" "0 < n" "d + n \<le> b_wcount (k_buf s0 bp)" "d mod MBSECT = 0" "n mod MBSECT = 0"
  shows "\<exists>j s1 s2. int j * MBSECT < b_wcount (k_buf s0 bp) - d \<and> mbintrs e j s = Ret () s1 \<and>
    mb_served bp s0 (b_wcount (k_buf s0 bp)) s1 \<and> mbintr e s1 = andthen (iodone e bp) (mbstart e) s2 \<and>
    k_buf s2 bp = (k_buf s0 bp)\<lparr>b_resid := 0\<rparr> \<and> av_forw (k_buf s2 mbtab) = av_forw (k_buf s0 bp) \<and> mbdone (k_mb s2) = 0"
  using assms(3-)
proof (induction "nat (b_wcount (k_buf s0 bp) - (d + n))" arbitrary: d n s rule: less_induct)
  case less
  let ?w = "b_wcount (k_buf s0 bp)"
  show ?case
  proof (cases "d + n = ?w")
    case True
    then show ?thesis
      using mbintr_ends [OF less.prems(1-4) True, of e] less.prems assms(2)
      by (intro exI [of _ 0]) (auto simp: mb_request_def ret_def)
  next
    case False
    have m: "(d + n) mod MBSECT = 0" using less.prems(8,9) mod_add_eq [of d MBSECT n] by simp
    obtain s' n' where s': "mbintr e s = Ret () s'" "mb_served bp s0 (d + n + n') s'" "mbdone (k_mb s') = d + n"
      "mbnw (k_mb s') = n'" "b_wcount (k_buf s' mbtab) = 1" "0 < n'" "d + n + n' \<le> ?w" "n' mod MBSECT = 0"
      using mbintr_chains [OF assms(1,2) less.prems(1-4) _ _ m] less.prems(5-7) False by auto
    obtain j s1 s2 where j: "int j * MBSECT < ?w - (d + n)" "mbintrs e j s' = Ret () s1"
      "mb_served bp s0 ?w s1" "mbintr e s1 = andthen (iodone e bp) (mbstart e) s2"
      "k_buf s2 bp = (k_buf s0 bp)\<lparr>b_resid := 0\<rparr>" "av_forw (k_buf s2 mbtab) = av_forw (k_buf s0 bp)" "mbdone (k_mb s2) = 0"
      using less.hyps [OF _ s'(2-5) _ s'(6,7) m s'(8)] s'(6,7) less.prems(5,6) by auto
    have "MBSECT \<le> n" using less.prems(6,9) by (auto elim!: evenE simp: mod_eq_0_iff_dvd)
    then have "int (Suc j) * MBSECT < ?w - d" using j(1) by simp
    moreover have "mbintrs e (Suc j) s = Ret () s1" using s'(1) j(2) by (simp add: run_defs)
    ultimately show ?thesis using j(3-) by blast
  qed
qed

text \<open>
  C24: a valid request given to an idle drum driver is carried out exactly.  While the drums report
  no error, fewer interrupts than the request has sectors bring the driver to the last one, which
  hands the buffer to \<open>iodone\<close> with nothing left over and takes it off the queue; and the control
  words issued until then, read through the fields of \<open>besm6disk.h\<close>, exchange in order every word
  of the request once, between its place in memory and its place on the drums, in the direction
  asked for, and no other word.
\<close>

theorem drum_request_served:
  assumes "drums_ready e" "mb_request bp s"
    and "av_forw (k_buf s mbtab) = Nobuf" "b_wcount (k_buf s mbtab) = 0" "mbdone (k_mb s) = 0"
  shows "\<exists>s' j s1 s2 T. mbstrategy e bp s = Ret () s' \<and> int j * MBSECT < b_wcount (k_buf s bp) \<and> mbintrs e j s' = Ret () s1 \<and>
    k_trace s1 = T @ k_trace s \<and>
    drum_words T = map (\<lambda>k. (B_READ \<in> b_flags (k_buf s bp), bufpaddr bp s + k, b_blkno (k_buf s bp) * BSIZEW + k))
                     [0..b_wcount (k_buf s bp) - 1] \<and>
    mbintr e s1 = andthen (iodone e bp) (mbstart e) s2 \<and>
    b_resid (k_buf s2 bp) = 0 \<and> b_flags (k_buf s2 bp) = b_flags (k_buf s bp) \<and> av_forw (k_buf s2 mbtab) = Nobuf"
proof -
  define s0 where "s0 = enqueue mbtab bp s"
  have bp: "bp \<noteq> mbtab" "mb_ok bp s" using assms(2) by (auto simp: mb_request_def)
  have b: "k_buf s0 bp = (k_buf s bp)\<lparr>av_forw := Nobuf\<rparr>" "av_forw (k_buf s0 mbtab) = bp" "b_wcount (k_buf s0 mbtab) = 0"
    "k_mb s0 = k_mb s" "k_trace s0 = k_trace s"
    using bp(1) assms(3,4) by (simp_all add: s0_def enqueue_def Let_def upd_buf_def)
  have pa: "bufpaddr bp s0 = bufpaddr bp s" by (simp add: bufpaddr_def b(1))
  have r: "mb_request bp s0" using assms(2) unfolding mb_request_def mb_ok_def Let_def pa b(1) by simp
  have sv: "mb_served bp s0 0 s0" using b(2) by (simp add: mb_served_def span_words_def)
  have md: "mbdone (k_mb s0) = 0" using b(4) assms(5) by simp
  have w: "0 < b_wcount (k_buf s0 bp)" using r by (simp add: mb_request_def)
  obtain s' n where s': "mbstart e s0 = Ret () s'" "mb_served bp s0 (0 + n) s'" "mbdone (k_mb s') = 0" "mbnw (k_mb s') = n"
    "b_wcount (k_buf s' mbtab) = 1" "0 < n" "0 + n \<le> b_wcount (k_buf s0 bp)" "n mod MBSECT = 0"
    using mbstart_step [OF assms(1) r sv md _ w] by auto
  obtain j s1 s2 where j: "int j * MBSECT < b_wcount (k_buf s0 bp) - 0" "mbintrs e j s' = Ret () s1"
      "mb_served bp s0 (b_wcount (k_buf s0 bp)) s1" "mbintr e s1 = andthen (iodone e bp) (mbstart e) s2"
      "k_buf s2 bp = (k_buf s0 bp)\<lparr>b_resid := 0\<rparr>" "av_forw (k_buf s2 mbtab) = av_forw (k_buf s0 bp)"
    using mb_runs [OF assms(1) r s'(2-5) order_refl s'(6,7) _ s'(8)] by auto
  have "mbstrategy e bp s = Ret () s'"
    using bp(2) b(3) s'(1) unfolding s0_def by (simp add: mbstrategy_def run_defs)
  moreover obtain T where "k_trace s1 = T @ k_trace s"
    "drum_words T = span_words (B_READ \<in> b_flags (k_buf s bp), bufpaddr bp s, b_blkno (k_buf s bp) * BSIZEW, b_wcount (k_buf s bp))"
    using j(3) b(1,5) pa by (auto simp: mb_served_def)
  ultimately show ?thesis
    using j(1,2,4-6) b(1)
    by (intro exI [of _ s'] exI [of _ j] exI [of _ s1] exI [of _ s2] exI [of _ T]) (simp add: span_words_def)
qed

definition drum_demo :: kst where
  "drum_demo = upd_buf mbtab (\<lambda>b. b\<lparr>av_forw := Nobuf, b_wcount := 0\<rparr>)
     (upd_buf (Rawbuf 1) (\<lambda>b. b\<lparr>b_flags := {B_READ, B_PHYS}, b_paddr := 40960, b_wcount := 1536, b_blkno := 3\<rparr>) kst0)"

theorem drum_request_served_witness:
  "\<exists>s' j s1 T. mbstrategy (env0\<lparr>e_answer := \<lambda>_. 0\<rparr>) (Rawbuf 1) drum_demo = Ret () s' \<and>
     mbintrs (env0\<lparr>e_answer := \<lambda>_. 0\<rparr>) j s' = Ret () s1 \<and> k_trace s1 = T @ k_trace drum_demo \<and>
     drum_words T = map (\<lambda>k. (True, 40960 + k, 1536 + k)) [0..1535]"
proof -
  have "drums_ready (env0\<lparr>e_answer := \<lambda>_. 0\<rparr>)" by (simp add: drums_ready_def)
  moreover have "mb_request (Rawbuf 1) drum_demo"
    by (simp add: mb_request_def mb_ok_def drum_demo_def upd_buf_def bufpaddr_def Let_def and_255)
  moreover have "av_forw (k_buf drum_demo mbtab) = Nobuf" "b_wcount (k_buf drum_demo mbtab) = 0" "mbdone (k_mb drum_demo) = 0"
    by (simp_all add: drum_demo_def upd_buf_def kst0_def)
  ultimately show ?thesis
    using drum_request_served [of "env0\<lparr>e_answer := \<lambda>_. 0\<rparr>" "Rawbuf 1" drum_demo]
    by (auto simp: drum_demo_def upd_buf_def bufpaddr_def)
qed

subsection \<open>A disk that keeps failing\<close>

text \<open>Every exchange of the controller ends in error, from a drive that is ready and may be written.\<close>

definition drive_failing :: "env \<Rightarrow> int \<Rightarrow> bool" where
  "drive_failing e ctlr \<longleftrightarrow>
     (\<forall>t. e_answer e (Ext EXT_IOERR 0 # t) AND drop_bit (nat ctlr) 16 \<noteq> 0 \<and>
          bit (e_answer e (Ext (ctlr + 0x803) 0 # Ext (ctlr + 19) 9 # t)) 8 \<and>
          \<not> bit (e_answer e (Ext (ctlr + 0x803) 0 # Ext (ctlr + 19) 25 # t)) 7)"

primrec mdintrs :: "env \<Rightarrow> nat \<Rightarrow> unit km" where
  "mdintrs e 0 = ret ()"
| "mdintrs e (Suc n) = andthen (mdintr e) (mdintrs e n)"

text \<open>The request of \<open>bp\<close> heads the queue and its first exchange has failed for the \<open>k\<close>-th time after the first.\<close>

definition md_retrying :: "bufp \<Rightarrow> kst \<Rightarrow> nat \<Rightarrow> kst \<Rightarrow> bool" where
  "md_retrying bp s0 k s \<longleftrightarrow> av_forw (k_buf s mdtab) = bp \<and> k_buf s bp = k_buf s0 bp \<and> mddone (k_md s) = 0 \<and>
     mderr (k_md s) = 1 \<and> b_wcount (k_buf s mdtab) = 1 \<and> b_resid (k_buf s mdtab) = int k \<and>
     mdretries (k_md s) = mdretries (k_md s0) + int k"

lemma md_arm_ok:
  "\<exists>s'. md_arm e c s = Ret () s' \<and> mderr (k_md s') = mderr (k_md s) \<and> mddone (k_md s') = mddone (k_md s) \<and>
     mdretries (k_md s') = mdretries (k_md s) \<and> k_buf s' = (k_buf s)(mdtab := (k_buf s mdtab)\<lparr>b_wcount := 1\<rparr>)"
  by (auto simp: md_arm_def run_defs Let_def mgrpon_def mgrpoff_def set_mgrp_def modw_def modi_def upd_md_def upd_buf_def)

lemma status_bits:
  fixes lo hi :: w48
  assumes "bit lo 8" "\<not> bit hi 7"
  shows "((uint lo AND 4095) OR push_bit 12 (uint hi AND 4095)) AND MDST_READY \<noteq> 0"
    "((uint lo AND 4095) OR push_bit 12 (uint hi AND 4095)) AND MDST_READONLY = 0"
proof -
  let ?x = "(uint lo AND 4095) OR push_bit 12 (uint hi AND 4095)"
  have m: "y AND 4095 = take_bit 12 y" for y :: int by (simp add: take_bit_eq_mask mask_eq_exp_minus_1)
  have p: "(256 :: int) = push_bit 8 1" "(0x80000 :: int) = push_bit 19 1" by (simp_all add: push_bit_eq_mult)
  have "bit (?x AND 256) 8" using assms(1)
    unfolding m p(1) bit_and_iff bit_or_iff bit_push_bit_iff bit_take_bit_iff bit_1_iff bit_uint_iff by simp
  then show "?x AND MDST_READY \<noteq> 0" by (metis bit_0_eq bot_apply bot_bool_def)
  have "\<not> bit (?x AND 0x80000) n" for n using assms(2)
    unfolding m p(2) bit_and_iff bit_or_iff bit_push_bit_iff bit_take_bit_iff bit_1_iff bit_uint_iff by auto
  then show "?x AND MDST_READONLY = 0" by (simp add: bit_eq_iff)
qed

lemma md_status_ok:
  assumes "drive_failing e c"
  shows "\<exists>s'. md_status e c s = Ret () s' \<and> mdstatus (k_md s') AND MDST_READY \<noteq> 0 \<and> mdstatus (k_md s') AND MDST_READONLY = 0 \<and>
    k_buf s' = k_buf s \<and> mddone (k_md s') = mddone (k_md s) \<and> mdretries (k_md s') = mdretries (k_md s)"
proof -
  define t where "t = Ext (c + 0x803) 0 # Ext (c + 19) 9 # k_trace s"
  define lo where "lo = e_answer e t"
  define hi where "hi = e_answer e (Ext (c + 0x803) 0 # Ext (c + 19) 25 # t)"
  have "bit lo 8" "\<not> bit hi 7" using assms by (simp_all add: drive_failing_def t_def lo_def hi_def)
  then show ?thesis
    using status_bits [of lo hi]
    by (simp add: md_status_def mdstat_def outp_def ext_def run_defs Let_def upd_md_def flip: t_def lo_def hi_def)
qed

lemma md_issue_ok: "\<exists>t. md_issue e dev cw cmd s = Ret () (s\<lparr>k_trace := t\<rparr>)"
  by (simp add: md_issue_def outp_def ext_def run_defs Let_def) (rule exI, rule refl)

lemma mdstart_retry:
  assumes "drive_failing e (drop_bit 5 (minor (b_dev (k_buf s0 bp))))" "bp \<noteq> Nobuf" "bp \<noteq> mdtab"
    and "av_forw (k_buf s mdtab) = bp" "k_buf s bp = k_buf s0 bp" "mddone (k_md s) = 0"
    and "b_resid (k_buf s mdtab) = int k" "mdretries (k_md s) = mdretries (k_md s0) + int k"
  shows "\<exists>s'. mdstart e s = Ret () s' \<and> md_retrying bp s0 k s'"
proof -
  let ?b = "k_buf s0 bp" let ?dev = "minor (b_dev ?b)" let ?c = "drop_bit 5 ?dev" let ?rd = "B_READ \<in> b_flags ?b"
  obtain cw cmd nw where x: "md_exchange ?rd (bufpaddr bp s) (b_blkno ?b) (b_wcount ?b) = (cw, cmd, nw)"
    by (metis prod_cases3)
  define s1 where "s1 = (let s = upd_md (\<lambda>m. m\<lparr>mdnw := nw\<rparr>) s in
     if ?rd then s else s\<lparr>k_mem := md_header ?c (b_blkno ?b) (cw AND CW_PAGE_MODE \<noteq> 0) (mdvol (k_md s) (nat ?dev)) (k_mem s)\<rparr>)"
  obtain t where t: "md_issue e ?dev cw cmd s1 = Ret () (s1\<lparr>k_trace := t\<rparr>)" using md_issue_ok by blast
  define s2 where "s2 = (upd_md (\<lambda>m. m\<lparr>mderr := 0\<rparr>) (s1\<lparr>k_trace := t\<rparr>))\<lparr>k_trace := Ext EXT_IOERR 0 # t\<rparr>"
  obtain s3 where s3: "md_status e ?c s2 = Ret () s3" "mdstatus (k_md s3) AND MDST_READY \<noteq> 0"
    "mdstatus (k_md s3) AND MDST_READONLY = 0" "k_buf s3 = k_buf s2" "mddone (k_md s3) = mddone (k_md s2)"
    "mdretries (k_md s3) = mdretries (k_md s2)"
    using md_status_ok [OF assms(1)] by blast
  have "e_answer e (Ext EXT_IOERR 0 # t) AND drop_bit (nat ?c) 16 \<noteq> 0"
    using assms(1) by (simp add: drive_failing_def)
  then have "mdstart e s = md_arm e ?c (upd_md (\<lambda>m. m\<lparr>mderr := 1\<rparr>) s3)"
    using assms(2,4-6) x t s3(1-3)
    by (cases ?rd) (simp_all add: mdstart_def mdstart_loop.simps(2) [of e 23, simplified] run_defs Let_def ext_def
        s1_def s2_def upd_md_def)
  moreover have "k_buf s3 = k_buf s" "mddone (k_md s3) = 0" "mdretries (k_md s3) = mdretries (k_md s)"
    using s3(4-) assms(6) by (simp_all add: s2_def s1_def Let_def upd_md_def)
  ultimately show ?thesis
    using md_arm_ok [of e ?c "upd_md (\<lambda>m. m\<lparr>mderr := 1\<rparr>) s3"] assms(3-8)
    by (auto simp: md_retrying_def upd_md_def)
qed

lemma mdintr_retries:
  assumes "drive_failing e (drop_bit 5 (minor (b_dev (k_buf s0 bp))))" "bp \<noteq> Nobuf" "bp \<noteq> mdtab"
    and "md_retrying bp s0 k s" "int k < MDRETRY"
  shows "\<exists>s'. mdintr e s = Ret () s' \<and> md_retrying bp s0 (Suc k) s'"
proof -
  define s1 where "s1 = upd_md (\<lambda>m. m\<lparr>mdretries := mdretries m + 1\<rparr>)
    (upd_buf mdtab (\<lambda>t. t\<lparr>b_resid := b_resid t + 1\<rparr>) (upd_md (\<lambda>m. m\<lparr>mderr := 0\<rparr>) s))"
  have "mdintr e s = mdstart e s1"
    using assms(4,5) by (simp add: md_retrying_def mdintr_def run_defs Let_def s1_def upd_md_def upd_buf_def)
  moreover have "\<exists>s'. mdstart e s1 = Ret () s' \<and> md_retrying bp s0 (Suc k) s'"
    by (rule mdstart_retry [OF assms(1-3)])
      (use assms(3,4) in \<open>auto simp: md_retrying_def s1_def upd_md_def upd_buf_def\<close>)
  ultimately show ?thesis by simp
qed

lemma mdintrs_retry:
  assumes "drive_failing e (drop_bit 5 (minor (b_dev (k_buf s0 bp))))" "bp \<noteq> Nobuf" "bp \<noteq> mdtab"
  shows "md_retrying bp s0 k s \<Longrightarrow> int (k + j) \<le> MDRETRY \<Longrightarrow>
    \<exists>s'. mdintrs e j s = Ret () s' \<and> md_retrying bp s0 (k + j) s'"
proof (induction j arbitrary: k s)
  case (Suc j)
  obtain s' where "mdintr e s = Ret () s'" "md_retrying bp s0 (Suc k) s'"
    using mdintr_retries [OF assms Suc.prems(1)] Suc.prems(2) by auto
  with Suc.IH [of "Suc k" s'] Suc.prems(2) show ?case by (auto simp: run_defs)
qed (simp add: ret_def)

lemma deverror_keeps [simp]: "k_buf (deverror bp x y s) = k_buf s" "k_md (deverror bp x y s) = k_md s"
  by (auto simp: deverror_def prdev_def printf_def klog_def Let_def split: option.splits)

lemma mdintr_gives_up:
  assumes "md_retrying bp s0 10 s" "bp \<noteq> mdtab"
  shows "\<exists>s' s2. mdintr e s = andthen (md_fail e bp) (mdstart e) s' \<and> md_fail e bp s' = iodone e bp s2 \<and>
    k_buf s2 bp = (k_buf s0 bp)\<lparr>b_flags := insert B_ERROR (b_flags (k_buf s0 bp)), b_resid := b_wcount (k_buf s0 bp)\<rparr> \<and>
    av_forw (k_buf s2 mdtab) = av_forw (k_buf s0 bp) \<and> b_resid (k_buf s2 mdtab) = 0"
proof -
  define s1 where "s1 = upd_buf mdtab (\<lambda>t. t\<lparr>b_resid := b_resid t + 1\<rparr>) (upd_md (\<lambda>m. m\<lparr>mderr := 0\<rparr>) s)"
  have i: "mdintr e s = andthen (md_fail e bp) (mdstart e) s1"
    using assms by (simp add: md_retrying_def mdintr_def run_defs Let_def s1_def upd_md_def upd_buf_def seq_single)
  have k: "k_buf s1 bp = k_buf s0 bp" "mddone (k_md s1) = 0"
    using assms by (simp_all add: md_retrying_def s1_def upd_md_def upd_buf_def)
  define s2 where "s2 = (let s = deverror bp (mdstatus (k_md s1)) (b_resid (k_buf s1 mdtab)) s1 in
    s\<lparr>k_md := (k_md s)\<lparr>mddone := 0\<rparr>, k_buf := (k_buf s)(
      bp := (k_buf s bp)\<lparr>b_flags := insert B_ERROR (b_flags (k_buf s bp)), b_resid := b_wcount (k_buf s bp)\<rparr>,
      mdtab := (k_buf s mdtab)\<lparr>b_resid := 0, av_forw := av_forw (k_buf s bp)\<rparr>)\<rparr>)"
  have "md_fail e bp s1 = iodone e bp s2"
    using assms(2) k by (simp add: md_fail_def run_defs seq_single upd_md_def upd_buf_def Let_def s2_def)
  with i k show ?thesis using assms(2) by (intro exI [of _ s1] exI [of _ s2]) (simp add: s2_def Let_def)
qed

text \<open>
  C29: a disk that is ready and writable but fails every exchange does not hang its request.  The request given to an idle
  driver is tried again after each of the first \<open>MDRETRY\<close> interrupts; the next one gives it up:
  the buffer goes to \<open>iodone\<close> with \<open>B_ERROR\<close> set and the whole count left over, the queue moves on
  and the count of errors starts afresh for the request after it.
\<close>

theorem disk_gives_up:
  assumes "drive_failing e (drop_bit 5 (minor (b_dev (k_buf s bp))))" "bp \<noteq> Nobuf" "bp \<noteq> mdtab" "md_ok bp s"
    and "av_forw (k_buf s mdtab) = Nobuf" "b_wcount (k_buf s mdtab) = 0" "b_resid (k_buf s mdtab) = 0" "mddone (k_md s) = 0"
  shows "\<exists>s' s1 s2 s3. mdstrategy e bp s = Ret () s' \<and> mdintrs e (nat MDRETRY) s' = Ret () s1 \<and>
    mdretries (k_md s1) = MDRETRY \<and> b_flags (k_buf s1 bp) = b_flags (k_buf s bp) \<and>
    mdintr e s1 = andthen (md_fail e bp) (mdstart e) s2 \<and> md_fail e bp s2 = iodone e bp s3 \<and>
    b_flags (k_buf s3 bp) = insert B_ERROR (b_flags (k_buf s bp)) \<and> b_resid (k_buf s3 bp) = b_wcount (k_buf s bp) \<and>
    av_forw (k_buf s3 mdtab) = Nobuf \<and> b_resid (k_buf s3 mdtab) = 0"
proof -
  define s0 where "s0 = enqueue mdtab bp (upd_md (\<lambda>m. m\<lparr>mdretries := 0\<rparr>) s)"
  have b: "k_buf s0 bp = (k_buf s bp)\<lparr>av_forw := Nobuf\<rparr>" "av_forw (k_buf s0 mdtab) = bp" "b_wcount (k_buf s0 mdtab) = 0"
    "b_resid (k_buf s0 mdtab) = int 0" "mddone (k_md s0) = 0" "mdretries (k_md s0) = 0"
    using assms(3,5-8) by (simp_all add: s0_def enqueue_def Let_def upd_buf_def upd_md_def)
  have f: "drive_failing e (drop_bit 5 (minor (b_dev (k_buf s0 bp))))" using assms(1) b(1) by simp
  obtain s' where s': "mdstart e s0 = Ret () s'" "md_retrying bp s0 0 s'"
    using mdstart_retry [OF f assms(2,3) b(2) refl b(5,4)] by auto
  obtain s1 where s1: "mdintrs e (nat MDRETRY) s' = Ret () s1" "md_retrying bp s0 10 s1"
    using mdintrs_retry [OF f assms(2,3) s'(2), of 10] by auto
  obtain s2 s3 where "mdintr e s1 = andthen (md_fail e bp) (mdstart e) s2" "md_fail e bp s2 = iodone e bp s3"
    "k_buf s3 bp = (k_buf s0 bp)\<lparr>b_flags := insert B_ERROR (b_flags (k_buf s0 bp)), b_resid := b_wcount (k_buf s0 bp)\<rparr>"
    "av_forw (k_buf s3 mdtab) = av_forw (k_buf s0 bp)" "b_resid (k_buf s3 mdtab) = 0"
    using mdintr_gives_up [OF s1(2) assms(3)] by blast
  moreover have "mdstrategy e bp s = Ret () s'"
    using assms(4,5) b(3) s'(1) unfolding s0_def by (simp add: mdstrategy_def run_defs)
  ultimately show ?thesis
    using s1 b(1,6) by (intro exI [of _ s'] exI [of _ s1] exI [of _ s2] exI [of _ s3]) (simp add: md_retrying_def)
qed

definition disk_demo :: kst where
  "disk_demo = upd_buf mdtab (\<lambda>b. b\<lparr>av_forw := Nobuf, b_wcount := 0, b_resid := 0\<rparr>)
     (upd_buf (Buf 2) (\<lambda>b. b\<lparr>b_flags := {B_READ}, b_dev := 0, b_wcount := 512, b_blkno := 7\<rparr>) kst0)"

text \<open>Status word 0400, error mask 020: ready, not read-only, failing.\<close>

definition disk_bad :: env where
  "disk_bad = env0\<lparr>e_answer := (\<lambda>t. case t of Ext a v # Ext b w # _ \<Rightarrow> if a \<noteq> EXT_IOERR \<and> w = 25 then 0 else 0x110 | _ \<Rightarrow> 0x110)\<rparr>"

theorem disk_gives_up_witness:
  "\<exists>s' s1 s2 s3. mdstrategy disk_bad (Buf 2) disk_demo = Ret () s' \<and> mdintrs disk_bad 10 s' = Ret () s1 \<and>
     mdintr disk_bad s1 = andthen (md_fail disk_bad (Buf 2)) (mdstart disk_bad) s2 \<and>
     md_fail disk_bad (Buf 2) s2 = iodone disk_bad (Buf 2) s3 \<and>
     b_flags (k_buf s3 (Buf 2)) = {B_READ, B_ERROR} \<and> b_resid (k_buf s3 (Buf 2)) = 512"
proof -
  have "drive_failing disk_bad (drop_bit 5 (minor (b_dev (k_buf disk_demo (Buf 2)))))"
    by (auto simp: drive_failing_def disk_bad_def disk_demo_def upd_buf_def minor_def split: list.splits iocmd.splits)
  moreover have "md_ok (Buf 2) disk_demo"
    by (simp add: md_ok_def disk_demo_def upd_buf_def bufpaddr_def Let_def minor_def)
  moreover have "av_forw (k_buf disk_demo mdtab) = Nobuf" "b_wcount (k_buf disk_demo mdtab) = 0"
    "b_resid (k_buf disk_demo mdtab) = 0" "mddone (k_md disk_demo) = 0"
    "b_flags (k_buf disk_demo (Buf 2)) = {B_READ}" "b_wcount (k_buf disk_demo (Buf 2)) = 512"
    by (simp_all add: disk_demo_def upd_buf_def kst0_def)
  ultimately show ?thesis
    using disk_gives_up [of disk_bad disk_demo "Buf 2"] by (simp add: insert_commute) blast
qed

end
