(* ===== verification/Syscalls.thy ===== *)
theory Syscalls
  imports Signals Drumchain
begin

text \<open>
  System calls from the user's registers and back: the gate of \<open>syscall.c\<close> composed with handlers
  of the other components.
\<close>

text \<open>The state in which the handler of a system call with \<open>n\<close> arguments starts.\<close>

definition call_state :: "nat \<Rightarrow> kst \<Rightarrow> kst" where
  "call_state n s = call_init (marshal n (upd_u (\<lambda>u. u\<lparr>u_error := 0\<rparr>) (s\<lparr>k_nsyscall := k_nsyscall s + 1\<rparr>)))"

lemma syscall_ret:
  assumes "callp e (uint (u_ar0 (k_u s) R14)) = (n, call)" "call (call_state n s) = Ret () s2"
  shows "syscall e s = sysret e (give_result s2)"
  using assms by (simp add: syscall_def call_state_def run_defs catch_def Let_def seq_single)

lemma syscall_jump:
  assumes "callp e (uint (u_ar0 (k_u s) R14)) = (n, call)" "call (call_state n s) = Jump s2"
  shows "syscall e s = sysret e (give_result (if uerr s2 = 0 then set_error EINTR s2 else s2))"
  using assms by (simp add: syscall_def call_state_def run_defs catch_def Let_def interrupted_def seq_single)

lemma call_state_simps [simp]:
  "uerr (call_state n s) = 0" "u_val1 (k_u (call_state n s)) = 0" "u_justreturn (k_u (call_state n s)) = 0" "k_file (call_state n s) = k_file s"
  "k_inode (call_state n s) = k_inode s" "k_proc (call_state n s) = k_proc s" "k_slpque (call_state n s) = k_slpque s"
  "u_ofile (k_u (call_state n s)) = u_ofile (k_u s)" "curproc (call_state n s) = curproc s"
  "k_mem (call_state n s) = k_mem s" "k_uhome (call_state n s) = k_uhome s" "u_signal (k_u (call_state n s)) = u_signal (k_u s)"
  "k_tty (call_state n s) = k_tty s"
  by (auto simp: call_state_def call_init_def marshal_def set_ar0_def upd_u_def Let_def)

lemma call_state_arg: "i < n \<Longrightarrow> u_arg (k_u (call_state n s)) i = arg_word n s i"
  by (auto simp: call_state_def call_init_def marshal_def set_ar0_def upd_u_def Let_def arg_word_def)

lemma give_error: "u_justreturn (k_u s) = 0 \<Longrightarrow> uerr s \<noteq> 0 \<Longrightarrow>
  u_ar0 (k_u (give_result s)) RACC = wval (-1) \<and> u_ar0 (k_u (give_result s)) R14 = wval (uerr s)"
  by (simp add: give_result_def set_ar0_def upd_u_def)

lemma give_keeps [simp]:
  "k_file (give_result s) = k_file s" "k_inode (give_result s) = k_inode s" "k_mem (give_result s) = k_mem s"
  "u_ofile (k_u (give_result s)) = u_ofile (k_u s)" "k_slpque (give_result s) = k_slpque s" "k_proc (give_result s) = k_proc s"
  "k_tty (give_result s) = k_tty s"
  by (auto simp: give_result_def set_ar0_def upd_u_def)

subsection \<open>A bad descriptor\<close>

text \<open>Read, write, close, seek, fstat and ioctl: the rows of the table whose first argument is a descriptor.\<close>

definition fd_calls :: "(int \<times> nat) list" where
  "fd_calls = [(3, 3), (4, 3), (6, 1), (19, 3), (28, 2), (54, 3)]"

lemma fd_call_fails:
  assumes "(code, n) \<in> set fd_calls" "getf (argi 0 s) s = Ret None (set_error EBADF s)"
  shows "\<exists>call. callp e code = (n, call) \<and> call s = Ret () (set_error EBADF s)"
  using assms
  by (auto simp: fd_calls_def callp_def sysent_def read_call_def write_call_def rdwr_def close_def seek_def fstat_def
      ioctl_def run_defs)

text \<open>
  C27: a system call on a descriptor that is not open fails and does nothing else.  Whatever the
  first argument on the user's stack, when it is out of range or names no open file, the gate
  returns from \<open>read\<close>, \<open>write\<close>, \<open>close\<close>, \<open>seek\<close>, \<open>fstat\<close> and \<open>ioctl\<close> with -1 in the accumulator and
  \<open>EBADF\<close> in register 14, and files, inodes, descriptors and memory are as they were.
\<close>

theorem bad_descriptor:
  assumes "(code, n) \<in> set fd_calls" "u_ar0 (k_u s) R14 = word_of_int code"
  defines "fd \<equiv> ival (arg_word n s 0)"
  assumes "fd < 0 \<or> int NOFILE \<le> fd \<or> u_ofile (k_u s) (nat fd) = None"
  shows "\<exists>s'. syscall e s = sysret e s' \<and> u_ar0 (k_u s') RACC = wval (-1) \<and> u_ar0 (k_u s') R14 = wval EBADF \<and>
    k_file s' = k_file s \<and> k_inode s' = k_inode s \<and> u_ofile (k_u s') = u_ofile (k_u s) \<and> k_mem s' = k_mem s"
proof -
  let ?t = "call_state n s"
  have n: "0 < n" "uint (u_ar0 (k_u s) R14) = code"
    using assms(1,2) by (auto simp: fd_calls_def)
  have "argi 0 ?t = fd" using n(1) by (simp add: argi_def call_state_arg fd_def)
  then have "getf (argi 0 ?t) ?t = Ret None (set_error EBADF ?t)" using assms(4) by (auto simp: getf_def)
  then obtain call where c: "callp e code = (n, call)" "call ?t = Ret () (set_error EBADF ?t)"
    using fd_call_fails [OF assms(1)] by blast
  let ?r = "give_result (set_error EBADF ?t)"
  have "syscall e s = sysret e ?r" using syscall_ret [of e s n call] n(2) c by simp
  moreover have "u_ar0 (k_u ?r) RACC = wval (-1)" "u_ar0 (k_u ?r) R14 = wval EBADF"
    using give_error [of "set_error EBADF ?t"] by (simp_all add: set_error_def upd_u_def)
  ultimately show ?thesis by (intro exI [of _ ?r]) (simp add: set_error_def upd_u_def)
qed

theorem bad_descriptor_witness:
  "\<exists>s'. syscall env0 (upd_u (\<lambda>u. u\<lparr>u_ar0 := (\<lambda>_. 0)(R14 := 6, RACC := 77)\<rparr>) kst0) = sysret env0 s' \<and>
     u_ar0 (k_u s') R14 = wval EBADF"
  using bad_descriptor [of 6 1 "upd_u (\<lambda>u. u\<lparr>u_ar0 := (\<lambda>_. 0)(R14 := 6, RACC := 77)\<rparr>) kst0" env0]
  by (auto simp: fd_calls_def upd_u_def arg_word_def Let_def ival_def)

subsection \<open>A wait that a signal ends\<close>

lemma issig_deliverable:
  assumes "0 \<le> p_sig (k_proc s (curproc s))" "p_sig (k_proc s (curproc s)) < 2 ^ 16" "deliverable s m"
  shows "\<exists>n s'. issig s = Ret n s' \<and> n \<noteq> 0 \<and> deliverable s n \<and>
    s' = sig_cleared (p_sig (k_proc s (curproc s)) AND NOT (mask (n - 1))) s"
proof -
  have "p_sig (k_proc s (curproc s)) = take_bit 16 (p_sig (k_proc s (curproc s)))"
    using assms by (simp add: take_bit_int_eq_self)
  then have "\<not> bit (p_sig (k_proc s (curproc s))) j" if "16 \<le> j" for j using that by (metis bit_take_bit_iff not_le)
  from issig_loop_ok [OF this, of 0 "Suc NSIG"] assms(3) show ?thesis
    by (auto simp: issig_def issig_result_def deliverable_def)
qed

lemma sleep_interrupted:
  assumes "pri > PZERO" "0 \<le> p_sig (k_proc s (curproc s))" "p_sig (k_proc s (curproc s)) < 2 ^ 16" "deliverable s m"
    and "p_addr (k_proc s (curproc s)) = k_uhome s"
  shows "\<exists>s'. sleep e ch pri s = Jump s' \<and> k_u s' = k_u s \<and> k_slpque s' = k_slpque s \<and>
    p_stat (k_proc s' (curproc s)) = SRUN \<and> p_wchan (k_proc s' (curproc s)) = None \<and> (\<exists>n. deliverable s n \<and> deliverable s' n)"
proof -
  let ?p = "curproc s" and ?h = "hash e ch"
  define t where "t = s\<lparr>k_proc := (k_proc s)(?p := (k_proc s ?p)\<lparr>p_stat := SSLEEP, p_wchan := Some ch, p_pri := pri,
    p_link := k_slpque s ?h\<rparr>), k_slpque := (k_slpque s)(?h := Some ?p)\<rparr>"
  have k: "k_u t = k_u s" "p_sig (k_proc t ?p) = p_sig (k_proc s ?p)" "p_flag (k_proc t ?p) = p_flag (k_proc s ?p)"
    "p_addr (k_proc t ?p) = p_addr (k_proc s ?p)" "p_link (k_proc t ?p) = k_slpque s ?h" "k_uhome t = k_uhome s"
    "k_slpque t = (k_slpque s)(?h := Some ?p)"
    by (simp_all add: t_def upd_proc_def)
  have d: "deliverable t j = deliverable s j" for j by (simp add: deliverable_def k)
  obtain n where i: "issig t = Ret n (sig_cleared (p_sig (k_proc t (curproc t)) AND NOT (mask (n - 1))) t)" "n \<noteq> 0" "deliverable t n"
    using issig_deliverable [of t m] assms(2-4) by (auto simp: k d)
  define t1 where "t1 = sig_cleared (p_sig (k_proc s ?p) AND NOT (mask (n - 1))) t"
  define s' where "s' = (let s = upd_proc ?p (\<lambda>r. r\<lparr>p_wchan := None, p_stat := SRUN\<rparr>) t1
    in s\<lparr>k_slpque := (k_slpque s)(?h := p_link (k_proc s ?p))\<rparr>)"
  have "sleep e ch pri s = Jump s'"
    using assms(1,5) i(1,2) k
    by (simp add: sleep_def Let_def run_defs upd_proc_def longjmp_def resume_u_def t1_def s'_def sig_cleared_def flip: t_def)
  moreover have "k_slpque s' = k_slpque s"
    by (auto simp: s'_def t1_def Let_def sig_cleared_def upd_proc_def k fun_eq_iff)
  moreover have "deliverable s' n"
    using i(3) by (auto simp: deliverable_def s'_def t1_def Let_def sig_cleared_def upd_proc_def k bit_simps)
  ultimately show ?thesis using i(3) d
    by (intro exI [of _ s']) (auto simp: s'_def t1_def Let_def sig_cleared_def upd_proc_def k)
qed

text \<open>
  C28: \<open>pause\<close> does not swallow a signal that arrived before it.  With a signal pending that is not
  ignored, the call does not give up the processor: it comes back from the gate with -1 and
  \<open>EINTR\<close>, the process is off the sleep queue, which is as it was, and running, and a signal is
  still pending for the return to the user to deliver.
\<close>

theorem pause_interrupted:
  assumes "u_ar0 (k_u s) R14 = 29" "0 < e_fuel e" "p_addr (k_proc s (curproc s)) = k_uhome s"
    and "0 \<le> p_sig (k_proc s (curproc s))" "p_sig (k_proc s (curproc s)) < 2 ^ 16" "deliverable s m"
  shows "\<exists>s'. syscall e s = sysret e s' \<and> u_ar0 (k_u s') RACC = wval (-1) \<and> u_ar0 (k_u s') R14 = wval EINTR \<and>
    k_slpque s' = k_slpque s \<and> p_stat (k_proc s' (curproc s)) = SRUN \<and> p_wchan (k_proc s' (curproc s)) = None \<and>
    (\<exists>n. deliverable s' n)"
proof -
  let ?t = "call_state 0 s"
  have d: "deliverable ?t j = deliverable s j" for j by (simp add: deliverable_def)
  have "\<exists>s1. sleep e Ch_u PSLEP ?t = Jump s1 \<and> k_u s1 = k_u ?t \<and> k_slpque s1 = k_slpque ?t \<and>
    p_stat (k_proc s1 (curproc ?t)) = SRUN \<and> p_wchan (k_proc s1 (curproc ?t)) = None \<and> (\<exists>n. deliverable ?t n \<and> deliverable s1 n)"
    by (rule sleep_interrupted [where m = m]) (use assms(3-6) d in simp_all)
  then obtain s1 n where s1: "sleep e Ch_u PSLEP ?t = Jump s1" "k_u s1 = k_u ?t" "k_slpque s1 = k_slpque s"
    "p_stat (k_proc s1 (curproc s)) = SRUN" "p_wchan (k_proc s1 (curproc s)) = None" "deliverable s1 n"
    by auto
  have c: "callp e (uint (u_ar0 (k_u s) R14)) = (0, pause e)" by (simp add: assms(1) callp_def sysent_def)
  obtain f where "e_fuel e = Suc f" using assms(2) by (cases "e_fuel e") auto
  then have p: "pause e ?t = Jump s1" using s1(1) by (simp add: pause_def)
  let ?r = "give_result (set_error EINTR s1)"
  have "syscall e s = sysret e ?r" using syscall_jump [OF c p] s1(2) by simp
  moreover have "u_ar0 (k_u ?r) RACC = wval (-1)" "u_ar0 (k_u ?r) R14 = wval EINTR"
    using give_error [of "set_error EINTR s1"] s1(2) by (simp_all add: set_error_def upd_u_def)
  moreover have "deliverable ?r n"
    using s1(6) by (simp add: deliverable_def give_result_def set_ar0_def set_error_def upd_u_def)
  ultimately show ?thesis using s1(3-5) by (intro exI [of _ ?r]) (auto simp: set_error_def upd_u_def)
qed

theorem pause_interrupted_witness:
  "\<exists>s'. syscall env0 (upd_u (\<lambda>u. u\<lparr>u_ar0 := (\<lambda>_. 0)(R14 := 29)\<rparr>) queued_kst) = sysret env0 s' \<and>
     u_ar0 (k_u s') R14 = wval EINTR \<and> (\<exists>n. deliverable s' n)"
proof -
  define s where "s = upd_u (\<lambda>u. u\<lparr>u_ar0 := (\<lambda>_. 0)(R14 := 29)\<rparr>) queued_kst"
  have "u_ar0 (k_u s) R14 = 29" "p_addr (k_proc s (curproc s)) = k_uhome s" "p_sig (k_proc s (curproc s)) = 6" "deliverable s 3"
    by (simp_all add: s_def upd_u_def queued_kst_def kst0_def proc0_def deliverable_def user0_def)
  then show ?thesis unfolding s_def [symmetric]
    using pause_interrupted [of s env0 3] by (auto simp: env0_def)
qed

subsection \<open>Asking a device that is no terminal\<close>

text \<open>
  C31: \<open>gtty\<close> does not tell terminals from other character devices.  On a descriptor of a memory
  device or of a raw disk or drum (majors 1, 3 and 4 of the tables in \<open>conf.c\<close>) the call returns 0 with
  no error, and the buffer the user gave is not written; the library takes this answer for a
  terminal.
\<close>

theorem gtty_accepts_any_device:
  assumes "u_ar0 (k_u s) R14 = 32"
  defines "fd \<equiv> ival (arg_word 2 s 0)"
  assumes "0 \<le> fd" "fd < int NOFILE" "u_ofile (k_u s) (nat fd) = Some fp"
    and "i_mode (k_inode s (f_inode (k_file s fp))) AND IFMT = IFCHR"
    and "major (i_addr (k_inode s (f_inode (k_file s fp))) 0) \<in> {1, 3, 4}"
  shows "\<exists>s'. syscall (v7besm e) s = sysret (v7besm e) s' \<and> u_ar0 (k_u s') RACC = wval 0 \<and> u_ar0 (k_u s') R14 = 0 \<and>
    k_mem s' = k_mem s \<and> k_tty s' = k_tty s"
proof -
  let ?t = "call_state 2 s" and ?u = "tty_args 29704 (call_state 2 s)"
  have c: "callp (v7besm e) (uint (u_ar0 (k_u s) R14)) = (2, gtty (v7besm e))" by (simp add: assms(1) callp_def sysent_def)
  have a: "argi 0 ?u = fd" "argi 1 ?u = 29704"
    by (simp_all add: tty_args_def upd_u_def argi_def call_state_arg fd_def ival_def)
  have "getf fd ?u = Ret (Some fp) ?u" using assms(3-5) by (simp add: getf_def tty_args_def upd_u_def)
  then have "gtty (v7besm e) ?t = Ret () ?u"
    using a assms(6,7)
    by (simp add: gtty_def ioctl_def run_defs is_cdev_def v7besm_def with_tty_def with_cdevsw_def)
       (auto simp: tty_args_def upd_u_def ret_def)
  then have "syscall (v7besm e) s = sysret (v7besm e) (give_result ?u)" by (rule syscall_ret [OF c])
  moreover have "u_ar0 (k_u (give_result ?u)) RACC = wval 0" "u_ar0 (k_u (give_result ?u)) R14 = 0"
    by (simp_all add: give_result_def tty_args_def upd_u_def set_ar0_def)
  ultimately show ?thesis by (intro exI [of _ "give_result ?u"]) (auto simp: tty_args_def upd_u_def)
qed

theorem gtty_accepts_any_device_witness:
  "\<exists>d s'. sureg demo_image = Some d \<and>
     syscall (v7besm env0) (d\<lparr>k_u := (k_u d)\<lparr>u_ar0 := (\<lambda>_. 0)(R14 := 32, R15 := wval 28700), u_ofile := (\<lambda>_. Some 0)\<rparr>,
       k_inode := (\<lambda>_. (k_inode d 0)\<lparr>i_mode := IFCHR, i_addr := (\<lambda>_. 256)\<rparr>)\<rparr>) = sysret (v7besm env0) s' \<and>
     u_ar0 (k_u s') R14 = 0"
proof -
  obtain d where d: "sureg demo_image = Some d" "maps_image 20 40 2 3 1 d" using demo_image_maps by blast
  define s where "s = d\<lparr>k_u := (k_u d)\<lparr>u_ar0 := (\<lambda>_. 0)(R14 := 32, R15 := wval 28700), u_ofile := (\<lambda>_. Some 0)\<rparr>,
       k_inode := (\<lambda>_. (k_inode d 0)\<lparr>i_mode := IFCHR, i_addr := (\<lambda>_. 256)\<rparr>)\<rparr>"
  have "k_mem d = (\<lambda>_. 0)" using d(1)
    by (auto simp: sureg_def demo_image_def kst0_def Let_def split: option.splits prod.splits)
  moreover have "useracc (u_upt (k_u d)) 28699 1"
    using demo_page [OF d(2), of 28] by (simp add: useracc_def drop_bit_eq_div page_of_def)
  moreover have "(28699 :: int) AND 32767 = 28699" by simp
  ultimately have "arg_word 2 s 0 = 0"
    by (simp add: arg_word_def s_def Let_def fuword_def ptrword_def ival_wval)
  moreover have "u_ar0 (k_u s) R14 = 32" "u_ofile (k_u s) (nat 0) = Some 0"
    "i_mode (k_inode s (f_inode (k_file s 0))) AND IFMT = IFCHR" "major (i_addr (k_inode s (f_inode (k_file s 0))) 0) = 1"
    by (simp_all add: s_def major_def)
  ultimately obtain s' where "syscall (v7besm env0) s = sysret (v7besm env0) s'" "u_ar0 (k_u s') R14 = 0"
    using gtty_accepts_any_device [of s 0 env0] by (auto simp: ival_def)
  then show ?thesis using d(1) unfolding s_def by blast
qed

end
