(* ===== verification/Cstring.thy ===== *)
theory Cstring
  imports Prelude "HOL-Library.Sublist"
begin

section \<open>Strings and memory blocks (lib/libc/gen/str*.c, mem*.c, swab.c)\<close>

text \<open>
  The memory of a program as the library's \<open>char *\<close> sees it: a function from byte addresses to bytes.  A
  null result is \<^const>\<open>None\<close>, in an outer \<^const>\<open>Some\<close> where the routine walks to a terminating zero that need
  not be there; without one it does not return.
\<close>

type_synonym cmem = "int \<Rightarrow> int"

subsection \<open>Routines on strings\<close>

partial_function (option) strlen_loop :: "cmem \<Rightarrow> int \<Rightarrow> int option" where
  "strlen_loop M p = (if M p \<noteq> 0 then strlen_loop M (p + 1) else Some p)"

definition strlen :: "cmem \<Rightarrow> int \<Rightarrow> int option" where
  "strlen M s = map_option (\<lambda>p. p - s) (strlen_loop M s)"

partial_function (option) strcmp :: "cmem \<Rightarrow> int \<Rightarrow> int \<Rightarrow> int option" where
  "strcmp M a b = (if M a \<noteq> 0 \<and> M a = M b then strcmp M (a + 1) (b + 1) else Some (M a - M b))"

fun strncmp :: "cmem \<Rightarrow> int \<Rightarrow> int \<Rightarrow> nat \<Rightarrow> int" where
  "strncmp M a b 0 = 0"
| "strncmp M a b (Suc n) =
     (if M a \<noteq> M b then M a - M b else if M a = 0 then 0 else strncmp M (a + 1) (b + 1) n)"

partial_function (option) strcpy_loop :: "cmem \<Rightarrow> int \<Rightarrow> int \<Rightarrow> cmem option" where
  "strcpy_loop M d s =
     (if M s \<noteq> 0 then strcpy_loop (M(d := M s)) (d + 1) (s + 1) else Some (M(d := 0)))"

definition strcpy :: "cmem \<Rightarrow> int \<Rightarrow> int \<Rightarrow> (int \<times> cmem) option" where
  "strcpy M dest src = map_option (\<lambda>M'. (dest, M')) (strcpy_loop M dest src)"

fun zero_fill :: "cmem \<Rightarrow> int \<Rightarrow> nat \<Rightarrow> cmem" where
  "zero_fill M d 0 = M"
| "zero_fill M d (Suc n) = zero_fill (M(d := 0)) (d + 1) n"

fun strncpy_loop :: "cmem \<Rightarrow> int \<Rightarrow> int \<Rightarrow> nat \<Rightarrow> cmem" where
  "strncpy_loop M d s 0 = M"
| "strncpy_loop M d s (Suc n) =
     (if M s \<noteq> 0 then strncpy_loop (M(d := M s)) (d + 1) (s + 1) n else zero_fill M d (Suc n))"

definition strncpy :: "cmem \<Rightarrow> int \<Rightarrow> int \<Rightarrow> nat \<Rightarrow> int \<times> cmem" where
  "strncpy M dest src n = (dest, strncpy_loop M dest src n)"

definition strcat :: "cmem \<Rightarrow> int \<Rightarrow> int \<Rightarrow> (int \<times> cmem) option" where
  "strcat M dest src =
     (case strlen_loop M dest of
        None \<Rightarrow> None
      | Some d \<Rightarrow> map_option (\<lambda>M'. (dest, M')) (strcpy_loop M d src))"

fun strncat_loop :: "cmem \<Rightarrow> int \<Rightarrow> int \<Rightarrow> nat \<Rightarrow> cmem" where
  "strncat_loop M d s 0 = M(d := 0)"
| "strncat_loop M d s (Suc n) =
     (if M s \<noteq> 0 then strncat_loop (M(d := M s)) (d + 1) (s + 1) n else M(d := 0))"

definition strncat :: "cmem \<Rightarrow> int \<Rightarrow> int \<Rightarrow> nat \<Rightarrow> (int \<times> cmem) option" where
  "strncat M dest src n = map_option (\<lambda>d. (dest, strncat_loop M d src n)) (strlen_loop M dest)"

partial_function (option) strchr_loop :: "cmem \<Rightarrow> int \<Rightarrow> int \<Rightarrow> int option option" where
  "strchr_loop M p ch =
     (if M p = ch then Some (Some p) else if M p = 0 then Some None else strchr_loop M (p + 1) ch)"

definition strchr :: "cmem \<Rightarrow> int \<Rightarrow> int \<Rightarrow> int option option" where
  "strchr M s c = strchr_loop M s (c mod 256)"

partial_function (option) strrchr_loop :: "cmem \<Rightarrow> int \<Rightarrow> int \<Rightarrow> int option \<Rightarrow> int option option" where
  "strrchr_loop M p ch hit =
     (let hit' = (if M p = ch then Some p else hit)
      in if M p = 0 then Some hit' else strrchr_loop M (p + 1) ch hit')"

definition strrchr :: "cmem \<Rightarrow> int \<Rightarrow> int \<Rightarrow> int option option" where
  "strrchr M s c = strrchr_loop M s (c mod 256) None"

text \<open>The inner loop of \<open>strstr\<close>: does the needle at \<open>b\<close> end where the strings part?\<close>

partial_function (option) matches_at :: "cmem \<Rightarrow> int \<Rightarrow> int \<Rightarrow> bool option" where
  "matches_at M a b =
     (if M a \<noteq> 0 \<and> M b \<noteq> 0 \<and> M a = M b then matches_at M (a + 1) (b + 1) else Some (M b = 0))"

partial_function (option) strstr_loop :: "cmem \<Rightarrow> int \<Rightarrow> int \<Rightarrow> int option option" where
  "strstr_loop M h needle =
     (if M h \<noteq> 0 then
        Option.bind (matches_at M h needle) (\<lambda>m. if m then Some (Some h) else strstr_loop M (h + 1) needle)
      else Some None)"

definition strstr :: "cmem \<Rightarrow> int \<Rightarrow> int \<Rightarrow> int option option" where
  "strstr M haystack needle = (if M needle = 0 then Some (Some haystack) else strstr_loop M haystack needle)"

text \<open>\<open>strtok\<close>: the pointer \<open>save\<close> it keeps is passed in and out.\<close>

definition is_delim :: "cmem \<Rightarrow> int \<Rightarrow> int \<Rightarrow> bool option" where
  "is_delim M delim c = map_option (\<lambda>r. r \<noteq> None) (strchr M delim c)"

partial_function (option) skip_delims :: "cmem \<Rightarrow> int \<Rightarrow> int \<Rightarrow> int option" where
  "skip_delims M p delim =
     (if M p = 0 then Some p
      else Option.bind (is_delim M delim (M p)) (\<lambda>d. if d then skip_delims M (p + 1) delim else Some p))"

partial_function (option) token_end :: "cmem \<Rightarrow> int \<Rightarrow> int \<Rightarrow> int option" where
  "token_end M p delim =
     (if M p = 0 then Some p
      else Option.bind (is_delim M delim (M p)) (\<lambda>d. if d then Some p else token_end M (p + 1) delim))"

definition strtok :: "cmem \<Rightarrow> int option \<Rightarrow> int \<Rightarrow> int option \<Rightarrow> (int option \<times> int option \<times> cmem) option" where
  "strtok M str delim save =
     (case (case str of Some p \<Rightarrow> Some p | None \<Rightarrow> save) of
        None \<Rightarrow> Some (None, save, M)
      | Some p \<Rightarrow>
          Option.bind (skip_delims M p delim) (\<lambda>tok.
            if M tok = 0 then Some (None, None, M)
            else Option.bind (token_end M tok delim) (\<lambda>q.
              if M q = 0 then Some (Some tok, None, M)
              else Some (Some tok, Some (q + 1), M(q := 0)))))"

subsection \<open>Routines on blocks\<close>

fun memchr_loop :: "cmem \<Rightarrow> int \<Rightarrow> int \<Rightarrow> nat \<Rightarrow> int option" where
  "memchr_loop M p ch 0 = None"
| "memchr_loop M p ch (Suc n) = (if M p = ch then Some p else memchr_loop M (p + 1) ch n)"

definition memchr :: "cmem \<Rightarrow> int \<Rightarrow> int \<Rightarrow> nat \<Rightarrow> int option" where
  "memchr M s c n = memchr_loop M s (c mod 256) n"

fun memcmp :: "cmem \<Rightarrow> int \<Rightarrow> int \<Rightarrow> nat \<Rightarrow> int" where
  "memcmp M a b 0 = 0"
| "memcmp M a b (Suc n) = (if M a \<noteq> M b then M a - M b else memcmp M (a + 1) (b + 1) n)"

fun memcpy_loop :: "cmem \<Rightarrow> int \<Rightarrow> int \<Rightarrow> nat \<Rightarrow> cmem" where
  "memcpy_loop M d s 0 = M"
| "memcpy_loop M d s (Suc n) = memcpy_loop (M(d := M s)) (d + 1) (s + 1) n"

definition memcpy :: "cmem \<Rightarrow> int \<Rightarrow> int \<Rightarrow> nat \<Rightarrow> int \<times> cmem" where
  "memcpy M dest src n = (dest, memcpy_loop M dest src n)"

text \<open>The two loops of \<open>memmove\<close>; the first counts \<open>n\<close> bytes from the index \<open>i\<close> up.\<close>

fun memmove_up :: "cmem \<Rightarrow> int \<Rightarrow> int \<Rightarrow> int \<Rightarrow> nat \<Rightarrow> cmem" where
  "memmove_up M d s i 0 = M"
| "memmove_up M d s i (Suc n) = memmove_up (M(d + i := M (s + i))) d s (i + 1) n"

fun memmove_down :: "cmem \<Rightarrow> int \<Rightarrow> int \<Rightarrow> nat \<Rightarrow> cmem" where
  "memmove_down M d s 0 = M"
| "memmove_down M d s (Suc i) = memmove_down (M(d + int i := M (s + int i))) d s i"

definition memmove :: "cmem \<Rightarrow> int \<Rightarrow> int \<Rightarrow> nat \<Rightarrow> int \<times> cmem" where
  "memmove M dest src n =
     (dest, if dest < src then memmove_up M dest src 0 n else memmove_down M dest src n)"

fun memset_loop :: "cmem \<Rightarrow> int \<Rightarrow> int \<Rightarrow> nat \<Rightarrow> cmem" where
  "memset_loop M p b 0 = M"
| "memset_loop M p b (Suc n) = memset_loop (M(p := b)) (p + 1) b n"

definition memset :: "cmem \<Rightarrow> int \<Rightarrow> int \<Rightarrow> nat \<Rightarrow> int \<times> cmem" where
  "memset M s c n = (s, memset_loop M s (c mod 256) n)"

fun swab_loop :: "cmem \<Rightarrow> int \<Rightarrow> int \<Rightarrow> nat \<Rightarrow> cmem" where
  "swab_loop M from to 0 = M"
| "swab_loop M from to (Suc n) =
     (let a = M from; b = M (from + 1)
      in swab_loop (M(to := b, to + 1 := a)) (from + 2) (to + 2) n)"

text \<open>\<open>n /= 2\<close> rounds towards zero, so a negative count does nothing.\<close>

definition swab :: "cmem \<Rightarrow> int \<Rightarrow> int \<Rightarrow> int \<Rightarrow> cmem" where
  "swab M from to n = swab_loop M from to (nat (n div 2))"

subsection \<open>Strings in memory\<close>

fun cstr :: "cmem \<Rightarrow> int \<Rightarrow> int list \<Rightarrow> bool" where
  "cstr M p [] \<longleftrightarrow> M p = 0"
| "cstr M p (c # cs) \<longleftrightarrow> M p = c \<and> c \<noteq> 0 \<and> cstr M (p + 1) cs"

lemma cstr_cong: "(\<And>a. p \<le> a \<Longrightarrow> a \<le> p + int (length cs) \<Longrightarrow> M' a = M a) \<Longrightarrow> cstr M' p cs = cstr M p cs"
proof (induction cs arbitrary: p)
  case (Cons c cs)
  have "cstr M' (p + 1) cs = cstr M (p + 1) cs" by (rule Cons.IH) (use Cons.prems in auto)
  then show ?case using Cons.prems [of p] by simp
qed simp

lemma strlen_loop_ok: "cstr M p cs \<Longrightarrow> strlen_loop M p = Some (p + int (length cs))"
  by (induction cs arbitrary: p) (subst strlen_loop.simps; simp)+

lemma strlen_ok: "cstr M s cs \<Longrightarrow> strlen M s = Some (int (length cs))"
  by (simp add: strlen_def strlen_loop_ok)

lemma strcmp_ok:
  "cstr M a xs \<Longrightarrow> cstr M b ys \<Longrightarrow> \<forall>c\<in>set xs \<union> set ys. 0 \<le> c \<Longrightarrow>
   \<exists>r. strcmp M a b = Some r \<and> (r = 0 \<longleftrightarrow> xs = ys) \<and> (r < 0 \<longleftrightarrow> (xs, ys) \<in> lexord {(x, y). x < y})"
proof (induction xs arbitrary: a b ys)
  case Nil
  then show ?case by (subst strcmp.simps) (cases ys; force)
next
  case (Cons x xs)
  show ?case
  proof (cases ys)
    case Nil
    then show ?thesis using Cons.prems by (subst strcmp.simps) auto
  next
    case (Cons y ys')
    show ?thesis
    proof (cases "x = y")
      case True
      have "strcmp M a b = strcmp M (a + 1) (b + 1)" using Cons.prems(1,2) True \<open>ys = _\<close> by (subst strcmp.simps) simp
      moreover have "\<exists>r. strcmp M (a + 1) (b + 1) = Some r \<and> (r = 0 \<longleftrightarrow> xs = ys') \<and> (r < 0 \<longleftrightarrow> (xs, ys') \<in> lexord {(x, y). x < y})"
        by (rule Cons.IH) (use Cons.prems \<open>ys = _\<close> in auto)
      ultimately show ?thesis using True \<open>ys = _\<close> by simp
    next
      case False
      then show ?thesis using Cons.prems \<open>ys = _\<close> by (subst strcmp.simps) auto
    qed
  qed
qed

lemma strcpy_loop_ok:
  "cstr M s cs \<Longrightarrow> d + int (length cs) < s \<or> s + int (length cs) < d \<Longrightarrow>
   \<exists>M'. strcpy_loop M d s = Some M' \<and> cstr M' d cs \<and> (\<forall>a. a < d \<or> d + int (length cs) < a \<longrightarrow> M' a = M a)"
proof (induction cs arbitrary: M d s)
  case Nil
  then show ?case by (subst strcpy_loop.simps) auto
next
  case (Cons c cs)
  let ?M = "M(d := c)"
  have "cstr ?M (s + 1) cs = cstr M (s + 1) cs" using Cons.prems(2) by (intro cstr_cong) auto
  then have h: "cstr ?M (s + 1) cs" "d + 1 + int (length cs) < s + 1 \<or> s + 1 + int (length cs) < d + 1"
    using Cons.prems by auto
  obtain M' where M': "strcpy_loop ?M (d + 1) (s + 1) = Some M'" "cstr M' (d + 1) cs"
    "\<forall>a. a < d + 1 \<or> d + 1 + int (length cs) < a \<longrightarrow> M' a = ?M a"
    using Cons.IH [OF h] by blast
  have "strcpy_loop M d s = Some M'" using Cons.prems(1) M'(1) by (subst strcpy_loop.simps) simp
  then show ?case using M'(2,3) Cons.prems(1) by (intro exI [of _ M']) auto
qed

lemma strcpy_ok:
  assumes "cstr M src cs" "dest + int (length cs) < src \<or> src + int (length cs) < dest"
  shows "\<exists>M'. strcpy M dest src = Some (dest, M') \<and> cstr M' dest cs \<and>
    (\<forall>a. a < dest \<or> dest + int (length cs) < a \<longrightarrow> M' a = M a)"
  using strcpy_loop_ok [OF assms] by (auto simp: strcpy_def)

lemma cstr_append: "cstr M p (xs @ ys) \<longleftrightarrow> (\<forall>i < length xs. M (p + int i) = xs ! i) \<and> 0 \<notin> set xs \<and> cstr M (p + int (length xs)) ys"
proof (induction xs arbitrary: p)
  case (Cons x xs)
  have "(\<forall>i < Suc (length xs). M (p + int i) = (x # xs) ! i) \<longleftrightarrow> M p = x \<and> (\<forall>i < length xs. M (p + 1 + int i) = xs ! i)"
    by (auto simp: less_Suc_eq_0_disj algebra_simps)
  then show ?case using Cons.IH [of "p + 1"] by (auto simp: algebra_simps)
qed simp

lemma strcat_ok:
  assumes "cstr M dest xs" "cstr M src ys" "dest + int (length xs + length ys) < src \<or> src + int (length ys) < dest"
  shows "\<exists>M'. strcat M dest src = Some (dest, M') \<and> cstr M' dest (xs @ ys) \<and>
    (\<forall>a. a < dest \<or> dest + int (length xs + length ys) < a \<longrightarrow> M' a = M a)"
proof -
  let ?d = "dest + int (length xs)"
  have "cstr M dest (xs @ [])" using assms(1) by simp
  then have x: "\<forall>i < length xs. M (dest + int i) = xs ! i" "0 \<notin> set xs" unfolding cstr_append by blast+
  obtain M' where M': "strcpy_loop M ?d src = Some M'" "cstr M' ?d ys" "\<forall>a. a < ?d \<or> ?d + int (length ys) < a \<longrightarrow> M' a = M a"
    using strcpy_loop_ok [OF assms(2), of ?d] assms(3) by force
  then have "cstr M' dest (xs @ ys)" using x unfolding cstr_append by auto
  then show ?thesis using M' strlen_loop_ok [OF assms(1)] by (auto simp: strcat_def)
qed

subsection \<open>Searching\<close>

lemma strchr_loop_ok:
  "cstr M p cs \<Longrightarrow> strchr_loop M p ch = Some
     (if ch = 0 then Some (p + int (length cs))
      else if ch \<in> set cs then Some (p + int (length (takeWhile (\<lambda>c. c \<noteq> ch) cs))) else None)"
proof (induction cs arbitrary: p)
  case Nil
  then show ?case by (subst strchr_loop.simps) simp
next
  case (Cons c cs)
  then show ?case by (subst strchr_loop.simps) (auto simp: algebra_simps)
qed

lemma strchr_ok:
  "cstr M s cs \<Longrightarrow> 0 < c \<Longrightarrow> c < 256 \<Longrightarrow>
   strchr M s c = Some (if c \<in> set cs then Some (s + int (length (takeWhile (\<lambda>x. x \<noteq> c) cs))) else None)"
  by (simp add: strchr_def strchr_loop_ok)

lemma strrchr_loop_ok:
  "cstr M p (us @ ch # vs) \<Longrightarrow> ch \<notin> set vs \<Longrightarrow> strrchr_loop M p ch hit = Some (Some (p + int (length us)))"
  "cstr M p vs \<Longrightarrow> ch \<notin> set vs \<Longrightarrow> ch \<noteq> 0 \<Longrightarrow> strrchr_loop M p ch hit = Some hit"
proof -
  show n: "cstr M p vs \<Longrightarrow> ch \<notin> set vs \<Longrightarrow> ch \<noteq> 0 \<Longrightarrow> strrchr_loop M p ch hit = Some hit" for p hit
    by (induction vs arbitrary: p) (subst strrchr_loop.simps; simp add: Let_def)+
  show "cstr M p (us @ ch # vs) \<Longrightarrow> ch \<notin> set vs \<Longrightarrow> strrchr_loop M p ch hit = Some (Some (p + int (length us)))"
  proof (induction us arbitrary: p hit)
    case Nil
    then show ?case using n [of "p + 1" "Some p"] by (subst strrchr_loop.simps) (simp add: Let_def)
  next
    case (Cons u us)
    then show ?case by (subst strrchr_loop.simps) (simp add: Let_def algebra_simps)
  qed
qed

lemma strrchr_ok:
  assumes "cstr M s (us @ c # vs)" "c \<notin> set vs" "0 < c" "c < 256"
  shows "strrchr M s c = Some (Some (s + int (length us)))"
  using strrchr_loop_ok(1) [OF assms(1,2)] assms(3,4) by (simp add: strrchr_def)

lemma matches_at_ok: "cstr M a xs \<Longrightarrow> cstr M b ys \<Longrightarrow> matches_at M a b = Some (prefix ys xs)"
proof (induction ys arbitrary: a b xs)
  case Nil
  then show ?case by (subst matches_at.simps) simp
next
  case (Cons y ys)
  then show ?case by (subst matches_at.simps, cases xs) auto
qed

text \<open>The first place of the haystack where the needle starts.\<close>

lemma strstr_loop_ok:
  "cstr M h xs \<Longrightarrow> cstr M b ys \<Longrightarrow> ys \<noteq> [] \<Longrightarrow>
   \<exists>r. strstr_loop M h b = Some r \<and>
     (case r of None \<Rightarrow> \<not> sublist ys xs
      | Some q \<Rightarrow> \<exists>us vs. xs = us @ ys @ vs \<and> q = h + int (length us) \<and> (\<forall>us' vs'. xs = us' @ ys @ vs' \<longrightarrow> length us \<le> length us'))"
proof (induction xs arbitrary: h)
  case Nil
  then show ?case by (subst strstr_loop.simps) simp
next
  case (Cons x xs)
  have m: "matches_at M h b = Some (prefix ys (x # xs))" using matches_at_ok [OF Cons.prems(1,2)] .
  show ?case
  proof (cases "prefix ys (x # xs)")
    case True
    then obtain vs where "x # xs = [] @ ys @ vs" by (auto simp: prefix_def)
    moreover have "strstr_loop M h b = Some (Some h)" using m True Cons.prems(1) by (subst strstr_loop.simps) simp
    ultimately show ?thesis by (intro exI [of _ "Some h"]) simp
  next
    case False
    have l: "strstr_loop M h b = strstr_loop M (h + 1) b" using m False Cons.prems(1) by (subst strstr_loop.simps) simp
    obtain r where r: "strstr_loop M (h + 1) b = Some r"
      "case r of None \<Rightarrow> \<not> sublist ys xs
       | Some q \<Rightarrow> \<exists>us vs. xs = us @ ys @ vs \<and> q = h + 1 + int (length us) \<and> (\<forall>us' vs'. xs = us' @ ys @ vs' \<longrightarrow> length us \<le> length us')"
    proof -
      have "cstr M (h + 1) xs" using Cons.prems(1) by simp
      from Cons.IH [OF this Cons.prems(2,3)] that show thesis by blast
    qed
    have tl: "\<exists>us''. us' = x # us'' \<and> xs = us'' @ ys @ vs'" if "x # xs = us' @ ys @ vs'" for us' vs'
    proof (cases us')
      case Nil
      then have "prefix ys (x # xs)" unfolding that by simp
      then show ?thesis using False by simp
    next
      case (Cons y us'')
      then show ?thesis using that by simp
    qed
    show ?thesis
    proof (cases r)
      case None
      then show ?thesis using l r False by (auto simp: sublist_Cons_right)
    next
      case (Some q)
      then obtain us vs where u: "xs = us @ ys @ vs" "q = h + 1 + int (length us)"
        "\<forall>us' vs'. xs = us' @ ys @ vs' \<longrightarrow> length us \<le> length us'" using r(2) by auto
      have "length (x # us) \<le> length us'" if "x # xs = us' @ ys @ vs'" for us' vs' using tl [OF that] u(3) by auto
      moreover have "x # xs = (x # us) @ ys @ vs" "q = h + int (length (x # us))" using u(1,2) by simp_all
      ultimately have "\<exists>us vs. x # xs = us @ ys @ vs \<and> q = h + int (length us) \<and>
          (\<forall>us' vs'. x # xs = us' @ ys @ vs' \<longrightarrow> length us \<le> length us')" by blast
      then have C: "case Some q of None \<Rightarrow> \<not> sublist ys (x # xs) | Some q \<Rightarrow> \<exists>us vs. x # xs = us @ ys @ vs \<and> q = h + int (length us) \<and>
          (\<forall>us' vs'. x # xs = us' @ ys @ vs' \<longrightarrow> length us \<le> length us')" unfolding option.case .
      show ?thesis by (rule exI [of _ "Some q"], rule conjI) (simp only: l r(1) Some, rule C)
    qed
  qed
qed

lemma strstr_ok:
  assumes "cstr M h xs" "cstr M b ys"
  shows "\<exists>r. strstr M h b = Some r \<and>
     (case r of None \<Rightarrow> \<not> sublist ys xs
      | Some q \<Rightarrow> \<exists>us vs. xs = us @ ys @ vs \<and> q = h + int (length us) \<and> (\<forall>us' vs'. xs = us' @ ys @ vs' \<longrightarrow> length us \<le> length us'))"
proof (cases ys)
  case Nil
  then show ?thesis using assms(2) by (intro exI [of _ "Some h"]) (simp add: strstr_def)
next
  case (Cons y ys')
  then show ?thesis using strstr_loop_ok [OF assms] assms(2) by (simp add: strstr_def)
qed

subsection \<open>Tokens\<close>

lemma is_delim_ok: "cstr M delim ds \<Longrightarrow> 0 < c \<Longrightarrow> c < 256 \<Longrightarrow> is_delim M delim c = Some (c \<in> set ds)"
  by (simp add: is_delim_def strchr_ok)

lemma skip_delims_ok:
  "cstr M delim ds \<Longrightarrow> cstr M p cs \<Longrightarrow> \<forall>c\<in>set cs. 0 < c \<and> c < 256 \<Longrightarrow>
   skip_delims M p delim = Some (p + int (length (takeWhile (\<lambda>c. c \<in> set ds) cs)))"
proof (induction cs arbitrary: p)
  case Nil
  then show ?case by (subst skip_delims.simps) simp
next
  case (Cons c cs)
  then show ?case by (subst skip_delims.simps) (simp add: is_delim_ok algebra_simps)
qed

lemma token_end_ok:
  "cstr M delim ds \<Longrightarrow> cstr M p cs \<Longrightarrow> \<forall>c\<in>set cs. 0 < c \<and> c < 256 \<Longrightarrow>
   token_end M p delim = Some (p + int (length (takeWhile (\<lambda>c. c \<notin> set ds) cs)))"
proof (induction cs arbitrary: p)
  case Nil
  then show ?case by (subst token_end.simps) simp
next
  case (Cons c cs)
  then show ?case by (subst token_end.simps) (simp add: is_delim_ok algebra_simps)
qed

text \<open>One call: the text is delimiters, a token and a rest, which is empty or starts with a delimiter.\<close>

lemma strtok_token:
  assumes "cstr M delim ds" "cstr M p (xs @ tok @ d # rest)" "\<forall>c\<in>set (xs @ tok @ d # rest). 0 < c \<and> c < 256"
    and "set xs \<subseteq> set ds" "set tok \<inter> set ds = {}" "tok \<noteq> []" "d \<in> set ds"
  shows "\<exists>M'. strtok M (Some p) delim save = Some (Some (p + int (length xs)), Some (p + int (length (xs @ tok)) + 1), M') \<and>
    cstr M' (p + int (length xs)) tok \<and> cstr M' (p + int (length (xs @ tok)) + 1) rest \<and>
    (\<forall>a. a \<noteq> p + int (length (xs @ tok)) \<longrightarrow> M' a = M a)"
proof -
  let ?t = "p + int (length xs)" and ?q = "p + int (length xs) + int (length tok)"
  obtain c tok' where tok: "tok = c # tok'" using assms(6) by (cases tok) auto
  have "takeWhile (\<lambda>c. c \<in> set ds) (xs @ tok @ d # rest) = xs" using assms(4,5) tok by (subst takeWhile_append2) auto
  then have s: "skip_delims M p delim = Some ?t" using skip_delims_ok [OF assms(1,2,3)] by simp
  have ct: "cstr M ?t (tok @ d # rest)" using assms(2) by (simp add: cstr_append)
  have "takeWhile (\<lambda>c. c \<notin> set ds) (tok @ d # rest) = tok" using assms(5,7) by (subst takeWhile_append2) auto
  then have e: "token_end M ?t delim = Some ?q" using token_end_ok [OF assms(1) ct] assms(3) by simp
  have k: "M ?t \<noteq> 0" "M ?q \<noteq> 0" "cstr M (?q + 1) rest" "\<forall>i < length tok. M (?t + int i) = tok ! i" "0 \<notin> set tok"
    using ct unfolding cstr_append by (simp_all add: tok) (use ct tok in auto)
  have "cstr (M(?q := 0)) (?q + 1) rest = cstr M (?q + 1) rest" by (rule cstr_cong) auto
  moreover have "cstr (M(?q := 0)) ?t (tok @ [])" unfolding cstr_append using k(4,5) by auto
  ultimately show ?thesis using s e k by (intro exI [of _ "M(?q := 0)"]) (simp add: strtok_def add.assoc)
qed

lemma strtok_last:
  assumes "cstr M delim ds" "cstr M p (xs @ tok)" "\<forall>c\<in>set (xs @ tok). 0 < c \<and> c < 256"
    and "set xs \<subseteq> set ds" "set tok \<inter> set ds = {}"
  shows "strtok M (Some p) delim save = Some (if tok = [] then None else Some (p + int (length xs)), None, M)"
proof -
  let ?t = "p + int (length xs)"
  have "takeWhile (\<lambda>c. c \<in> set ds) tok = []" using assms(5) by (cases tok) auto
  then have "takeWhile (\<lambda>c. c \<in> set ds) (xs @ tok) = xs" using assms(4) by (subst takeWhile_append2) auto
  then have s: "skip_delims M p delim = Some ?t" using skip_delims_ok [OF assms(1,2,3)] by simp
  have ct: "cstr M ?t tok" using assms(2) by (simp add: cstr_append)
  have tw: "takeWhile (\<lambda>c. c \<notin> set ds) tok = tok" using assms(5) by (auto simp: takeWhile_eq_all_conv)
  have e: "token_end M ?t delim = Some (?t + int (length tok))"
    using token_end_ok [OF assms(1) ct] assms(3) unfolding tw by simp
  have "cstr M ?t (tok @ [])" using ct by simp
  then have "M (?t + int (length tok)) = 0" unfolding cstr_append by simp
  then show ?thesis using s e ct by (cases tok) (simp_all add: strtok_def)
qed

subsection \<open>Blocks\<close>

text \<open>\<open>n\<close> bytes of \<open>M\<close> from \<open>src\<close> appear at \<open>dest\<close>; the rest is as in \<open>M\<close>.\<close>

definition blk_moved :: "cmem \<Rightarrow> cmem \<Rightarrow> int \<Rightarrow> int \<Rightarrow> int \<Rightarrow> bool" where
  "blk_moved M' M dest src n \<longleftrightarrow> (\<forall>a. M' a = (if dest \<le> a \<and> a < dest + n then M (src + (a - dest)) else M a))"

lemma memmove_up_ok: "dest < src \<Longrightarrow> memmove_up M dest src i n a =
  (if dest + i \<le> a \<and> a < dest + i + int n then M (src + (a - dest)) else M a)"
proof (induction n arbitrary: M i)
  case (Suc n)
  have "memmove_up M dest src i (Suc n) a = memmove_up (M(dest + i := M (src + i))) dest src (i + 1) n a" by simp
  also have "\<dots> = (if dest + (i + 1) \<le> a \<and> a < dest + (i + 1) + int n then (M(dest + i := M (src + i))) (src + (a - dest))
      else (M(dest + i := M (src + i))) a)"
    by (rule Suc.IH [OF Suc.prems])
  finally show ?case using Suc.prems by (cases "a = dest + i") auto
qed auto

lemma memmove_down_ok: "src \<le> dest \<Longrightarrow> memmove_down M dest src n a =
  (if dest \<le> a \<and> a < dest + int n then M (src + (a - dest)) else M a)"
proof (induction n arbitrary: M)
  case (Suc n)
  have "memmove_down M dest src (Suc n) a = memmove_down (M(dest + int n := M (src + int n))) dest src n a" by simp
  also have "\<dots> = (if dest \<le> a \<and> a < dest + int n then (M(dest + int n := M (src + int n))) (src + (a - dest))
      else (M(dest + int n := M (src + int n))) a)"
    by (rule Suc.IH [OF Suc.prems])
  finally show ?case using Suc.prems by (cases "a = dest + int n") auto
qed auto

lemma memcpy_loop_ok: "d \<le> s \<or> s + int n \<le> d \<Longrightarrow> memcpy_loop M d s n a =
  (if d \<le> a \<and> a < d + int n then M (s + (a - d)) else M a)"
proof (induction n arbitrary: M d s)
  case (Suc n)
  have "memcpy_loop M d s (Suc n) a = memcpy_loop (M(d := M s)) (d + 1) (s + 1) n a" by simp
  also have "\<dots> = (if d + 1 \<le> a \<and> a < d + 1 + int n then (M(d := M s)) (s + 1 + (a - (d + 1))) else (M(d := M s)) a)"
    by (rule Suc.IH) (use Suc.prems in auto)
  finally show ?case using Suc.prems by (cases "a = d") auto
qed auto

lemma memcpy_ok: "dest \<le> src \<or> src + int n \<le> dest \<Longrightarrow> \<exists>M'. memcpy M dest src n = (dest, M') \<and> blk_moved M' M dest src (int n)"
  by (simp add: memcpy_def blk_moved_def memcpy_loop_ok)

lemma memset_loop_ok: "memset_loop M p b n a = (if p \<le> a \<and> a < p + int n then b else M a)"
proof (induction n arbitrary: M p)
  case (Suc n)
  have "memset_loop M p b (Suc n) a = memset_loop (M(p := b)) (p + 1) b n a" by simp
  also have "\<dots> = (if p + 1 \<le> a \<and> a < p + 1 + int n then b else (M(p := b)) a)" by (rule Suc.IH)
  finally show ?case by (cases "a = p") auto
qed auto

lemma memset_ok: "memset M s c n = (s, \<lambda>a. if s \<le> a \<and> a < s + int n then c mod 256 else M a)"
  by (simp add: memset_def memset_loop_ok fun_eq_iff)

lemma memcmp_ok: "memcmp M a b n = 0 \<longleftrightarrow> (\<forall>i < n. M (a + int i) = M (b + int i))"
proof (induction n arbitrary: a b)
  case (Suc n)
  have "(\<forall>i < Suc n. M (a + int i) = M (b + int i)) \<longleftrightarrow> M a = M b \<and> (\<forall>i < n. M (a + 1 + int i) = M (b + 1 + int i))"
    by (auto simp: less_Suc_eq_0_disj algebra_simps)
  then show ?case using Suc.IH by simp
qed simp

lemma memchr_ok:
  "memchr M s c n = None \<Longrightarrow> i < n \<Longrightarrow> M (s + int i) \<noteq> c mod 256"
  "memchr M s c n = Some q \<Longrightarrow> \<exists>i < n. q = s + int i \<and> M q = c mod 256 \<and> (\<forall>j < i. M (s + int j) \<noteq> c mod 256)"
proof -
  have "memchr_loop M p ch n = None \<Longrightarrow> i < n \<Longrightarrow> M (p + int i) \<noteq> ch" for p ch
  proof (induction n arbitrary: p i)
    case (Suc n)
    show ?case using Suc.IH [of "p + 1" "i - 1"] Suc.prems by (cases i) (auto simp: algebra_simps split: if_splits)
  qed simp
  then show "memchr M s c n = None \<Longrightarrow> i < n \<Longrightarrow> M (s + int i) \<noteq> c mod 256" by (simp add: memchr_def)
  have "memchr_loop M p ch n = Some q \<Longrightarrow> \<exists>i < n. q = p + int i \<and> M q = ch \<and> (\<forall>j < i. M (p + int j) \<noteq> ch)" for p ch
  proof (induction n arbitrary: p)
    case (Suc n)
    show ?case
    proof (cases "M p = ch")
      case True
      then show ?thesis using Suc.prems by (intro exI [of _ 0]) simp
    next
      case False
      then obtain i where i: "i < n" "q = p + 1 + int i" "M q = ch" "\<forall>j < i. M (p + 1 + int j) \<noteq> ch"
        using Suc.IH [of "p + 1"] Suc.prems by auto
      have "M (p + int j) \<noteq> ch" if "j < Suc i" for j
        using that False i(4) by (cases j) (auto simp: algebra_simps)
      then show ?thesis using i by (intro exI [of _ "Suc i"]) auto
    qed
  qed simp
  then show "memchr M s c n = Some q \<Longrightarrow> \<exists>i < n. q = s + int i \<and> M q = c mod 256 \<and> (\<forall>j < i. M (s + int j) \<noteq> c mod 256)"
    by (simp add: memchr_def)
qed

lemma swab_ok:
  assumes "to = from \<or> to + int (2 * n) \<le> from \<or> from + int (2 * n) \<le> to"
  shows "swab_loop M from to n a = (if to \<le> a \<and> a < to + int (2 * n)
     then M (from + (if even (a - to) then a - to + 1 else a - to - 1)) else M a)"
  using assms
proof (induction n arbitrary: M "from" "to")
  case (Suc n)
  have "swab_loop M from to (Suc n) a = swab_loop (M(to := M (from + 1), to + 1 := M from)) (from + 2) (to + 2) n a"
    by (simp add: Let_def)
  also have "\<dots> = (if to + 2 \<le> a \<and> a < to + 2 + int (2 * n)
     then (M(to := M (from + 1), to + 1 := M from)) (from + 2 + (if even (a - (to + 2)) then a - (to + 2) + 1 else a - (to + 2) - 1))
     else (M(to := M (from + 1), to + 1 := M from)) a)"
    by (rule Suc.IH) (use Suc.prems in auto)
  finally have e: "swab_loop M from to (Suc n) a = \<dots>" .
  consider "a = to" | "a = to + 1" | "a < to \<or> to + 2 + int (2 * n) \<le> a" | "to + 2 \<le> a" "a < to + 2 + int (2 * n)" by linarith
  then show ?case
  proof cases
    case 4
    let ?r = "from + (if even (a - to) then a - to + 1 else a - to - 1)"
    have "from + 2 \<le> ?r" "?r < from + 2 + int (2 * n)" using 4 by (presburger | simp)+
    then have "?r \<noteq> to" "?r \<noteq> to + 1" using Suc.prems by auto
    moreover have "from + 2 + (if even (a - (to + 2)) then a - (to + 2) + 1 else a - (to + 2) - 1) = ?r" by auto
    ultimately have "swab_loop M from to (Suc n) a = M ?r"
      unfolding e using 4 by (simp only: fun_upd_apply if_False if_True simp_thms)
    moreover have "to \<le> a \<and> a < to + int (2 * Suc n)" using 4 by simp
    ultimately show ?thesis by (simp only: if_True simp_thms)
  qed (use e in auto)
qed auto

text \<open>
  C32: \<open>memmove\<close> is safe for every overlap: whatever the two regions, the destination holds the bytes
  that the source held before the call, and no other byte of memory changes.
\<close>

theorem memmove_overlap_safe:
  "\<exists>M'. memmove M dest src n = (dest, M') \<and>
     (\<forall>a. M' a = (if dest \<le> a \<and> a < dest + int n then M (src + (a - dest)) else M a))"
  by (cases "dest < src") (simp_all add: memmove_def memmove_up_ok memmove_down_ok)

end
