(* ===== verification/Qsort.thy ===== *)
theory Qsort
  imports Prelude "HOL-Library.Multiset"
begin

section \<open>The quicksort of the library (lib/libc/gen/qsort.c)\<close>

text \<open>
  The array is a function from element numbers to elements, \<open>a\<close> and \<open>l\<close> the numbers of its first element
  and of the one behind its last; the byte pointers of the source are these times the size of an
  element.  The comparison is a parameter.  The exchanges are first given byte by byte, as the
  source has them, then for whole elements.
\<close>

subsection \<open>Exchanges\<close>

text \<open>\<open>n\<close> units (bytes, or words when size and alignment allow) from \<open>i\<close> and \<open>j\<close> change places.\<close>

fun exc_units :: "(int \<Rightarrow> 'b) \<Rightarrow> int \<Rightarrow> int \<Rightarrow> nat \<Rightarrow> int \<Rightarrow> 'b" where
  "exc_units M i j 0 = M"
| "exc_units M i j (Suc n) = (let c = M i; M1 = M(i := M j) in exc_units (M1(j := c)) (i + 1) (j + 1) n)"

fun texc_units :: "(int \<Rightarrow> 'b) \<Rightarrow> int \<Rightarrow> int \<Rightarrow> int \<Rightarrow> nat \<Rightarrow> int \<Rightarrow> 'b" where
  "texc_units M i j k 0 = M"
| "texc_units M i j k (Suc n) =
     (let c = M i; M1 = M(i := M k); M2 = M1(k := M1 j)
      in texc_units (M2(j := c)) (i + 1) (j + 1) (k + 1) n)"

definition qsexc :: "int \<Rightarrow> int \<Rightarrow> (int \<Rightarrow> 'a) \<Rightarrow> int \<Rightarrow> 'a" where
  "qsexc i j A = (let c = A i; A1 = A(i := A j) in A1(j := c))"

definition qstexc :: "int \<Rightarrow> int \<Rightarrow> int \<Rightarrow> (int \<Rightarrow> 'a) \<Rightarrow> int \<Rightarrow> 'a" where
  "qstexc i j k A = (let c = A i; A1 = A(i := A k); A2 = A1(k := A1 j) in A2(j := c))"

text \<open>The elements of \<open>es\<close> units each that a memory holds.\<close>

definition elems :: "nat \<Rightarrow> (int \<Rightarrow> 'b) \<Rightarrow> int \<Rightarrow> 'b list" where
  "elems es M e = map (\<lambda>b. M (int es * e + int b)) [0..<es]"

subsection \<open>The partition\<close>

text \<open>
  The flag tells the label: \<open>False\<close> at the head of the \<open>for\<close>, \<open>True\<close> at \<open>loop\<close>.  The source compares \<open>i\<close> and \<open>lp\<close> for
  equality; \<open>i\<close> is never beyond \<open>lp\<close> (lemma \<open>qs_part_index\<close>), and the two branches for that case close the
  recursion.
\<close>

function qs_part :: "('a \<Rightarrow> 'a \<Rightarrow> int) \<Rightarrow> bool \<Rightarrow> int \<Rightarrow> int \<Rightarrow> int \<Rightarrow> int \<Rightarrow> (int \<Rightarrow> 'a) \<Rightarrow> (int \<Rightarrow> 'a) \<times> int \<times> int" where
  "qs_part cmp mid i j lp hp A =
     (if \<not> mid \<and> i < lp \<and> cmp (A i) (A lp) = 0 then qs_part cmp False i j (lp - 1) hp (qsexc i (lp - 1) A)
      else if \<not> mid \<and> i < lp \<and> cmp (A i) (A lp) < 0 then qs_part cmp False (i + 1) j lp hp A
      else if j > hp then
        (if cmp (A hp) (A j) = 0 then qs_part cmp True i j lp (hp + 1) (qsexc (hp + 1) j A)
         else if cmp (A hp) (A j) > 0 then
           (if i = lp then qs_part cmp True (lp + 1) j (lp + 1) (hp + 1) (qstexc i (hp + 1) j A)
            else if i < lp then qs_part cmp False (i + 1) (j - 1) lp hp (qsexc i j A)
            else (A, lp, hp))
         else qs_part cmp True i (j - 1) lp hp A)
      else if i < lp then qs_part cmp False i (hp - 1) (lp - 1) (hp - 1) (qstexc j (lp - 1) i A)
      else (A, lp, hp))"
  by pat_completeness auto
termination
  by (relation "measure (\<lambda>(cmp, mid, i, j, lp, hp, A). nat (lp - i) + nat (j - hp))") auto

declare qs_part.simps [simp del]

text \<open>The rule for the loop: an invariant that every one of its steps keeps holds where it ends.\<close>

lemma qs_part_rule:
  assumes "I mid i j lp hp A"
    and idx: "\<And>mid i j lp hp A. I mid i j lp hp A \<Longrightarrow> i \<le> lp"
    and top: "\<And>i j lp hp A. I False i j lp hp A \<Longrightarrow> \<not> (i < lp \<and> cmp (A i) (A lp) \<le> 0) \<Longrightarrow> I True i j lp hp A"
    and eq1: "\<And>i j lp hp A. I False i j lp hp A \<Longrightarrow> i < lp \<Longrightarrow> cmp (A i) (A lp) = 0 \<Longrightarrow> I False i j (lp - 1) hp (qsexc i (lp - 1) A)"
    and lt1: "\<And>i j lp hp A. I False i j lp hp A \<Longrightarrow> i < lp \<Longrightarrow> cmp (A i) (A lp) < 0 \<Longrightarrow> I False (i + 1) j lp hp A"
    and eq2: "\<And>i j lp hp A. I True i j lp hp A \<Longrightarrow> hp < j \<Longrightarrow> cmp (A hp) (A j) = 0 \<Longrightarrow> I True i j lp (hp + 1) (qsexc (hp + 1) j A)"
    and rot: "\<And>i j lp hp A. I True i j lp hp A \<Longrightarrow> hp < j \<Longrightarrow> cmp (A hp) (A j) > 0 \<Longrightarrow> i = lp \<Longrightarrow>
      I True (lp + 1) j (lp + 1) (hp + 1) (qstexc i (hp + 1) j A)"
    and swp: "\<And>i j lp hp A. I True i j lp hp A \<Longrightarrow> hp < j \<Longrightarrow> cmp (A hp) (A j) > 0 \<Longrightarrow> i < lp \<Longrightarrow>
      I False (i + 1) (j - 1) lp hp (qsexc i j A)"
    and lt2: "\<And>i j lp hp A. I True i j lp hp A \<Longrightarrow> hp < j \<Longrightarrow> cmp (A hp) (A j) < 0 \<Longrightarrow> I True i (j - 1) lp hp A"
    and fin: "\<And>i j lp hp A. I True i j lp hp A \<Longrightarrow> \<not> hp < j \<Longrightarrow> i < lp \<Longrightarrow> I False i (hp - 1) (lp - 1) (hp - 1) (qstexc j (lp - 1) i A)"
  shows "\<exists>A' lp' hp' j'. qs_part cmp mid i j lp hp A = (A', lp', hp') \<and> I True lp' j' lp' hp' A' \<and> j' \<le> hp'"
  using assms(1)
proof (induction "nat (lp - i) + nat (j - hp)" arbitrary: mid i j lp hp A rule: less_induct)
  case less
  let ?goal = "\<lambda>r. \<exists>A' lp' hp' j'. r = (A', lp', hp') \<and> I True lp' j' lp' hp' A' \<and> j' \<le> hp'"
  have il: "i \<le> lp" using idx [OF less.prems] .
  consider "\<not> mid" "i < lp" "cmp (A i) (A lp) = 0" | "\<not> mid" "i < lp" "cmp (A i) (A lp) < 0"
    | (m) "mid \<or> \<not> (i < lp \<and> cmp (A i) (A lp) \<le> 0)" by linarith
  then show ?case
  proof cases
    case 1
    then have "qs_part cmp mid i j lp hp A = qs_part cmp False i j (lp - 1) hp (qsexc i (lp - 1) A)"
      by (subst qs_part.simps) simp
    then show ?thesis using less.hyps [OF _ eq1] less.prems 1 by simp
  next
    case 2
    then have "qs_part cmp mid i j lp hp A = qs_part cmp False (i + 1) j lp hp A" by (subst qs_part.simps) simp
    then show ?thesis using less.hyps [OF _ lt1] less.prems 2 by simp
  next
    case m
    have I: "I True i j lp hp A" using m less.prems top by (cases mid) auto
    have step: "qs_part cmp mid i j lp hp A =
      (if j > hp then
        (if cmp (A hp) (A j) = 0 then qs_part cmp True i j lp (hp + 1) (qsexc (hp + 1) j A)
         else if cmp (A hp) (A j) > 0 then
           (if i = lp then qs_part cmp True (lp + 1) j (lp + 1) (hp + 1) (qstexc i (hp + 1) j A)
            else qs_part cmp False (i + 1) (j - 1) lp hp (qsexc i j A))
         else qs_part cmp True i (j - 1) lp hp A)
      else if i < lp then qs_part cmp False i (hp - 1) (lp - 1) (hp - 1) (qstexc j (lp - 1) i A)
      else (A, lp, hp))"
      using m il by (subst qs_part.simps) auto
    consider (eq) "hp < j" "cmp (A hp) (A j) = 0" | (r) "hp < j" "cmp (A hp) (A j) > 0" "i = lp"
      | (s) "hp < j" "cmp (A hp) (A j) > 0" "i < lp" | (l) "hp < j" "cmp (A hp) (A j) < 0"
      | (f) "\<not> hp < j" "i < lp" | (e) "\<not> hp < j" "i = lp" using il by linarith
    then show ?thesis
    proof cases
      case eq
      then show ?thesis using step less.hyps [OF _ eq2 [OF I eq]] by simp
    next
      case r
      then show ?thesis using step less.hyps [OF _ rot [OF I r]] by simp
    next
      case s
      then show ?thesis using step less.hyps [OF _ swp [OF I s]] by simp
    next
      case l
      then show ?thesis using step less.hyps [OF _ lt2 [OF I l]] by simp
    next
      case f
      then show ?thesis using step less.hyps [OF _ fin [OF I f]] by simp
    next
      case e
      then show ?thesis using step I by auto
    qed
  qed
qed

lemma qs_part_index:
  assumes "a \<le> i" "i \<le> lp" "lp \<le> hp" "hp \<le> j" "j < l" "qs_part cmp mid i j lp hp A = (A', lp', hp')"
  shows "a \<le> lp' \<and> lp' \<le> hp' \<and> hp' < l"
  using qs_part_rule [where cmp = cmp and I = "\<lambda>_ i j lp hp _. a \<le> i \<and> i \<le> lp \<and> lp \<le> hp \<and> hp \<le> j \<and> j < l" and A = A
      and mid = mid and i = i and j = j and lp = lp and hp = hp] assms
  by auto

lemma qs_part_mid:
  assumes "\<not> l - a \<le> 1" "(A', lp, hp) = qs_part cmp False a (l - 1) (a + (l - a) div 2) (a + (l - a) div 2) A"
  shows "a \<le> lp \<and> lp \<le> hp \<and> hp < l"
  by (rule qs_part_index [OF _ _ _ _ _ assms(2) [symmetric]]) (use assms(1) in auto)

subsection \<open>The recursion\<close>

function qs1 :: "('a \<Rightarrow> 'a \<Rightarrow> int) \<Rightarrow> int \<Rightarrow> int \<Rightarrow> (int \<Rightarrow> 'a) \<Rightarrow> int \<Rightarrow> 'a" where
  "qs1 cmp a l A =
     (if l - a \<le> 1 then A
      else let m = a + (l - a) div 2; (A', lp, hp) = qs_part cmp False a (l - 1) m m A
           in if lp - a \<ge> l - hp then qs1 cmp a lp (qs1 cmp (hp + 1) l A')
              else qs1 cmp (hp + 1) l (qs1 cmp a lp A'))"
  by pat_completeness auto
termination
  by (relation "measure (\<lambda>(cmp, a, l, A). nat (l - a))") (auto dest: qs_part_mid)

declare qs1.simps [simp del]

definition qsort :: "('a \<Rightarrow> 'a \<Rightarrow> int) \<Rightarrow> int \<Rightarrow> nat \<Rightarrow> (int \<Rightarrow> 'a) \<Rightarrow> int \<Rightarrow> 'a" where
  "qsort fc a n A = qs1 fc a (a + int n) A"

subsection \<open>Exchanges permute\<close>

text \<open>\<open>A'\<close> holds the elements of \<open>A\<close> in another order within the slots \<open>a\<close> to \<open>l - 1\<close>, and the same elsewhere.\<close>

definition permuted :: "int \<Rightarrow> int \<Rightarrow> (int \<Rightarrow> 'a) \<Rightarrow> (int \<Rightarrow> 'a) \<Rightarrow> bool" where
  "permuted a l A A' \<longleftrightarrow> (\<exists>p. bij_betw p {a..<l} {a..<l} \<and> (\<forall>x. x \<notin> {a..<l} \<longrightarrow> p x = x) \<and> A' = A \<circ> p)"

lemma permuted_refl: "permuted a l A A"
  unfolding permuted_def by (rule exI [of _ id]) auto

lemma permuted_trans: "permuted a l A A' \<Longrightarrow> permuted a l A' A'' \<Longrightarrow> permuted a l A A''"
  unfolding permuted_def
  by (elim exE conjE, rule exI, rule conjI, erule (1) bij_betw_trans [rotated]) (simp add: comp_assoc)

lemma permuted_sub:
  assumes "permuted a' l' A A'" "a \<le> a'" "l' \<le> l"
  shows "permuted a l A A'"
proof -
  obtain p where p: "bij_betw p {a'..<l'} {a'..<l'}" "\<forall>x. x \<notin> {a'..<l'} \<longrightarrow> p x = x" "A' = A \<circ> p"
    using assms(1) by (auto simp: permuted_def)
  have "bij_betw p ({a..<l} - {a'..<l'}) ({a..<l} - {a'..<l'})"
    by (rule bij_betw_cong [THEN iffD1, OF _ bij_betw_id]) (use p(2) in auto)
  then have "bij_betw p ({a'..<l'} \<union> ({a..<l} - {a'..<l'})) ({a'..<l'} \<union> ({a..<l} - {a'..<l'}))"
    by (intro bij_betw_combine p(1)) auto
  moreover have "{a..<l} \<union> {a'..<l'} = {a..<l} \<or> {a'..<l'} = {}" using assms(2,3) by auto
  ultimately show ?thesis using p(2,3) assms(2,3) unfolding permuted_def
    by (intro exI [of _ p]) (auto simp: Un_Diff_cancel Un_commute)
qed

lemma permuted_mset: "permuted a l A A' \<Longrightarrow> mset (map A' [a..l - 1]) = mset (map A [a..l - 1])"
proof -
  assume "permuted a l A A'"
  then obtain p where p: "bij_betw p {a..<l} {a..<l}" "A' = A \<circ> p" by (auto simp: permuted_def)
  have s: "mset [a..l - 1] = mset_set {a..<l}"
  proof -
    have "set [a..l - 1] = {a..<l}" by auto
    then show ?thesis by (metis distinct_upto mset_set_set)
  qed
  have "mset (map A' [a..l - 1]) = image_mset A (image_mset p (mset_set {a..<l}))"
    by (simp add: p(2) s image_mset.comp [symmetric])
  also have "image_mset p (mset_set {a..<l}) = mset_set {a..<l}"
    using p(1) by (simp add: image_mset_mset_set bij_betw_def)
  finally show ?thesis by (simp add: s)
qed

lemma permuted_ball: "permuted a l A A' \<Longrightarrow> \<forall>x. a \<le> x \<and> x < l \<longrightarrow> P (A x) \<Longrightarrow> \<forall>x. a \<le> x \<and> x < l \<longrightarrow> P (A' x)"
  unfolding permuted_def bij_betw_def by (auto, metis atLeastLessThan_iff imageI)

lemma permuted_outside: "permuted a l A A' \<Longrightarrow> x < a \<or> l \<le> x \<Longrightarrow> A' x = A x"
  by (auto simp: permuted_def)

lemma qsexc_permutes:
  assumes "a \<le> i" "i < l" "a \<le> j" "j < l"
  shows "permuted a l A (qsexc i j A)"
  unfolding permuted_def
proof (intro exI conjI)
  let ?p = "\<lambda>x. if x = i then j else if x = j then i else x"
  show "bij_betw ?p {a..<l} {a..<l}"
    by (rule bij_betw_byWitness [where f' = ?p]) (use assms in auto)
  show "qsexc i j A = A \<circ> ?p" by (auto simp: qsexc_def Let_def fun_eq_iff)
qed (use assms in auto)

lemma qstexc_permutes:
  assumes "a \<le> i" "i < l" "a \<le> j" "j < l" "a \<le> k" "k < l" "i \<noteq> j" "i \<noteq> k"
  shows "permuted a l A (qstexc i j k A)"
  unfolding permuted_def
proof (intro exI conjI)
  let ?p = "\<lambda>x. if x = i then k else if x = j then i else if x = k then j else x"
  let ?q = "\<lambda>x. if x = k then i else if x = i then j else if x = j then k else x"
  show "bij_betw ?p {a..<l} {a..<l}"
    by (rule bij_betw_byWitness [where f' = ?q]) (use assms in auto)
  show "qstexc i j k A = A \<circ> ?p" using assms(7,8) by (auto simp: qstexc_def Let_def fun_eq_iff)
qed (use assms in auto)

subsection \<open>The comparison\<close>

text \<open>What the caller's comparison must be: the sign of a total preorder.\<close>

definition consistent :: "('a \<Rightarrow> 'a \<Rightarrow> int) \<Rightarrow> bool" where
  "consistent cmp \<longleftrightarrow> (\<forall>x y. sgn (cmp y x) = - sgn (cmp x y)) \<and> (\<forall>x y z. cmp x y \<le> 0 \<longrightarrow> cmp y z \<le> 0 \<longrightarrow> cmp x z \<le> 0)"

lemma consistentD:
  assumes "consistent cmp"
  shows "cmp x y \<le> 0 \<Longrightarrow> cmp y z \<le> 0 \<Longrightarrow> cmp x z \<le> 0" "cmp y x < 0 \<longleftrightarrow> 0 < cmp x y" "cmp y x = 0 \<longleftrightarrow> cmp x y = 0"
    "cmp y x \<le> 0 \<longleftrightarrow> 0 \<le> cmp x y"
proof -
  show "cmp x y \<le> 0 \<Longrightarrow> cmp y z \<le> 0 \<Longrightarrow> cmp x z \<le> 0" using assms unfolding consistent_def by blast
  have s: "sgn (cmp y x) = - sgn (cmp x y)" using assms unfolding consistent_def by blast
  show "cmp y x < 0 \<longleftrightarrow> 0 < cmp x y" "cmp y x = 0 \<longleftrightarrow> cmp x y = 0" "cmp y x \<le> 0 \<longleftrightarrow> 0 \<le> cmp x y"
    using s by (auto simp: sgn_if split: if_splits)
qed

lemma same_class:
  assumes "consistent cmp" "cmp x v = 0"
  shows "cmp y x < 0 \<longleftrightarrow> cmp y v < 0" "cmp y x = 0 \<longleftrightarrow> cmp y v = 0" "cmp x y < 0 \<longleftrightarrow> cmp y v > 0" "cmp x y = 0 \<longleftrightarrow> cmp y v = 0"
    "cmp x y > 0 \<longleftrightarrow> cmp y v < 0"
proof -
  note D = consistentD [OF assms(1)]
  have v: "cmp v x = 0" using assms(2) D(3) by blast
  have a: "cmp y x \<le> 0 \<longleftrightarrow> cmp y v \<le> 0" using D(1) [of y x v] D(1) [of y v x] assms(2) v by auto
  have b: "cmp x y \<le> 0 \<longleftrightarrow> cmp v y \<le> 0" using D(1) [of v x y] D(1) [of x v y] assms(2) v by auto
  have n: "cmp y x < 0 \<longleftrightarrow> 0 < cmp x y" "cmp y v < 0 \<longleftrightarrow> 0 < cmp v y" "cmp x y < 0 \<longleftrightarrow> 0 < cmp y x" "cmp v y < 0 \<longleftrightarrow> 0 < cmp y v"
    by (rule D(2))+
  show s1: "cmp y x < 0 \<longleftrightarrow> cmp y v < 0" by (metis b n(1,2) not_le)
  show s2: "cmp y x = 0 \<longleftrightarrow> cmp y v = 0" using a s1 by linarith
  show "cmp x y < 0 \<longleftrightarrow> cmp y v > 0" by (metis a n(3) not_le)
  show "cmp x y = 0 \<longleftrightarrow> cmp y v = 0" using D(3) [of x y] s2 by blast
  show "cmp x y > 0 \<longleftrightarrow> cmp y v < 0" using n(1) s1 by blast
qed

subsection \<open>The partition is right\<close>

text \<open>Below \<open>i\<close> all is less than the pivot, from \<open>lp\<close> to \<open>hp\<close> equal, above \<open>j\<close> greater; at the inner label a left element that stopped the scan is greater.\<close>

definition part_inv :: "('a \<Rightarrow> 'a \<Rightarrow> int) \<Rightarrow> 'a \<Rightarrow> int \<Rightarrow> int \<Rightarrow> (int \<Rightarrow> 'a) \<Rightarrow> bool \<Rightarrow> int \<Rightarrow> int \<Rightarrow> int \<Rightarrow> int \<Rightarrow> (int \<Rightarrow> 'a) \<Rightarrow> bool" where
  "part_inv cmp v a l A0 mid i j lp hp A \<longleftrightarrow> a \<le> i \<and> i \<le> lp \<and> lp \<le> hp \<and> hp \<le> j \<and> j < l \<and> permuted a l A0 A \<and>
     (\<forall>x. a \<le> x \<and> x < i \<longrightarrow> cmp (A x) v < 0) \<and> (\<forall>x. lp \<le> x \<and> x \<le> hp \<longrightarrow> cmp (A x) v = 0) \<and>
     (\<forall>x. j < x \<and> x < l \<longrightarrow> cmp (A x) v > 0) \<and> (mid \<and> i < lp \<longrightarrow> cmp (A i) v > 0)"

lemma qsexc_at: "qsexc i j A x = (if x = j then A i else if x = i then A j else A x)"
  by (simp add: qsexc_def Let_def)

lemma qstexc_at: "i \<noteq> j \<Longrightarrow> i \<noteq> k \<Longrightarrow>
  qstexc i j k A x = (if x = j then A i else if x = k then A j else if x = i then A k else A x)"
  by (simp add: qstexc_def Let_def)

lemma part_invD:
  assumes "part_inv cmp v a l A0 mid i j lp hp A"
  shows "a \<le> i" "i \<le> lp" "lp \<le> hp" "hp \<le> j" "j < l" "permuted a l A0 A" "\<And>x. a \<le> x \<Longrightarrow> x < i \<Longrightarrow> cmp (A x) v < 0"
    "\<And>x. lp \<le> x \<Longrightarrow> x \<le> hp \<Longrightarrow> cmp (A x) v = 0" "\<And>x. j < x \<Longrightarrow> x < l \<Longrightarrow> cmp (A x) v > 0"
    "mid \<Longrightarrow> i < lp \<Longrightarrow> cmp (A i) v > 0"
  using assms by (simp_all add: part_inv_def)

lemma part_invI:
  assumes "a \<le> i" "i \<le> lp" "lp \<le> hp" "hp \<le> j" "j < l" "permuted a l A0 A" "\<And>x. a \<le> x \<Longrightarrow> x < i \<Longrightarrow> cmp (A x) v < 0"
    "\<And>x. lp \<le> x \<Longrightarrow> x \<le> hp \<Longrightarrow> cmp (A x) v = 0" "\<And>x. j < x \<Longrightarrow> x < l \<Longrightarrow> cmp (A x) v > 0"
    "mid \<Longrightarrow> i < lp \<Longrightarrow> cmp (A i) v > 0"
  shows "part_inv cmp v a l A0 mid i j lp hp A"
  using assms by (simp add: part_inv_def)

lemma part_step_eq1:
  assumes "consistent cmp" "part_inv cmp v a l A0 False i j lp hp A" "i < lp" "cmp (A i) (A lp) = 0"
  shows "part_inv cmp v a l A0 False i j (lp - 1) hp (qsexc i (lp - 1) A)"
proof -
  note I = part_invD [OF assms(2)]
  have v: "cmp (A i) v = 0" using same_class(2) [OF assms(1) I(8) [of lp]] I(3) assms(4) by simp
  have p: "permuted a l A0 (qsexc i (lp - 1) A)"
    by (rule permuted_trans [OF I(6) qsexc_permutes]) (use I(1-5) assms(3) in auto)
  show ?thesis
  proof (rule part_invI [OF _ _ _ _ _ p])
    show "cmp (qsexc i (lp - 1) A x) v = 0" if "lp - 1 \<le> x" "x \<le> hp" for x
      using that I(8) [of x] v assms(3) by (cases "x = lp - 1") (auto simp: qsexc_at)
  qed (use I(1-5,7,9) assms(3) in \<open>auto simp: qsexc_at\<close>)
qed

lemma part_step_eq2:
  assumes "consistent cmp" "part_inv cmp v a l A0 True i j lp hp A" "hp < j" "cmp (A hp) (A j) = 0"
  shows "part_inv cmp v a l A0 True i j lp (hp + 1) (qsexc (hp + 1) j A)"
proof -
  note I = part_invD [OF assms(2)]
  have v: "cmp (A j) v = 0" using same_class(4) [OF assms(1) I(8) [of hp]] I(3) assms(4) by simp
  have p: "permuted a l A0 (qsexc (hp + 1) j A)"
    by (rule permuted_trans [OF I(6) qsexc_permutes]) (use I(1-5) assms(3) in auto)
  show ?thesis
  proof (rule part_invI [OF _ _ _ _ _ p])
    show "cmp (qsexc (hp + 1) j A x) v = 0" if "lp \<le> x" "x \<le> hp + 1" for x
      using that I(8) [of x] v assms(3) by (cases "x = hp + 1") (auto simp: qsexc_at)
  qed (use I(1-5,7,9,10) assms(3) in \<open>auto simp: qsexc_at\<close>)
qed

lemma part_step_rot:
  assumes "consistent cmp" "part_inv cmp v a l A0 True i j lp hp A" "hp < j" "cmp (A hp) (A j) > 0" "i = lp"
  shows "part_inv cmp v a l A0 True (lp + 1) j (lp + 1) (hp + 1) (qstexc i (hp + 1) j A)"
proof -
  note I = part_invD [OF assms(2)]
  have v: "cmp (A j) v < 0" using same_class(5) [OF assms(1) I(8) [of hp]] I(3) assms(4) by simp
  have n: "i \<noteq> hp + 1" "i \<noteq> j" using I(3) assms(3,5) by auto
  have p: "permuted a l A0 (qstexc i (hp + 1) j A)"
    by (rule permuted_trans [OF I(6) qstexc_permutes]) (use I(1-5) assms(3,5) n in auto)
  show ?thesis
  proof (rule part_invI [OF _ _ _ _ _ p])
    show "cmp (qstexc i (hp + 1) j A x) v < 0" if "a \<le> x" "x < lp + 1" for x
      using that I(3,7) v assms(3,5) n by (cases "x = i") (auto simp: qstexc_at)
    show "cmp (qstexc i (hp + 1) j A x) v = 0" if "lp + 1 \<le> x" "x \<le> hp + 1" for x
      using that I(3) I(8) [of x] I(8) [of lp] assms(3,5) n by (cases "x = hp + 1") (auto simp: qstexc_at)
  qed (use I(1-5,9) assms(3,5) n in \<open>auto simp: qstexc_at\<close>)
qed

lemma part_step_swp:
  assumes "consistent cmp" "part_inv cmp v a l A0 True i j lp hp A" "hp < j" "cmp (A hp) (A j) > 0" "i < lp"
  shows "part_inv cmp v a l A0 False (i + 1) (j - 1) lp hp (qsexc i j A)"
proof -
  note I = part_invD [OF assms(2)]
  have v: "cmp (A j) v < 0" using same_class(5) [OF assms(1) I(8) [of hp]] I(3) assms(4) by simp
  have p: "permuted a l A0 (qsexc i j A)"
    by (rule permuted_trans [OF I(6) qsexc_permutes]) (use I(1-5) assms(3,5) in auto)
  show ?thesis
  proof (rule part_invI [OF _ _ _ _ _ p])
    show "cmp (qsexc i j A x) v < 0" if "a \<le> x" "x < i + 1" for x
      using that I(2,3,7) v assms(3) by (cases "x = i") (auto simp: qsexc_at)
    show "cmp (qsexc i j A x) v > 0" if "j - 1 < x" "x < l" for x
      using that I(2,3,9,10) assms(3,5) by (cases "x = j") (auto simp: qsexc_at)
  qed (use I(1-5,8) assms(3,5) in \<open>auto simp: qsexc_at\<close>)
qed

lemma part_step_fin:
  assumes "part_inv cmp v a l A0 True i j lp hp A" "\<not> hp < j" "i < lp"
  shows "part_inv cmp v a l A0 False i (hp - 1) (lp - 1) (hp - 1) (qstexc j (lp - 1) i A)"
proof -
  note I = part_invD [OF assms(1)]
  have n: "j \<noteq> lp - 1" "j \<noteq> i" "j = hp" using I(2-4) assms(2,3) by auto
  have p: "permuted a l A0 (qstexc j (lp - 1) i A)"
    by (rule permuted_trans [OF I(6) qstexc_permutes]) (use I(1-5) assms(3) n in auto)
  show ?thesis
  proof (rule part_invI [OF _ _ _ _ _ p])
    show "cmp (qstexc j (lp - 1) i A x) v = 0" if "lp - 1 \<le> x" "x \<le> hp - 1" for x
      using that I(2,3) I(8) [of x] I(8) [of hp] assms(3) n by (cases "x = lp - 1") (auto simp: qstexc_at)
    show "cmp (qstexc j (lp - 1) i A x) v > 0" if "hp - 1 < x" "x < l" for x
      using that I(2,3,9,10) assms(3) n by (cases "x = hp") (auto simp: qstexc_at)
  qed (use I(1-5,7) assms(3) n in \<open>auto simp: qstexc_at\<close>)
qed

lemma part_step_scan:
  assumes "consistent cmp" "part_inv cmp v a l A0 mid i j lp hp A"
  shows "\<not> mid \<Longrightarrow> i < lp \<Longrightarrow> cmp (A i) (A lp) < 0 \<Longrightarrow> part_inv cmp v a l A0 False (i + 1) j lp hp A"
    "\<not> mid \<Longrightarrow> \<not> (i < lp \<and> cmp (A i) (A lp) \<le> 0) \<Longrightarrow> part_inv cmp v a l A0 True i j lp hp A"
    "mid \<Longrightarrow> hp < j \<Longrightarrow> cmp (A hp) (A j) < 0 \<Longrightarrow> part_inv cmp v a l A0 True i (j - 1) lp hp A"
proof -
  note I = part_invD [OF assms(2)]
  note S = same_class [OF assms(1) I(8) [of lp]] same_class(3) [OF assms(1) I(8) [of hp]]
  show "part_inv cmp v a l A0 False (i + 1) j lp hp A" if "\<not> mid" "i < lp" "cmp (A i) (A lp) < 0"
  proof (rule part_invI [OF _ _ _ _ _ I(6)])
    show "cmp (A x) v < 0" if "a \<le> x" "x < i + 1" for x
      using that I(3,7) S(1) \<open>cmp (A i) (A lp) < 0\<close> by (cases "x = i") auto
  qed (use I that in auto)
  show "part_inv cmp v a l A0 True i j lp hp A" if "\<not> mid" "\<not> (i < lp \<and> cmp (A i) (A lp) \<le> 0)"
  proof (rule part_invI [OF _ _ _ _ _ I(6)])
    show "cmp (A i) v > 0" if "i < lp" using that I(3) S(1,2) [of "A i"] \<open>\<not> (i < lp \<and> _)\<close> by auto
  qed (use I in auto)
  show "part_inv cmp v a l A0 True i (j - 1) lp hp A" if "mid" "hp < j" "cmp (A hp) (A j) < 0"
  proof (rule part_invI [OF _ _ _ _ _ I(6)])
    show "cmp (A x) v > 0" if "j - 1 < x" "x < l" for x
      using that I(3,9) S(6) \<open>cmp (A hp) (A j) < 0\<close> by (cases "x = j") auto
  qed (use I that in auto)
qed

lemma qs_part_ok:
  assumes "consistent cmp" "part_inv cmp v a l A0 False i j lp hp A"
  shows "\<exists>A' lp' hp'. qs_part cmp False i j lp hp A = (A', lp', hp') \<and> a \<le> lp' \<and> lp' \<le> hp' \<and> hp' < l \<and> permuted a l A0 A' \<and>
    (\<forall>x. a \<le> x \<and> x < lp' \<longrightarrow> cmp (A' x) v < 0) \<and> (\<forall>x. lp' \<le> x \<and> x \<le> hp' \<longrightarrow> cmp (A' x) v = 0) \<and>
    (\<forall>x. hp' < x \<and> x < l \<longrightarrow> cmp (A' x) v > 0)"
proof -
  let ?I = "part_inv cmp v a l A0"
  have "\<exists>A' lp' hp' j'. qs_part cmp False i j lp hp A = (A', lp', hp') \<and> ?I True lp' j' lp' hp' A' \<and> j' \<le> hp'"
    using part_step_scan(1,2) [OF assms(1), where mid = False] part_step_scan(3) [OF assms(1), where mid = True] part_step_eq1 [OF assms(1)] part_step_eq2 [OF assms(1)] part_step_rot [OF assms(1)]
      part_step_swp [OF assms(1)] part_step_fin
    by (intro qs_part_rule [where I = ?I, OF assms(2)]) (simp_all add: part_invD(2))
  then show ?thesis unfolding part_inv_def by force
qed

subsection \<open>The sort\<close>

definition in_order :: "('a \<Rightarrow> 'a \<Rightarrow> int) \<Rightarrow> int \<Rightarrow> int \<Rightarrow> (int \<Rightarrow> 'a) \<Rightarrow> bool" where
  "in_order cmp a l A \<longleftrightarrow> (\<forall>x y. a \<le> x \<and> x < y \<and> y < l \<longrightarrow> cmp (A x) (A y) \<le> 0)"

text \<open>The state of the array between the partition and its end: three runs around the pivot \<open>v\<close>.\<close>

definition runs :: "('a \<Rightarrow> 'a \<Rightarrow> int) \<Rightarrow> 'a \<Rightarrow> int \<Rightarrow> int \<Rightarrow> int \<Rightarrow> int \<Rightarrow> (int \<Rightarrow> 'a) \<Rightarrow> bool" where
  "runs cmp v a lp hp l A \<longleftrightarrow> (\<forall>x. a \<le> x \<and> x < lp \<longrightarrow> cmp (A x) v < 0) \<and> (\<forall>x. lp \<le> x \<and> x < hp + 1 \<longrightarrow> cmp (A x) v = 0) \<and>
     (\<forall>x. hp + 1 \<le> x \<and> x < l \<longrightarrow> cmp (A x) v > 0)"

lemma runsD:
  assumes "runs cmp v a lp hp l A"
  shows "a \<le> x \<Longrightarrow> x < lp \<Longrightarrow> cmp (A x) v < 0" "lp \<le> x \<Longrightarrow> x \<le> hp \<Longrightarrow> cmp (A x) v = 0" "hp < x \<Longrightarrow> x < l \<Longrightarrow> cmp (A x) v > 0"
  using assms by (simp_all add: runs_def)

lemma runs_in_order:
  assumes c: "consistent cmp" and r: "runs cmp v a lp hp l A" and s: "in_order cmp a lp A" "in_order cmp (hp + 1) l A"
  shows "in_order cmp a l A"
  unfolding in_order_def
proof (intro allI impI)
  fix x y
  assume xy: "a \<le> x \<and> x < y \<and> y < l"
  have lo: "cmp (A x) v \<le> 0" if "x \<le> hp" using runsD(1,2) [OF r, of x] xy that by (cases "x < lp") simp_all
  have "cmp (A y) v \<ge> 0" if "lp \<le> y" using runsD(2,3) [OF r, of y] xy that by (cases "y \<le> hp") simp_all
  then have hi: "cmp v (A y) \<le> 0" if "lp \<le> y" using that consistentD(4) [OF c] by blast
  consider "y < lp" | "hp < x" | "x \<le> hp" "lp \<le> y" by linarith
  then show "cmp (A x) (A y) \<le> 0"
    using s xy consistentD(1) [OF c lo hi] by cases (auto simp: in_order_def)
qed

lemma permuted_runs:
  assumes "runs cmp v a lp hp l A" "lp \<le> hp" "permuted a lp A A' \<or> permuted (hp + 1) l A A'"
  shows "runs cmp v a lp hp l A'"
proof -
  have L: ?thesis if "permuted a lp A A'"
    using assms(1,2) permuted_outside [OF that] permuted_ball [OF that, of "\<lambda>x. cmp x v < 0"] unfolding runs_def by simp
  have "?thesis" if "permuted (hp + 1) l A A'"
    using assms(1,2) permuted_outside [OF that] permuted_ball [OF that, of "\<lambda>x. cmp x v > 0"] unfolding runs_def by simp
  then show ?thesis using L assms(3) by blast
qed

lemma permuted_in_order: "in_order cmp a l A \<Longrightarrow> permuted b m A A' \<Longrightarrow> l \<le> b \<or> m \<le> a \<Longrightarrow> in_order cmp a l A'"
  using permuted_outside [of b m A A'] unfolding in_order_def by auto

lemma qs_part_runs:
  assumes "consistent cmp" "\<not> l - a \<le> 1"
  obtains A' lp hp v where "qs_part cmp False a (l - 1) (a + (l - a) div 2) (a + (l - a) div 2) A = (A', lp, hp)"
    "a \<le> lp" "lp \<le> hp" "hp < l" "permuted a l A A'" "runs cmp v a lp hp l A'"
proof -
  let ?m = "a + (l - a) div 2"
  have "cmp (A ?m) (A ?m) = - cmp (A ?m) (A ?m)" if "cmp (A ?m) (A ?m) \<noteq> 0"
    using consistentD(2) [OF assms(1), of "A ?m" "A ?m"] that by linarith
  then have "part_inv cmp (A ?m) a l A False a (l - 1) ?m ?m A"
    using assms(2) by (intro part_invI) (auto simp: permuted_refl)
  from qs_part_ok [OF assms(1) this] show ?thesis by (elim exE conjE, intro that) (auto simp: runs_def)
qed

lemma qs1_sorts:
  assumes "consistent cmp"
  shows "permuted a l A (qs1 cmp a l A) \<and> in_order cmp a l (qs1 cmp a l A)"
proof (induction "nat (l - a)" arbitrary: a l A rule: less_induct)
  case less
  show ?case
  proof (cases "l - a \<le> 1")
    case True
    then show ?thesis by (subst (1 2) qs1.simps) (auto simp: permuted_refl in_order_def)
  next
    case False
    obtain A' lp hp v where p: "qs_part cmp False a (l - 1) (a + (l - a) div 2) (a + (l - a) div 2) A = (A', lp, hp)"
      "a \<le> lp" "lp \<le> hp" "hp < l" "permuted a l A A'" "runs cmp v a lp hp l A'"
      by (rule qs_part_runs [OF assms False])
    have L: "permuted a lp B (qs1 cmp a lp B) \<and> in_order cmp a lp (qs1 cmp a lp B)" for B
      using less [of lp a B] p(2-4) by simp
    have R: "permuted (hp + 1) l B (qs1 cmp (hp + 1) l B) \<and> in_order cmp (hp + 1) l (qs1 cmp (hp + 1) l B)" for B
      using less [of l "hp + 1" B] p(2-4) by simp
    have e: "qs1 cmp a l A = (if lp - a \<ge> l - hp then qs1 cmp a lp (qs1 cmp (hp + 1) l A')
        else qs1 cmp (hp + 1) l (qs1 cmp a lp A'))"
      using False p(1) by (subst qs1.simps) (simp add: Let_def)
    have all: ?thesis if s: "permuted a lp A' B \<and> permuted (hp + 1) l B C \<or> permuted (hp + 1) l A' B \<and> permuted a lp B C"
      "in_order cmp a lp C" "in_order cmp (hp + 1) l C" "qs1 cmp a l A = C" for B C
    proof -
      have "runs cmp v a lp hp l B" by (rule permuted_runs [OF p(6,3)]) (use s(1) in blast)
      then have r: "runs cmp v a lp hp l C" by (rule permuted_runs [OF _ p(3)]) (use s(1) in blast)
      have "permuted a l A' C" using s(1) permuted_trans permuted_sub [of a lp _ _ a l] permuted_sub [of "hp + 1" l _ _ a l] p(2-4) by fastforce
      then show ?thesis using runs_in_order [OF assms r s(2,3)] permuted_trans [OF p(5)] s(4) by blast
    qed
    have LR: "in_order cmp (hp + 1) l (qs1 cmp a lp B)" if "in_order cmp (hp + 1) l B" for B
      by (rule permuted_in_order [OF that conjunct1 [OF L]]) (use p(3) in simp)
    have RL: "in_order cmp a lp (qs1 cmp (hp + 1) l B)" if "in_order cmp a lp B" for B
      by (rule permuted_in_order [OF that conjunct1 [OF R]]) (use p(3) in simp)
    show ?thesis
    proof (cases "lp - a \<ge> l - hp")
      case True
      show ?thesis
        by (rule all [of "qs1 cmp (hp + 1) l A'" "qs1 cmp a lp (qs1 cmp (hp + 1) l A')"])
          (simp_all add: L R LR e True)
    next
      case False
      show ?thesis
        by (rule all [of "qs1 cmp a lp A'" "qs1 cmp (hp + 1) l (qs1 cmp a lp A')"])
          (simp_all add: L R RL e False)
    qed
  qed
qed

text \<open>C33: with a comparison that is the sign of a total preorder, \<open>qsort\<close> returns with the elements in
  order, the same elements as before, and nothing outside the array touched.\<close>

theorem qsort_sorts:
  assumes "consistent fc"
  shows "in_order fc a (a + int n) (qsort fc a n A) \<and>
    mset (map (qsort fc a n A) [a..a + int n - 1]) = mset (map A [a..a + int n - 1]) \<and>
    (\<forall>x. x < a \<or> a + int n \<le> x \<longrightarrow> qsort fc a n A x = A x)"
  using qs1_sorts [OF assms, of a "a + int n" A] permuted_mset permuted_outside unfolding qsort_def by blast

lemma consistent_minus: "consistent (\<lambda>x y :: int. x - y)"
  by (simp add: consistent_def sgn_if)

theorem qsort_sorts_witness:
  "in_order (\<lambda>x y. x - y) 0 5 (qsort (\<lambda>x y :: int. x - y) 0 5 (\<lambda>i. [3, 1, 2, 3, 0] ! nat i))"
  using qsort_sorts [OF consistent_minus, of 0 5 "\<lambda>i. [3, 1, 2, 3, 0] ! nat i"] by simp

subsection \<open>The depth of the recursion\<close>

text \<open>How many activations of \<open>qs1\<close> are open at once below this one; the \<open>goto start\<close> opens none.\<close>

function qs1_depth :: "('a \<Rightarrow> 'a \<Rightarrow> int) \<Rightarrow> int \<Rightarrow> int \<Rightarrow> (int \<Rightarrow> 'a) \<Rightarrow> nat" where
  "qs1_depth cmp a l A =
     (if l - a \<le> 1 then 0
      else let m = a + (l - a) div 2; (A', lp, hp) = qs_part cmp False a (l - 1) m m A
           in if lp - a \<ge> l - hp then max (Suc (qs1_depth cmp (hp + 1) l A')) (qs1_depth cmp a lp (qs1 cmp (hp + 1) l A'))
              else max (Suc (qs1_depth cmp a lp A')) (qs1_depth cmp (hp + 1) l (qs1 cmp a lp A')))"
  by pat_completeness auto
termination
  by (relation "measure (\<lambda>(cmp, a, l, A). nat (l - a))") (auto dest: qs_part_mid)

declare qs1_depth.simps [simp del]

lemma qs1_depth_log: "2 ^ qs1_depth cmp a l A \<le> max 1 (l - a)"
proof (induction cmp a l A rule: qs1_depth.induct)
  case (1 cmp a l A)
  let ?m = "a + (l - a) div 2"
  show ?case
  proof (cases "l - a \<le> 1")
    case True
    then show ?thesis by (simp add: qs1_depth.simps)
  next
    case False
    obtain A' lp hp where p: "qs_part cmp False a (l - 1) ?m ?m A = (A', lp, hp)" by (cases "qs_part cmp False a (l - 1) ?m ?m A")
    note b = qs_part_mid [OF False p [symmetric]]
    show ?thesis
    proof (cases "lp - a \<ge> l - hp")
      case True
      have r: "2 ^ qs1_depth cmp (hp + 1) l A' \<le> max 1 (l - (hp + 1))"
        and s: "2 ^ qs1_depth cmp a lp (qs1 cmp (hp + 1) l A') \<le> max 1 (lp - a)"
        using 1(1,2) [OF False refl refl p [symmetric] refl True] by auto
      have "qs1_depth cmp a l A = max (Suc (qs1_depth cmp (hp + 1) l A')) (qs1_depth cmp a lp (qs1 cmp (hp + 1) l A'))"
        using False True p by (subst qs1_depth.simps) (simp add: Let_def)
      then show ?thesis using r s b True False by (auto simp: max_def split: if_splits)
    next
      case no: False
      have r: "2 ^ qs1_depth cmp a lp A' \<le> max 1 (lp - a)"
        and s: "2 ^ qs1_depth cmp (hp + 1) l (qs1 cmp a lp A') \<le> max 1 (l - (hp + 1))"
        using 1(3,4) [OF False refl refl p [symmetric] refl no] by auto
      have "qs1_depth cmp a l A = max (Suc (qs1_depth cmp a lp A')) (qs1_depth cmp (hp + 1) l (qs1 cmp a lp A'))"
        using False no p by (subst qs1_depth.simps) (simp add: Let_def)
      then show ?thesis using r s b no False by (auto simp: max_def split: if_splits)
    qed
  qed
qed

text \<open>The recursion is logarithmic in the number of elements, whatever the comparison answers.\<close>

lemma qs1_depth_bound: "0 < n \<Longrightarrow> 2 ^ qs1_depth cmp a (a + int n) A \<le> n"
proof -
  assume n: "0 < n"
  have "int (2 ^ qs1_depth cmp a (a + int n) A) \<le> int n" using qs1_depth_log [of cmp a "a + int n" A] n by simp
  then show ?thesis by (simp only: of_nat_le_iff)
qed

subsection \<open>Exchanges of bytes and words\<close>

lemma exc_units_at: "i = j \<or> i + int n \<le> j \<or> j + int n \<le> i \<Longrightarrow>
  exc_units M i j n x = (if i \<le> x \<and> x < i + int n then M (x + (j - i)) else if j \<le> x \<and> x < j + int n then M (x + (i - j)) else M x)"
proof (induction n arbitrary: M i j)
  case (Suc n)
  have s: "exc_units M i j (Suc n) = exc_units (M(i := M j, j := M i)) (i + 1) (j + 1) n" by (simp add: Let_def)
  have d: "i + 1 = j + 1 \<or> i + 1 + int n \<le> j + 1 \<or> j + 1 + int n \<le> i + 1" using Suc.prems by auto
  show ?case unfolding s Suc.IH [OF d] using Suc.prems by (cases "x = i"; cases "x = j") auto
qed auto

lemma texc_units_at: "i + int n \<le> j \<or> j + int n \<le> i \<Longrightarrow> i + int n \<le> k \<or> k + int n \<le> i \<Longrightarrow> j = k \<or> j + int n \<le> k \<or> k + int n \<le> j \<Longrightarrow>
  texc_units M i j k n x = (if j \<le> x \<and> x < j + int n then M (x + (i - j)) else if k \<le> x \<and> x < k + int n then M (x + (j - k))
    else if i \<le> x \<and> x < i + int n then M (x + (k - i)) else M x)"
proof (induction n arbitrary: M i j k)
  case (Suc n)
  have ne: "i \<noteq> j" "i \<noteq> k" using Suc.prems by auto
  have s: "texc_units M i j k (Suc n) = texc_units (M(i := M k, k := M j, j := M i)) (i + 1) (j + 1) (k + 1) n"
    using ne by (simp add: Let_def)
  have d: "i + 1 + int n \<le> j + 1 \<or> j + 1 + int n \<le> i + 1" "i + 1 + int n \<le> k + 1 \<or> k + 1 + int n \<le> i + 1"
    "j + 1 = k + 1 \<or> j + 1 + int n \<le> k + 1 \<or> k + 1 + int n \<le> j + 1" using Suc.prems by auto
  let ?M = "M(i := M k, k := M j, j := M i)"
  have out: "\<not> (i + 1 \<le> j \<and> j < i + 1 + int n)" "\<not> (i + 1 \<le> k \<and> k < i + 1 + int n)" "\<not> (j + 1 \<le> i \<and> i < j + 1 + int n)"
    "\<not> (k + 1 \<le> i \<and> i < k + 1 + int n)" "\<not> (j + 1 \<le> k \<and> k < j + 1 + int n)" "\<not> (k + 1 \<le> j \<and> j < k + 1 + int n)"
    using Suc.prems by linarith+
  have keep: "?M y = M y" if "y \<noteq> i" "y \<noteq> j" "y \<noteq> k" for y using that by simp
  have val: "?M (x + (i - j)) = M (x + (i - j))" if "j + 1 \<le> x \<and> x < j + 1 + int n"
    by (rule keep) (use that out(1,2) in linarith)+
  have val': "?M (x + (j - k)) = M (x + (j - k))" if "k + 1 \<le> x \<and> x < k + 1 + int n"
    by (rule keep) (use that out(3,5) in linarith)+
  have val'': "?M (x + (k - i)) = M (x + (k - i))" if "i + 1 \<le> x \<and> x < i + 1 + int n"
    by (rule keep) (use that out(4,6) in linarith)+
  have blk: "(b \<le> x \<and> x < b + int (Suc n)) \<longleftrightarrow> x = b \<or> (b + 1 \<le> x \<and> x < b + 1 + int n)" for b by auto
  define B where "B b \<longleftrightarrow> b + 1 \<le> x \<and> x < b + 1 + int n" for b
  have off: "x = i \<Longrightarrow> \<not> B i \<and> \<not> B j \<and> \<not> B k" "x = j \<Longrightarrow> \<not> B i \<and> \<not> B j \<and> \<not> B k" "x = k \<Longrightarrow> \<not> B i \<and> \<not> B j \<and> \<not> B k"
    unfolding B_def using out by simp_all
  have shift: "x = j \<Longrightarrow> x + (i - j) = i" "x = k \<Longrightarrow> x + (j - k) = j" "x = i \<Longrightarrow> x + (k - i) = k" by simp_all
  note vals = val [folded B_def] val' [folded B_def] val'' [folded B_def]
  consider "x = j" | "x = k" "x \<noteq> j" | "x = i" "x \<noteq> j" "x \<noteq> k" | "x \<noteq> i" "x \<noteq> j" "x \<noteq> k" by blast
  then have "(if B j then ?M (x + (i - j)) else if B k then ?M (x + (j - k)) else if B i then ?M (x + (k - i)) else ?M x) =
    (if x = j \<or> B j then M (x + (i - j)) else if x = k \<or> B k then M (x + (j - k)) else if x = i \<or> B i then M (x + (k - i)) else M x)"
  proof cases
    case 1
    then show ?thesis using off(2) shift(1) by simp
  next
    case 2
    then show ?thesis using off(3) shift(2) by simp
  next
    case 3
    then show ?thesis using off(1) shift(3) by simp
  next
    case 4
    show ?thesis by (simp only: vals keep [OF 4] 4 simp_thms cong: if_cong)
  qed
  then show ?case unfolding s Suc.IH [OF d] blk B_def add_diff_cancel_right .
qed auto

text \<open>Element numbers apart are blocks apart, so the unit loops exchange whole elements.\<close>

lemma block_apart: "i \<noteq> j \<Longrightarrow> int es * i + int es \<le> int es * j \<or> int es * j + int es \<le> int es * i" for i j :: int
proof -
  assume "i \<noteq> j"
  then have "i + 1 \<le> j \<or> j + 1 \<le> i" by auto
  then have "int es * (i + 1) \<le> int es * j \<or> int es * (j + 1) \<le> int es * i" by (meson mult_left_mono of_nat_0_le_iff)
  then show ?thesis by (simp add: distrib_left)
qed

lemma in_block: "b < es \<Longrightarrow> (int es * i \<le> int es * x + int b \<and> int es * x + int b < int es * i + int es) \<longleftrightarrow> x = i" for i x :: int
  using block_apart [of x i es] by (cases "x = i") auto

lemma block_shift: "u + b + (v - u) = v + b" for u v b :: int
  by simp

lemma exc_units_elems: "elems es (exc_units M (int es * i) (int es * j) es) = qsexc i j (elems es M)"
proof
  fix x
  have d: "int es * i = int es * j \<or> int es * i + int es \<le> int es * j \<or> int es * j + int es \<le> int es * i"
    using block_apart [of i j es] by (cases "i = j") auto
  show "elems es (exc_units M (int es * i) (int es * j) es) x = qsexc i j (elems es M) x"
    by (auto simp: elems_def qsexc_at exc_units_at [OF d] in_block block_shift)
qed

lemma texc_units_elems: "i \<noteq> j \<Longrightarrow> i \<noteq> k \<Longrightarrow>
  elems es (texc_units M (int es * i) (int es * j) (int es * k) es) = qstexc i j k (elems es M)"
proof
  fix x
  assume n: "i \<noteq> j" "i \<noteq> k"
  have d: "int es * j = int es * k \<or> int es * j + int es \<le> int es * k \<or> int es * k + int es \<le> int es * j"
    using block_apart [of j k es] by (cases "j = k") auto
  show "elems es (texc_units M (int es * i) (int es * j) (int es * k) es) x = qstexc i j k (elems es M) x"
    using n by (auto simp: elems_def qstexc_at texc_units_at [OF block_apart [OF n(1)] block_apart [OF n(2)] d] in_block block_shift)
qed

end
