(* ===== verification/Spec2Isabelle.thy ===== *)
theory Spec2Isabelle
  imports Boot Sigframe Ttyline Syscalls Cstring Qsort
begin

text \<open>
  This library is a model, with proofs, of Unix v7 for the BESM-6: a machine of 48-bit words, with six
  bytes to a word, 41-bit integers, and an address space of 32 pages of 1024 words.  File names below are
  relative to \<open>src/\<close>.

  \<^bold>\<open>The program.\<close>  The kernel (\<open>kernel/\<close>, \<open>kernel/dev/\<close>, headers \<open>include/sys/\<close>) is entered by system calls, faults and
  interrupts.  A call passes the gate (\<open>syscall.c\<close>) to a handler of \<open>sys1.c\<close> to \<open>sys4.c\<close>; handlers work on open files
  (\<open>fio.c\<close>), path names (\<open>nami.c\<close>), inodes (\<open>iget.c\<close>), file contents (\<open>subr.c\<close>, \<open>rdwri.c\<close>) and free blocks (\<open>alloc.c\<close>), all through the
  buffer cache (\<open>dev/bio.c\<close>) and the two block drivers (\<open>dev/md.c\<close>, \<open>dev/mb.c\<close>).  Processes sleep and wake
  (\<open>slp.c\<close>), are signalled (\<open>sig.c\<close>), grow, are swapped and share texts (\<open>text.c\<close>); core and swap space come from resource
  maps (\<open>malloc.c\<close>) and are shown to the hardware by page tables (\<open>utab.c\<close>).  Terminals (\<open>dev/tty.c\<close>, \<open>dev/sc.c\<close>)
  keep their characters in a pool of blocks (\<open>prim.c\<close>).

  \<^bold>\<open>How it is modelled.\<close>  The state of the kernel is one record, \<^typ>\<open>kst\<close> (theory State): the tables of
  processes, files, inodes, buffers, texts, mounts and terminals as functions from indices to records with the fields of the C
  structures, flag words as sets of flags, physical memory as a function from word addresses to 48-bit words.  Pointers into a
  table are indices, null pointers are \<^const>\<open>None\<close>.  Fields of type \<open>char\<close> wrap at 8 bits (\<^const>\<open>cinc\<close>, \<^const>\<open>cdec\<close>), integers that
  reach the user are 41-bit (\<^const>\<open>ival\<close>, \<^const>\<open>wval\<close>).  What lies outside the sources (addresses that the linker assigns,
  the answers of the devices, the memory devices) is in the record \<^typ>\<open>env\<close>, a parameter of
  the definitions; \<^const>\<open>v7besm\<close> (theory Conf) fills in the device tables of \<open>conf.c\<close>.
  A routine that can sleep, panic or jump is a function from states to \<^typ>\<open>('s, 'a) run\<close> (theory Run): it returns, panics, jumps to the gate,
  or gives up the processor with a continuation that resumes in any state.  Loops that wait for an event have fuel (\<^const>\<open>e_fuel\<close>) and end in
  \<^const>\<open>Hang\<close> without it; loops over a table have fuel that covers the table (the queues: \<open>QFUEL\<close>, more than twice the number of
  processes; the driver queues: \<open>DEVFUEL\<close>, more than the number of buffers), and the theorems about them show that they
  return.

  \<^bold>\<open>Theories and sources.\<close>
  \<^item> Prelude, Run, Machine (word, bytes, \<open>apx\<close> and \<open>aux\<close> of \<open>cmd/sim/besm6_arch.cpp\<close>), State (\<open>include/sys/*.h\<close>).
  \<^item> Memory: Mmu (\<open>utab.c\<close>), Ucopy (\<open>ucopy.c\<close>, \<open>usermem.S\<close>), Rmap (\<open>malloc.c\<close>), Text (\<open>text.c\<close>, \<open>seg.S\<close>), Swap (\<open>slp.c\<close>).
  \<^item> Processes: Sched (\<open>slp.c\<close>, \<open>sig.c\<close>, \<open>switch.s\<close>, \<open>uarea.S\<close>), Process (\<open>sys1.c\<close>, \<open>acct.c\<close>), Exec (\<open>sys1.c\<close>), Trace (\<open>sig.c\<close>, \<open>machdep.c\<close>), Clock (\<open>clock.c\<close>).
  \<^item> Files: Bio (\<open>dev/bio.c\<close>), Alloc, Inode, Rdwri, Fio, Pipe, Sysfile (\<open>sys2.c\<close>, \<open>sys3.c\<close>), Sysmisc (\<open>sys4.c\<close>).
  \<^item> Devices: Clist (\<open>prim.c\<close>), Tty (\<open>dev/tty.c\<close>, \<open>dev/sc.c\<close>, \<open>dev/sys.c\<close>), Irq (\<open>intr.c\<close>), Drum (\<open>dev/mb.c\<close>), Disk (\<open>dev/md.c\<close>), Prf (\<open>prf.c\<close>).
  \<^item> The whole: Kctl (\<open>kctl.c\<close>), Gate (\<open>syscall.c\<close>, \<open>sysent.c\<close>, \<open>trap.c\<close>), Conf (\<open>conf.c\<close>, \<open>intr.c\<close>), Boot (\<open>main.c\<close>).
  \<^item> The C library (\<open>lib/libc/gen/\<close>), apart from the kernel and its state: Cstring (\<open>str*.c\<close>, \<open>mem*.c\<close>, \<open>swab.c\<close>) over a memory of bytes, Qsort (\<open>qsort.c\<close>) over an array
    of elements.  A walk to a terminating zero is a \<open>partial_function\<close>: \<^const>\<open>None\<close> means it does not return.

  \<^bold>\<open>What is shown.\<close>
  \<^item> Mmu, Ucopy: which images are refused and which mapped, the page tables describe the image, translation is injective, the copies between kernel and user move
    exactly the bytes asked for at every alignment, or nothing, up to the byte count that the 15-bit division of \<open>usermem.S\<close> can take; what happens beyond it.
  \<^item> Rmap: the resource maps grant and take back exactly runs of the free space; how a full map loses its terminator and what then runs past its end.
  \<^item> Queues, Dispatch: sleep queues and run queue stay well formed, a sleeper stays asleep through every other scheduling step until its channel is woken
    and is then runnable, the dispatcher takes the best process; these hold under \<open>no_clash\<close>, and the one case it excludes is shown, where a wakeup misses sleepers.
  \<^item> Clist, Ttyline: the character pool is a family of queues; the line editor is a function on lists of characters and agrees with what erase and kill mean for
    a line of UTF-8 characters; a count that goes stale.
  \<^item> Clock: the callout table stands for a list of deadlines; where it overruns.
  \<^item> Sigframe: a handler returns to the registers it interrupted, and cannot forge the mode bits.
  \<^item> Drumchain: a request is served by exchanges that cover it word for word; a failing disk is given up after ten retries.
  \<^item> Signals, Syscalls: whom \<open>kill\<close> reaches, how a signal ends a wait, the errors a call returns.
  \<^item> Cstring: each routine against lists of characters and regions of memory, \<open>memmove\<close> for every overlap.
  \<^item> Qsort: the partition loop keeps its three runs, the sort orders and permutes, the recursion is logarithmic, and the
    byte and word loops of the exchanges move whole elements.

  \<^bold>\<open>Not modelled.\<close>  The interrupt level (\<open>spl\<close>): a routine runs to its end or to its next sleep.  The polled console output under \<open>printf\<close> is a log.
  The memory devices (\<open>dev/mem.c\<close>) write arbitrary kernel words, which have no counterpart under a structured state.  The start-up and interrupt code in assembly
  (\<open>besm6.S\<close>, \<open>const.s\<close>, \<open>brz.s\<close>) saves and restores registers and drains the write cache.  The commands, the rest of
  the libraries and the cross tools run on top of this interface or on the host and are outside this library.
\<close>

end
